(* ===== verification/Trace_Prelude.thy ===== *)
theory Trace_Prelude
  imports Main "HOL-Library.Word" "HOL-Library.Monad_Syntax" "HOL-Library.Sublist"
begin

text \<open>
  The prelude of the phptrace development: bytes and machine integers, the part of the C library
  the sources call on strings, the byte order of the wire, bounded reads and writes of a memory
  block, and the environment of the allocator. Every other theory builds on it.

  A C object that is read or written as raw memory is a list of \<open>char\<close> (HOL's \<open>char\<close> is
  one byte). An access outside the object is undefined behaviour of the C program; it is the
  value \<open>None\<close> of the models here, so that "the result is \<open>Some\<close>" includes memory safety.
\<close>

named_theorems mem_simps \<open>rules that evaluate bounded reads and writes\<close>
named_theorems int_simps \<open>rules that remove the wrap-around of C integers that stay in range\<close>

type_synonym bytes = "char list"
type_synonym u8 = "8 word"
type_synonym u32 = "32 word"
type_synonym u64 = "64 word"

abbreviation NUL :: char where
  "NUL \<equiv> CHR 0x00"

section \<open>Integers of fixed width\<close>

text \<open>
  C's \<open>int\<close> and \<open>size_t\<close> (LP64: 32 and 64 bits) as \<open>int\<close> and \<open>nat\<close> with the wrap-around
  of a conversion written out.
\<close>

definition to_int32 :: "int \<Rightarrow> int" where
  "to_int32 x = (x + 2 ^ 31) mod 2 ^ 32 - 2 ^ 31"

definition to_size :: "int \<Rightarrow> nat" where
  "to_size x = nat (x mod 2 ^ 64)"

lemma to_int32_id [int_simps]: "- (2 ^ 31) \<le> x \<Longrightarrow> x < 2 ^ 31 \<Longrightarrow> to_int32 x = x"
  by (simp add: to_int32_def)

lemma to_int32_range: "- (2 ^ 31) \<le> to_int32 x \<and> to_int32 x < 2 ^ 31"
proof -
  have "0 \<le> (x + 2 ^ 31) mod 2 ^ 32" and "(x + 2 ^ 31) mod 2 ^ 32 < 2 ^ 32"
    by (rule pos_mod_sign, simp) (rule pos_mod_bound, simp)
  then show ?thesis by (simp add: to_int32_def)
qed

lemma to_size_nonneg [int_simps]: "0 \<le> x \<Longrightarrow> x < 2 ^ 64 \<Longrightarrow> to_size x = nat x"
  by (simp add: to_size_def)

lemma size_diff [int_simps]:
  fixes l n :: nat
  assumes "l \<le> n" and "n < 2 ^ 64"
  shows "(n + 2 ^ 64 - l) mod 2 ^ 64 = n - l"
proof -
  have "n + 2 ^ 64 - l = (n - l) + 2 ^ 64" using assms by simp
  then have "(n + 2 ^ 64 - l) mod 2 ^ 64 = (n - l) mod 2 ^ 64"
    by (simp only: mod_add_self2)
  with assms show ?thesis by simp
qed

section \<open>The C string functions of the library\<close>

text \<open>
  A \<open>char *\<close> to a string is the list of the bytes that follow the pointer; a terminating NUL
  follows the list (and may already occur inside it). \<open>cstr\<close> is what the C library sees of it.
\<close>

definition cstr :: "bytes \<Rightarrow> bytes" where
  "cstr s = takeWhile (\<lambda>c. c \<noteq> NUL) s"

definition strlen :: "bytes \<Rightarrow> nat" where
  "strlen s = length (cstr s)"

definition nul_free :: "bytes \<Rightarrow> bool" where
  "nul_free s \<longleftrightarrow> list_all (\<lambda>c. c \<noteq> NUL) s"

text \<open>\<open>strcmp(a, b) == 0\<close> and \<open>strstr(h, n) != NULL\<close>, the two ways the sources use them.\<close>

definition strcmp_eq :: "bytes \<Rightarrow> bytes \<Rightarrow> bool" where
  "strcmp_eq a b \<longleftrightarrow> cstr a = cstr b"

fun occurs_in :: "bytes \<Rightarrow> bytes \<Rightarrow> bool" where
  "occurs_in n [] = (n = [])"
| "occurs_in n (c # h) = (prefix n (c # h) \<or> occurs_in n h)"

definition strstr_found :: "bytes \<Rightarrow> bytes \<Rightarrow> bool" where
  "strstr_found h n = occurs_in (cstr n) (cstr h)"

lemma nul_free_cstr [simp]: "nul_free s \<Longrightarrow> cstr s = s"
  by (simp add: nul_free_def cstr_def list_all_iff)

lemma nul_free_cstr_self [simp]: "nul_free (cstr s)"
  by (auto simp: nul_free_def cstr_def list_all_iff dest: set_takeWhileD)

lemma nul_free_append [simp]: "nul_free (a @ b) \<longleftrightarrow> nul_free a \<and> nul_free b"
  by (simp add: nul_free_def)

lemma nul_free_Nil [simp]: "nul_free []"
  by (simp add: nul_free_def)

lemma nul_free_Cons [simp]: "nul_free (c # s) \<longleftrightarrow> c \<noteq> NUL \<and> nul_free s"
  by (simp add: nul_free_def)

lemma cstr_Nil [simp]: "cstr [] = []"
  by (simp add: cstr_def)

lemma cstr_Cons [simp]: "cstr (c # s) = (if c = NUL then [] else c # cstr s)"
  by (simp add: cstr_def)

lemma cstr_append_NUL [simp]: "cstr (s @ NUL # r) = cstr s"
  by (induction s) auto

lemma strlen_le: "strlen s \<le> length s"
  by (simp add: strlen_def cstr_def length_takeWhile_le)

lemma take_strlen [simp]: "take (strlen s) s = cstr s"
  by (simp add: strlen_def cstr_def takeWhile_eq_take [symmetric])

lemma occurs_in_sublist: "occurs_in n h \<longleftrightarrow> sublist n h"
proof (induction h)
  case Nil
  then show ?case by auto
next
  case (Cons c h)
  then show ?case by (simp add: sublist_Cons_right)
qed

text \<open>The digits \<open>printf\<close> writes for \<open>%d\<close> and \<open>%ld\<close>.\<close>

fun dec_nat :: "nat \<Rightarrow> bytes" where
  "dec_nat n = (if n < 10 then [char_of (48 + n)] else dec_nat (n div 10) @ [char_of (48 + n mod 10)])"

declare dec_nat.simps [simp del]

definition dec_int :: "int \<Rightarrow> bytes" where
  "dec_int i = (if i < 0 then CHR ''-'' # dec_nat (nat (- i)) else dec_nat (nat i))"

lemma digit_not_NUL: "(d::nat) < 10 \<Longrightarrow> char_of (48 + d) \<noteq> NUL"
proof
  assume "d < 10" and "char_of (48 + d) = NUL"
  then have "of_char (char_of (48 + d)) = (of_char NUL :: nat)" by simp
  with \<open>d < 10\<close> show False by simp
qed

lemma nul_free_dec_nat [simp]: "nul_free (dec_nat n)"
  by (induction n rule: dec_nat.induct) (subst dec_nat.simps, simp add: digit_not_NUL)

lemma nul_free_dec_int [simp]: "nul_free (dec_int i)"
  by (simp add: dec_int_def)

lemma length_dec_nat: "n < 10 ^ k \<Longrightarrow> 0 < k \<Longrightarrow> length (dec_nat n) \<le> k"
proof (induction n arbitrary: k rule: dec_nat.induct)
  case (1 n)
  show ?case
  proof (cases "n < 10")
    case True
    with "1.prems" show ?thesis by (subst dec_nat.simps) simp
  next
    case False
    with "1.prems" obtain m where m: "k = Suc m" "0 < m" by (cases k; cases "k - 1") auto
    with "1.prems" have "n div 10 < 10 ^ m" by (simp add: less_mult_imp_div_less mult.commute)
    with "1.IH" [OF False] m False show ?thesis by (subst dec_nat.simps) simp
  qed
qed

lemma length_dec_int:
  assumes "\<bar>i\<bar> < 10 ^ k" and "0 < k"
  shows "length (dec_int i) \<le> Suc k"
proof -
  have "nat \<bar>i\<bar> < 10 ^ k" using assms(1) by (simp add: nat_less_iff)
  from length_dec_nat [OF this assms(2)] show ?thesis by (auto simp: dec_int_def abs_if split: if_splits)
qed

section \<open>Integers in memory\<close>

text \<open>
  The k bytes of an integer, least significant first: the byte order of the machines the sources
  are written for. Both ends of a connection run on one machine.
\<close>

fun le_bytes :: "nat \<Rightarrow> nat \<Rightarrow> bytes" where
  "le_bytes 0 x = []"
| "le_bytes (Suc k) x = char_of (x mod 256) # le_bytes k (x div 256)"

fun le_value :: "bytes \<Rightarrow> nat" where
  "le_value [] = 0"
| "le_value (c # cs) = of_char c + 256 * le_value cs"

lemma length_le_bytes [simp]: "length (le_bytes k x) = k"
  by (induction k arbitrary: x) auto

lemma le_value_le_bytes [simp]: "le_value (le_bytes k x) = x mod 256 ^ k"
proof (induction k arbitrary: x)
  case 0
  then show ?case by simp
next
  case (Suc k)
  have "x mod (256 * 256 ^ k) = 256 * (x div 256 mod 256 ^ k) + x mod 256"
    by (rule mod_mult2_eq)
  with Suc show ?case by simp
qed

lemma of_char_bound: "of_char c < (256::nat)"
  using of_char_mod_256 [of c] by (metis mod_less_divisor zero_less_numeral)

lemma le_value_bound: "le_value cs < 256 ^ length cs"
proof (induction cs)
  case Nil
  then show ?case by simp
next
  case (Cons c cs)
  with of_char_bound [of c] have "of_char c + 256 * le_value cs < 256 * 256 ^ length cs"
    by linarith
  then show ?case by simp
qed

section \<open>Bounded reads and writes\<close>

text \<open>
  A writing cursor is a memory block and an offset into it, the \<open>buf\<close> pointer of the sources; a
  reading cursor is the list of the bytes from the pointer to the end of the block.
\<close>

type_synonym cursor = "bytes \<times> nat"

definition poke :: "bytes \<Rightarrow> cursor \<Rightarrow> cursor option" where
  "poke bs c =
     (if bs = [] then Some c
      else case c of (b, p) \<Rightarrow>
        if p + length bs \<le> length b
        then Some (take p b @ bs @ drop (p + length bs) b, p + length bs) else None)"

definition peek :: "nat \<Rightarrow> bytes \<Rightarrow> (bytes \<times> bytes) option" where
  "peek n b = (if n \<le> length b then Some (take n b, drop n b) else None)"

lemma poke_Nil [simp]: "poke [] c = Some c"
  by (simp add: poke_def)

lemma poke_append: "Option.bind (poke xs c) (poke ys) = poke (xs @ ys) c"
  by (cases c) (auto simp: poke_def ac_simps)

lemma poke_append_bind [mem_simps]:
  "Option.bind (poke xs c) (\<lambda>c. Option.bind (poke ys c) f) = Option.bind (poke (xs @ ys) c) f"
proof -
  have "Option.bind (poke xs c) (\<lambda>c. Option.bind (poke ys c) f) =
      Option.bind (Option.bind (poke xs c) (poke ys)) f"
    by (cases "poke xs c") auto
  then show ?thesis by (simp only: poke_append)
qed

lemmas poke_seq [mem_simps] = poke_append

lemma poke_room:
  "p + length bs \<le> length b \<Longrightarrow>
   poke bs (b, p) = Some (take p b @ bs @ drop (p + length bs) b, p + length bs)"
  by (simp add: poke_def)

lemma poke_overflow: "bs \<noteq> [] \<Longrightarrow> length b < p + length bs \<Longrightarrow> poke bs (b, p) = None"
  by (simp add: poke_def)

lemma peek_append [simp]: "length bs = n \<Longrightarrow> peek n (bs @ r) = Some (bs, r)"
  by (auto simp: peek_def)

lemma peek_extend: "peek n b = Some (bs, r) \<Longrightarrow> peek n (b @ s) = Some (bs, r @ s)"
  by (auto simp: peek_def split: if_splits)

section \<open>The environment of the allocator\<close>

text \<open>
  What \<open>malloc\<close>, \<open>calloc\<close> and \<open>realloc\<close> do that the program cannot see: whether a request of
  a size succeeds, and the bytes of fresh memory that nothing has written yet.
\<close>

record mem_env =
  alloc_ok :: "nat \<Rightarrow> bool"
  junk :: "nat \<Rightarrow> char"

definition fresh :: "mem_env \<Rightarrow> nat \<Rightarrow> bytes" where
  "fresh E n = map (junk E) [0..<n]"

lemma length_fresh [simp]: "length (fresh E n) = n"
  by (simp add: fresh_def)

text \<open>\<open>realloc\<close> keeps the old bytes up to the smaller of the two sizes.\<close>

definition realloc_bytes :: "mem_env \<Rightarrow> nat \<Rightarrow> bytes \<Rightarrow> bytes" where
  "realloc_bytes E n b = take n b @ fresh E (n - length b)"

lemma length_realloc_bytes [simp]: "length (realloc_bytes E n b) = n"
  by (simp add: realloc_bytes_def min_def)

lemma take_realloc_bytes [simp]:
  "k \<le> n \<Longrightarrow> k \<le> length b \<Longrightarrow> take k (realloc_bytes E n b) = take k b"
  by (simp add: realloc_bytes_def min_def)

lemma nth_realloc_bytes [simp]:
  "i < n \<Longrightarrow> i < length b \<Longrightarrow> realloc_bytes E n b ! i = b ! i"
  by (simp add: realloc_bytes_def nth_append)

section \<open>Sequences of operations\<close>

text \<open>
  A client of a component runs its operations one after another on the state they return.
  \<open>step i s\<close> is one operation: undefined behaviour, \<open>NULL\<close> or the new state. The interface says
  that an operation whose precondition holds of the abstract state keeps the invariant and does to
  the abstract state what \<open>astep\<close> says; the lemma lifts this to a sequence.
\<close>

fun run_steps :: "('i \<Rightarrow> 's \<Rightarrow> 's option option) \<Rightarrow> 'i list \<Rightarrow> 's \<Rightarrow> 's option option" where
  "run_steps step [] s = Some (Some s)"
| "run_steps step (i # is) s = do { r \<leftarrow> step i s; s \<leftarrow> r; run_steps step is s }"

fun all_pre :: "('i \<Rightarrow> 'a \<Rightarrow> bool) \<Rightarrow> ('i \<Rightarrow> 'a \<Rightarrow> 'a) \<Rightarrow> 'i list \<Rightarrow> 'a \<Rightarrow> bool" where
  "all_pre pre astep [] a = True"
| "all_pre pre astep (i # is) a = (pre i a \<and> all_pre pre astep is (astep i a))"

locale refine_steps =
  fixes inv :: "'s \<Rightarrow> bool"
    and abs :: "'s \<Rightarrow> 'a"
    and step :: "'i \<Rightarrow> 's \<Rightarrow> 's option option"
    and astep :: "'i \<Rightarrow> 'a \<Rightarrow> 'a"
    and pre :: "'i \<Rightarrow> 'a \<Rightarrow> bool"
  assumes step_refines: "inv s \<Longrightarrow> pre i (abs s) \<Longrightarrow>
    \<exists>s'. step i s = Some (Some s') \<and> inv s' \<and> abs s' = astep i (abs s)"
begin

lemma run_refines:
  assumes "inv s" and "all_pre pre astep is (abs s)"
  shows "\<exists>s'. run_steps step is s = Some (Some s') \<and> inv s' \<and> abs s' = fold astep is (abs s)"
  using assms
proof (induction "is" arbitrary: s)
  case Nil
  then show ?case by simp
next
  case (Cons i "is")
  then obtain s1 where s1: "step i s = Some (Some s1)" "inv s1" "abs s1 = astep i (abs s)"
    using step_refines [of s i] by auto
  with Cons.IH [of s1] Cons.prems show ?case by auto
qed

end

text \<open>Operations that append a piece to a string that stays within a capacity.\<close>

lemma fold_append: "fold (\<lambda>i a. a @ f i) is a = a @ concat (map f is)"
  by (induction "is" arbitrary: a) auto

lemma all_pre_append:
  "length a + length (concat (map f is)) \<le> cap \<Longrightarrow>
   all_pre (\<lambda>i a. length a + length (f i) \<le> cap) (\<lambda>i a. a @ f i) is a"
  by (induction "is" arbitrary: a) auto

locale append_steps =
  fixes inv :: "'s \<Rightarrow> bool"
    and str :: "'s \<Rightarrow> bytes"
    and step :: "'i \<Rightarrow> 's \<Rightarrow> 's option option"
    and piece :: "'i \<Rightarrow> bytes"
    and cap :: nat
  assumes step_ok: "inv s \<Longrightarrow> length (str s) + length (piece i) \<le> cap \<Longrightarrow>
    \<exists>s'. step i s = Some (Some s') \<and> inv s' \<and> str s' = str s @ piece i"

sublocale append_steps \<subseteq> refine_steps inv str step "\<lambda>i a. a @ piece i"
  "\<lambda>i a. length a + length (piece i) \<le> cap"
  by unfold_locales (rule step_ok)

context append_steps
begin

lemma run_ok:
  assumes "inv s" and "length (str s) + length (concat (map piece is)) \<le> cap"
  shows "\<exists>s'. run_steps step is s = Some (Some s') \<and> inv s' \<and> str s' = str s @ concat (map piece is)"
  using run_refines [OF assms(1) all_pre_append [OF assms(2)]] by (simp add: fold_append)

end

end
