(* ===== verification/Sds.thy ===== *)
theory Sds
  imports Trace_Prelude
begin

text \<open>
  The dynamic strings of \<open>deps/sds\<close>: the header \<open>struct sdshdr\<close> with the block that follows it,
  creation, growth, concatenation, copying, trimming, ranges and the escaped representation.

  A value of type \<open>sds\<close> is the \<open>sds\<close> pointer of the sources: \<open>None\<close> is \<open>NULL\<close>. An operation
  returns an \<open>sds option\<close>, where the outer \<open>None\<close> is undefined behaviour (an access outside the
  block, a \<open>NULL\<close> header) and \<open>Some None\<close> is the \<open>NULL\<close> the code returns when an
  allocation fails.
\<close>

section \<open>The header and its operations\<close>

record sdshdr =
  sh_len :: int
  sh_free :: int
  sh_buf :: bytes

type_synonym sds = "sdshdr option"

definition SDS_MAX_PREALLOC :: nat where
  "SDS_MAX_PREALLOC = 1024 * 1024"

definition sizeof_sdshdr :: nat where
  "sizeof_sdshdr = 8"

text \<open>The size of a block for a header, \<open>n\<close> bytes and the NUL, as a \<open>size_t\<close>.\<close>

definition hdr_size :: "nat \<Rightarrow> nat" where
  "hdr_size n = (sizeof_sdshdr + n + 1) mod 2 ^ 64"

definition sdslen :: "sdshdr \<Rightarrow> nat" where
  "sdslen s = to_size (sh_len s)"

definition sdsavail :: "sdshdr \<Rightarrow> nat" where
  "sdsavail s = to_size (sh_free s)"

text \<open>A store of some bytes at an offset of the buffer.\<close>

definition store :: "nat \<Rightarrow> bytes \<Rightarrow> bytes \<Rightarrow> bytes option" where
  "store i bs b = map_option fst (poke bs (b, i))"

definition sdsnewlen :: "mem_env \<Rightarrow> bytes option \<Rightarrow> nat \<Rightarrow> sds option" where
  "sdsnewlen E init initlen =
     (let sz = hdr_size initlen in
      if \<not> alloc_ok E sz then Some None
      else do {
        src \<leftarrow> (case init of
                 None \<Rightarrow> Some []
               | Some p \<Rightarrow> if initlen = 0 then Some [] else map_option fst (peek initlen p));
        b \<leftarrow> store 0 src (case init of
                 None \<Rightarrow> replicate (sz - sizeof_sdshdr) NUL
               | Some _ \<Rightarrow> fresh E (sz - sizeof_sdshdr));
        b \<leftarrow> store initlen [NUL] b;
        Some (Some \<lparr>sh_len = to_int32 (int initlen), sh_free = 0, sh_buf = b\<rparr>)
      })"

definition sdsempty :: "mem_env \<Rightarrow> sds option" where
  "sdsempty E = sdsnewlen E (Some []) 0"

definition sdsnew :: "mem_env \<Rightarrow> bytes option \<Rightarrow> sds option" where
  "sdsnew E init = sdsnewlen E init (case init of None \<Rightarrow> 0 | Some s \<Rightarrow> strlen s)"

definition sdsdup :: "mem_env \<Rightarrow> sdshdr \<Rightarrow> sds option" where
  "sdsdup E s = sdsnewlen E (Some (sh_buf s)) (sdslen s)"

definition sdsupdatelen :: "sdshdr \<Rightarrow> sdshdr" where
  "sdsupdatelen s =
     (let reallen = to_int32 (int (strlen (sh_buf s))) in
      s\<lparr>sh_free := to_int32 (sh_free s + (sh_len s - reallen)), sh_len := reallen\<rparr>)"

definition sdsclear :: "sdshdr \<Rightarrow> sdshdr option" where
  "sdsclear s = do {
     b \<leftarrow> store 0 [NUL] (sh_buf s);
     Some (s\<lparr>sh_free := to_int32 (sh_free s + sh_len s), sh_len := 0, sh_buf := b\<rparr>)
   }"

text \<open>The size a string is grown to: twice the size needed, or one megabyte more than it.\<close>

definition sds_grown :: "nat \<Rightarrow> nat \<Rightarrow> nat" where
  "sds_grown len addlen =
     (let newlen = (len + addlen) mod 2 ^ 64 in
      if newlen < SDS_MAX_PREALLOC then newlen * 2 else (newlen + SDS_MAX_PREALLOC) mod 2 ^ 64)"

definition sdsMakeRoomFor :: "mem_env \<Rightarrow> sdshdr \<Rightarrow> nat \<Rightarrow> sds option" where
  "sdsMakeRoomFor E s addlen =
     (if sdsavail s \<ge> addlen then Some (Some s)
      else let newlen = sds_grown (sdslen s) addlen;
               sz = hdr_size newlen
           in if \<not> alloc_ok E sz then Some None
              else if sz < sizeof_sdshdr then None
              else Some (Some (s\<lparr>sh_free := to_int32 (int newlen - int (sdslen s)),
                                sh_buf := realloc_bytes E (sz - sizeof_sdshdr) (sh_buf s)\<rparr>)))"

definition sdsRemoveFreeSpace :: "mem_env \<Rightarrow> sdshdr \<Rightarrow> sds option" where
  "sdsRemoveFreeSpace E s =
     (let sz = hdr_size (sdslen s) in
      if alloc_ok E sz
      then Some (Some (s\<lparr>sh_free := 0, sh_buf := realloc_bytes E (sz - sizeof_sdshdr) (sh_buf s)\<rparr>))
      else None)"

definition sdsAllocSize :: "sdshdr \<Rightarrow> nat" where
  "sdsAllocSize s = (sizeof_sdshdr + to_size (sh_len s) + to_size (sh_free s) + 1) mod 2 ^ 64"

text \<open>A failed \<open>assert\<close> aborts the program: \<open>None\<close> again.\<close>

definition sdsIncrLen :: "sdshdr \<Rightarrow> int \<Rightarrow> sdshdr option" where
  "sdsIncrLen s incr =
     (if sh_free s \<ge> incr then
        let len = to_int32 (sh_len s + incr); fr = to_int32 (sh_free s - incr) in
        if fr \<ge> 0 \<and> len \<ge> 0 then do {
          b \<leftarrow> store (nat len) [NUL] (sh_buf s);
          Some (s\<lparr>sh_len := len, sh_free := fr, sh_buf := b\<rparr>)
        } else None
      else None)"

definition sdsgrowzero :: "mem_env \<Rightarrow> sdshdr \<Rightarrow> nat \<Rightarrow> sds option" where
  "sdsgrowzero E s len =
     (let curlen = to_size (sh_len s) in
      if len \<le> curlen then Some (Some s)
      else do {
        r \<leftarrow> sdsMakeRoomFor E s (len - curlen);
        case r of
          None \<Rightarrow> Some None
        | Some s \<Rightarrow> do {
            b \<leftarrow> store curlen (replicate (len - curlen + 1) NUL) (sh_buf s);
            let totlen = to_size (to_int32 (sh_len s + sh_free s));
            Some (Some \<lparr>sh_len = to_int32 (int len), sh_free = to_int32 (int totlen - int len),
                        sh_buf = b\<rparr>)
          }
      })"

definition sdscatlen :: "mem_env \<Rightarrow> sdshdr \<Rightarrow> bytes \<Rightarrow> nat \<Rightarrow> sds option" where
  "sdscatlen E s t len =
     (let curlen = sdslen s in do {
        r \<leftarrow> sdsMakeRoomFor E s len;
        case r of
          None \<Rightarrow> Some None
        | Some s \<Rightarrow> do {
            (src, _) \<leftarrow> peek len t;
            b \<leftarrow> store curlen src (sh_buf s);
            b \<leftarrow> store (curlen + len) [NUL] b;
            Some (Some \<lparr>sh_len = to_int32 (int curlen + int len),
                        sh_free = to_int32 (sh_free s - int len), sh_buf = b\<rparr>)
          }
      })"

definition sdscat :: "mem_env \<Rightarrow> sdshdr \<Rightarrow> bytes \<Rightarrow> sds option" where
  "sdscat E s t = sdscatlen E s t (strlen t)"

definition sdscatsds :: "mem_env \<Rightarrow> sdshdr \<Rightarrow> sdshdr \<Rightarrow> sds option" where
  "sdscatsds E s t = sdscatlen E s (sh_buf t) (sdslen t)"

definition sdscpylen :: "mem_env \<Rightarrow> sdshdr \<Rightarrow> bytes \<Rightarrow> nat \<Rightarrow> sds option" where
  "sdscpylen E s t len =
     (let fill = (\<lambda>s totlen. do {
            (src, _) \<leftarrow> peek len t;
            b \<leftarrow> store 0 src (sh_buf s);
            b \<leftarrow> store len [NUL] b;
            Some (Some \<lparr>sh_len = to_int32 (int len), sh_free = to_int32 (int totlen - int len),
                        sh_buf = b\<rparr>)
          });
          totlen = to_size (to_int32 (sh_free s + sh_len s))
      in if totlen < len then do {
           r \<leftarrow> sdsMakeRoomFor E s ((len + 2 ^ 64 - to_size (sh_len s)) mod 2 ^ 64);
           case r of
             None \<Rightarrow> Some None
           | Some s \<Rightarrow> fill s (to_size (to_int32 (sh_free s + sh_len s)))
         } else fill s totlen)"

definition sdscpy :: "mem_env \<Rightarrow> sdshdr \<Rightarrow> bytes \<Rightarrow> sds option" where
  "sdscpy E s t = sdscpylen E s t (strlen t)"

section \<open>The invariant and the string a header denotes\<close>

text \<open>
  The bytes of the string, and what every operation keeps: the block has room for the length, the
  free space and the NUL that ends the string.
\<close>

definition sds_str :: "sdshdr \<Rightarrow> bytes" where
  "sds_str s = take (nat (sh_len s)) (sh_buf s)"

definition sds_wf :: "sdshdr \<Rightarrow> bool" where
  "sds_wf s \<longleftrightarrow> 0 \<le> sh_len s \<and> 0 \<le> sh_free s \<and> sh_len s + sh_free s < 2 ^ 31 \<and>
     length (sh_buf s) = nat (sh_len s + sh_free s) + 1 \<and>
     sh_buf s ! nat (sh_len s) = NUL"

text \<open>Every request for memory succeeds.\<close>

definition roomy :: "mem_env \<Rightarrow> bool" where
  "roomy E \<longleftrightarrow> (\<forall>n. alloc_ok E n)"

text \<open>An environment of this kind, for the witnesses.\<close>

definition full_env :: mem_env where
  "full_env = \<lparr>alloc_ok = (\<lambda>_. True), junk = (\<lambda>_. NUL)\<rparr>"

lemma roomy_full_env [simp]: "roomy full_env"
  by (simp add: roomy_def full_env_def)

text \<open>The header \<open>sdsnewlen\<close> builds for a string: no free space.\<close>

definition mk_sds :: "bytes \<Rightarrow> sdshdr" where
  "mk_sds bs = \<lparr>sh_len = int (length bs), sh_free = 0, sh_buf = bs @ [NUL]\<rparr>"

lemma store_ok [mem_simps]:
  "i + length bs \<le> length b \<Longrightarrow> store i bs b = Some (take i b @ bs @ drop (i + length bs) b)"
  by (simp add: store_def poke_room)

lemma store_append [mem_simps]:
  "i = length a \<Longrightarrow> length xs \<le> length b \<Longrightarrow> store i xs (a @ b) = Some (a @ xs @ drop (length xs) b)"
  by (simp add: store_def poke_room)

lemma peek_ok [mem_simps]: "n \<le> length b \<Longrightarrow> peek n b = Some (take n b, drop n b)"
  by (simp add: peek_def)

lemma hdr_size_small [int_simps]: "n < 2 ^ 32 \<Longrightarrow> hdr_size n = n + 9"
  by (simp add: hdr_size_def sizeof_sdshdr_def)

lemma roomyD [simp]: "roomy E \<Longrightarrow> alloc_ok E n"
  by (simp add: roomy_def)

lemma mk_sds_wf [simp]: "length bs < 2 ^ 31 \<Longrightarrow> sds_wf (mk_sds bs)"
  by (simp add: mk_sds_def sds_wf_def)

lemma sds_str_mk_sds [simp]: "sds_str (mk_sds bs) = bs"
  by (simp add: mk_sds_def sds_str_def)

lemma sdslen_mk_sds [simp]: "length bs < 2 ^ 31 \<Longrightarrow> sdslen (mk_sds bs) = length bs"
  by (simp add: sdslen_def mk_sds_def int_simps)

lemma sds_wfE:
  assumes "sds_wf s"
  obtains l f where "sh_len s = int l" and "sh_free s = int f" and "l + f < 2 ^ 31"
    and "length (sh_buf s) = l + f + 1" and "sh_buf s ! l = NUL" and "sdslen s = l"
    and "sdsavail s = f" and "sds_str s = take l (sh_buf s)"
proof (rule that [of "nat (sh_len s)" "nat (sh_free s)"])
qed (use assms in \<open>auto simp: sds_wf_def sdslen_def sdsavail_def sds_str_def int_simps nat_add_distrib\<close>)

lemma sds_wfI:
  assumes "sh_len s = int l" and "sh_free s = int f" and "l + f < 2 ^ 31"
    and "length (sh_buf s) = l + f + 1" and "sh_buf s ! l = NUL"
  shows "sds_wf s"
  using assms by (simp add: sds_wf_def flip: of_nat_add)

lemma sdslen_str: "sds_wf s \<Longrightarrow> sdslen s = length (sds_str s)"
  by (erule sds_wfE) simp

lemma sdslen_int: "sh_len s = int l \<Longrightarrow> l < 2 ^ 64 \<Longrightarrow> sdslen s = l"
  by (simp add: sdslen_def int_simps)

lemma sdsavail_int: "sh_free s = int l \<Longrightarrow> l < 2 ^ 64 \<Longrightarrow> sdsavail s = l"
  by (simp add: sdsavail_def int_simps)

lemma sdsnewlen_bytes:
  assumes "roomy E" and "n < 2 ^ 31" and "n \<le> length p"
  shows "sdsnewlen E (Some p) n = Some (Some (mk_sds (take n p)))"
  using assms
  by (auto simp: sdsnewlen_def mk_sds_def sizeof_sdshdr_def int_simps mem_simps min_def Let_def)

lemma sdsnewlen_zero:
  assumes "roomy E" and "n < 2 ^ 31"
  shows "sdsnewlen E None n = Some (Some (mk_sds (replicate n NUL)))"
  using assms
  by (auto simp: sdsnewlen_def mk_sds_def sizeof_sdshdr_def int_simps mem_simps min_def Let_def
      replicate_append_same simp del: replicate_Suc)

lemma sdsnew_str:
  assumes "roomy E" and "strlen s < 2 ^ 31"
  shows "sdsnew E (Some s) = Some (Some (mk_sds (cstr s)))"
  using assms by (simp add: sdsnew_def sdsnewlen_bytes strlen_le)

lemma sdsempty_str: "roomy E \<Longrightarrow> sdsempty E = Some (Some (mk_sds []))"
  by (simp add: sdsempty_def sdsnewlen_bytes)

lemma sds_grown_bounds:
  assumes "len + n + SDS_MAX_PREALLOC < 2 ^ 31"
  shows "len + n \<le> sds_grown len n" and "sds_grown len n < 2 ^ 31"
  using assms by (auto simp: sds_grown_def SDS_MAX_PREALLOC_def Let_def)

lemma sdsMakeRoomFor_grown:
  assumes "sh_len s = int l" and "roomy E" and "l + n + SDS_MAX_PREALLOC < 2 ^ 31"
    and "\<not> n \<le> sdsavail s"
  shows "sdsMakeRoomFor E s n = Some (Some (s\<lparr>
    sh_free := int (sds_grown l n - l), sh_buf := realloc_bytes E (sds_grown l n + 1) (sh_buf s)\<rparr>))"
  using assms sds_grown_bounds [OF assms(3)]
  by (simp add: sdsMakeRoomFor_def sdslen_int sizeof_sdshdr_def int_simps Let_def of_nat_diff)

lemma sdsMakeRoomFor_spec:
  assumes wf: "sds_wf s" and ok: "roomy E" and small: "sdslen s + n + SDS_MAX_PREALLOC < 2 ^ 31"
  shows "\<exists>s'. sdsMakeRoomFor E s n = Some (Some s') \<and> sds_wf s' \<and> sds_str s' = sds_str s \<and>
    sh_len s' = sh_len s \<and> n \<le> sdsavail s'"
proof (cases "n \<le> sdsavail s")
  case True
  with wf show ?thesis by (simp add: sdsMakeRoomFor_def)
next
  case False
  from wf obtain l f where s: "sh_len s = int l" "sh_free s = int f" "l + f < 2 ^ 31"
    "length (sh_buf s) = l + f + 1" "sh_buf s ! l = NUL" "sdslen s = l"
    "sds_str s = take l (sh_buf s)"
    by (rule sds_wfE)
  let ?m = "sds_grown l n"
  let ?s = "s\<lparr>sh_free := int (?m - l), sh_buf := realloc_bytes E (?m + 1) (sh_buf s)\<rparr>"
  have m: "l + n \<le> ?m" "?m < 2 ^ 31" using sds_grown_bounds small s by auto
  have "sdsMakeRoomFor E s n = Some (Some ?s)"
    using s small by (intro sdsMakeRoomFor_grown ok False) simp_all
  moreover have "sds_wf ?s"
    by (rule sds_wfI [of _ l "?m - l"]) (use s m in simp_all)
  moreover have "sds_str ?s = sds_str s"
    using s m by (simp add: sds_str_def)
  moreover have "n \<le> sdsavail ?s"
    using m by (simp add: sdsavail_def int_simps)
  ultimately show ?thesis by (intro exI [of _ ?s]) simp
qed

text \<open>A header whose block holds a string, its NUL and some free space.\<close>

lemma sds_of_blocks:
  assumes "sh_len s = int (length bs)" and "sh_free s = int (length r)"
    and "sh_buf s = bs @ NUL # r" and "length bs + length r < 2 ^ 31"
  shows "sds_wf s" and "sds_str s = bs"
  using assms by (auto simp: sds_str_def intro!: sds_wfI)

lemma sds_blocksE:
  assumes "sds_wf s"
  obtains r where "sh_len s = int (length (sds_str s))" and "sh_free s = int (length r)"
    and "sh_buf s = sds_str s @ NUL # r" and "length (sds_str s) + length r < 2 ^ 31"
proof -
  from assms obtain l f where s: "sh_len s = int l" "sh_free s = int f" "l + f < 2 ^ 31"
    "length (sh_buf s) = l + f + 1" "sh_buf s ! l = NUL" "sds_str s = take l (sh_buf s)"
    by (rule sds_wfE)
  then have "sh_buf s = sds_str s @ NUL # drop (Suc l) (sh_buf s)"
    by (simp add: Cons_nth_drop_Suc flip: s(5))
  with s that [of "drop (Suc l) (sh_buf s)"] show thesis by simp
qed

lemma sdscatlen_spec:
  assumes wf: "sds_wf s" and ok: "roomy E" and n: "n \<le> length t"
    and small: "sdslen s + n + SDS_MAX_PREALLOC < 2 ^ 31"
  shows "\<exists>s'. sdscatlen E s t n = Some (Some s') \<and> sds_wf s' \<and> sds_str s' = sds_str s @ take n t"
proof -
  from sdsMakeRoomFor_spec [OF wf ok small] obtain s1 where
    s1: "sdsMakeRoomFor E s n = Some (Some s1)" "sds_wf s1" "sds_str s1 = sds_str s"
      "sh_len s1 = sh_len s" "n \<le> sdsavail s1" by blast
  from s1(2) obtain r where r: "sh_len s1 = int (length (sds_str s))" "sh_free s1 = int (length r)"
    "sh_buf s1 = sds_str s @ NUL # r" "length (sds_str s) + length r < 2 ^ 31"
    by (rule sds_blocksE) (simp add: s1(3))
  have room: "n \<le> length r" using s1(5) r by (simp add: sdsavail_int)
  let ?bs = "sds_str s @ take n t" and ?r = "drop n r"
  let ?s = "\<lparr>sh_len = int (length ?bs), sh_free = int (length ?r), sh_buf = ?bs @ NUL # ?r\<rparr>"
  have l: "sdslen s = length (sds_str s)" by (rule sdslen_str [OF wf])
  have "store (length (sds_str s)) (take n t) (sh_buf s1) = Some (?bs @ drop n (NUL # r))"
    using r room n by (simp add: mem_simps)
  moreover have "store (length (sds_str s) + n) [NUL] (?bs @ drop n (NUL # r)) = Some (?bs @ NUL # ?r)"
    using r room n by (subst store_append) (auto simp: min_def drop_Cons' Suc_diff_Suc)
  ultimately have "sdscatlen E s t n = Some (Some ?s)"
    using s1 r room n small
    by (simp add: sdscatlen_def l peek_ok int_simps of_nat_diff)
  moreover have "sds_wf ?s" and "sds_str ?s = ?bs"
    using r room n by (intro sds_of_blocks [of _ ?bs ?r]; simp)+
  ultimately show ?thesis by (intro exI [of _ ?s]) simp
qed

lemma sdscat_spec:
  assumes "sds_wf s" and "roomy E" and "sdslen s + strlen t + SDS_MAX_PREALLOC < 2 ^ 31"
  shows "\<exists>s'. sdscat E s t = Some (Some s') \<and> sds_wf s' \<and> sds_str s' = sds_str s @ cstr t"
  using sdscatlen_spec [OF assms(1,2) strlen_le assms(3)] by (simp add: sdscat_def)

text \<open>The last part of \<open>sdscpylen\<close>, once the block is known to have room.\<close>

lemma sdscpylen_fill:
  assumes "sds_wf s" and "n \<le> length t" and "n \<le> sdslen s + sdsavail s"
  shows "\<exists>s'. do {
       (src, _) \<leftarrow> peek n t;
       b \<leftarrow> store 0 src (sh_buf s);
       b \<leftarrow> store n [NUL] b;
       Some (Some \<lparr>sh_len = to_int32 (int n),
                   sh_free = to_int32 (int (to_size (to_int32 (sh_free s + sh_len s))) - int n),
                   sh_buf = b\<rparr>)
     } = Some (Some s') \<and> sds_wf s' \<and> sds_str s' = take n t"
proof -
  from assms(1) obtain l f where s: "sh_len s = int l" "sh_free s = int f" "l + f < 2 ^ 31"
    "length (sh_buf s) = l + f + 1" "sdslen s = l" "sdsavail s = f"
    by (rule sds_wfE)
  let ?r = "drop (Suc n) (sh_buf s)"
  let ?s = "\<lparr>sh_len = int (length (take n t)), sh_free = int (length ?r),
             sh_buf = take n t @ NUL # ?r\<rparr>"
  have "to_size (to_int32 (sh_free s + sh_len s)) = f + l"
    using s by (simp add: int_simps nat_add_distrib)
  moreover have "store 0 (take n t) (sh_buf s) = Some (take n t @ drop n (sh_buf s))"
    using s assms by (simp add: mem_simps)
  moreover have "store n [NUL] (take n t @ drop n (sh_buf s)) = Some (take n t @ NUL # ?r)"
    using s assms by (subst store_append) auto
  moreover have "sds_wf ?s" and "sds_str ?s = take n t"
    using s assms by (intro sds_of_blocks [of _ "take n t" ?r]; simp)+
  ultimately show ?thesis
    using s assms by (intro exI [of _ ?s]) (simp add: peek_ok int_simps of_nat_diff)
qed

lemma sdscpylen_spec:
  assumes wf: "sds_wf s" and ok: "roomy E" and n: "n \<le> length t" and small: "n + SDS_MAX_PREALLOC < 2 ^ 31"
  shows "\<exists>s'. sdscpylen E s t n = Some (Some s') \<and> sds_wf s' \<and> sds_str s' = take n t"
proof -
  from wf obtain l f where s: "sh_len s = int l" "sh_free s = int f" "l + f < 2 ^ 31"
    "sdslen s = l" "sdsavail s = f"
    by (rule sds_wfE)
  have tot: "to_size (to_int32 (sh_free s + sh_len s)) = f + l"
    using s by (simp add: int_simps nat_add_distrib)
  have len: "to_size (sh_len s) = l" using s by (simp add: int_simps)
  show ?thesis
  proof (cases "f + l < n")
    case False
    then show ?thesis
      using sdscpylen_fill [OF wf n] s tot by (simp add: sdscpylen_def Let_def)
  next
    case True
    then have grow: "(n + 2 ^ 64 - l) mod 2 ^ 64 = n - l"
      using small by (intro size_diff) auto
    have "sdslen s + (n - l) + SDS_MAX_PREALLOC < 2 ^ 31" using True small s by simp
    from sdsMakeRoomFor_spec [OF wf ok this] obtain s1 where
      s1: "sdsMakeRoomFor E s (n - l) = Some (Some s1)" "sds_wf s1" "sh_len s1 = sh_len s"
        "n - l \<le> sdsavail s1" by blast
    have "n \<le> sdslen s1 + sdsavail s1" using s1(3,4) s by (simp add: sdslen_def)
    from sdscpylen_fill [OF s1(2) n this] s1(1) True tot len grow
    show ?thesis by (simp add: sdscpylen_def Let_def)
  qed
qed

lemma sdscpy_spec:
  assumes "sds_wf s" and "roomy E" and "strlen t + SDS_MAX_PREALLOC < 2 ^ 31"
  shows "\<exists>s'. sdscpy E s t = Some (Some s') \<and> sds_wf s' \<and> sds_str s' = cstr t"
  using sdscpylen_spec [OF assms(1,2) strlen_le assms(3)] by (simp add: sdscpy_def)

lemma sdsclear_spec:
  assumes "sds_wf s"
  shows "\<exists>s'. sdsclear s = Some s' \<and> sds_wf s' \<and> sds_str s' = [] \<and>
    sdsavail s' = sdslen s + sdsavail s"
proof -
  from assms obtain l f where s: "sh_len s = int l" "sh_free s = int f" "l + f < 2 ^ 31"
    "length (sh_buf s) = l + f + 1" "sdslen s = l" "sdsavail s = f"
    by (rule sds_wfE)
  let ?s = "s\<lparr>sh_free := int (f + l), sh_len := 0, sh_buf := NUL # drop 1 (sh_buf s)\<rparr>"
  have "sdsclear s = Some ?s"
    using s by (simp add: sdsclear_def mem_simps int_simps)
  moreover have "sds_wf ?s" using s by (intro sds_wfI [of _ 0 "f + l"]) simp_all
  moreover have "sdsavail ?s = l + f" using s by (simp add: sdsavail_def int_simps nat_add_distrib)
  ultimately show ?thesis using s by (intro exI [of _ ?s]) (simp add: sds_str_def)
qed

lemma sdsgrowzero_spec:
  assumes wf: "sds_wf s" and ok: "roomy E" and small: "n + SDS_MAX_PREALLOC < 2 ^ 31"
  shows "\<exists>s'. sdsgrowzero E s n = Some (Some s') \<and> sds_wf s' \<and>
    sds_str s' = sds_str s @ replicate (n - length (sds_str s)) NUL"
proof (cases "n \<le> sdslen s")
  case True
  then show ?thesis
    using wf sdslen_str [OF wf] by (simp add: sdsgrowzero_def flip: sdslen_def)
next
  case False
  let ?l = "length (sds_str s)"
  have l: "sdslen s = ?l" by (rule sdslen_str [OF wf])
  have "sdslen s + (n - ?l) + SDS_MAX_PREALLOC < 2 ^ 31" using False l small by simp
  from sdsMakeRoomFor_spec [OF wf ok this] obtain s1 where
    s1: "sdsMakeRoomFor E s (n - ?l) = Some (Some s1)" "sds_wf s1" "sds_str s1 = sds_str s"
      "sh_len s1 = sh_len s" "n - ?l \<le> sdsavail s1" by blast
  from s1(2) obtain r where r: "sh_len s1 = int ?l" "sh_free s1 = int (length r)"
    "sh_buf s1 = sds_str s @ NUL # r" "?l + length r < 2 ^ 31"
    by (rule sds_blocksE) (simp add: s1(3))
  have room: "n - ?l \<le> length r" using s1(5) r by (simp add: sdsavail_int)
  let ?bs = "sds_str s @ replicate (n - ?l) NUL" and ?r = "drop (n - ?l) r"
  let ?s = "\<lparr>sh_len = int (length ?bs), sh_free = int (length ?r), sh_buf = ?bs @ NUL # ?r\<rparr>"
  have "store ?l (replicate (n - ?l + 1) NUL) (sh_buf s1) = Some (?bs @ NUL # ?r)"
    using r room by (simp add: mem_simps replicate_app_Cons_same)
  moreover have "to_size (to_int32 (sh_len s1 + sh_free s1)) = ?l + length r"
    using r by (simp add: int_simps nat_add_distrib)
  ultimately have "sdsgrowzero E s n = Some (Some ?s)"
    using s1 False r room l small
    by (simp add: sdsgrowzero_def Let_def int_simps of_nat_diff flip: sdslen_def del: of_nat_add)
  moreover have "sds_wf ?s" and "sds_str ?s = ?bs"
    using r room by (intro sds_of_blocks [of _ ?bs ?r]; simp)+
  ultimately show ?thesis by (intro exI [of _ ?s]) simp
qed

text \<open>What a reader that uses \<open>sdslen\<close> and the buffer sees.\<close>

lemma sds_bytes:
  assumes "sds_wf s"
  shows "peek (length (sds_str s)) (sh_buf s) = Some (sds_str s, drop (length (sds_str s)) (sh_buf s))"
    and "sdslen s = length (sds_str s)" and "length (sds_str s) < 2 ^ 31"
proof -
  from assms obtain r where r: "sh_buf s = sds_str s @ NUL # r" "length (sds_str s) + length r < 2 ^ 31"
    by (rule sds_blocksE)
  show "sdslen s = length (sds_str s)" by (rule sdslen_str [OF assms])
  show "length (sds_str s) < 2 ^ 31" using r by simp
  show "peek (length (sds_str s)) (sh_buf s) = Some (sds_str s, drop (length (sds_str s)) (sh_buf s))"
    by (subst (1 2) r(1)) simp
qed

lemma sdsRemoveFreeSpace_spec:
  assumes "sds_wf s" and "roomy E"
  shows "\<exists>s'. sdsRemoveFreeSpace E s = Some (Some s') \<and> sds_wf s' \<and> sds_str s' = sds_str s \<and>
    sdsavail s' = 0 \<and> sdsAllocSize s' = sizeof_sdshdr + sdslen s + 1"
proof -
  from assms(1) obtain l f where s: "sh_len s = int l" "sh_free s = int f" "l + f < 2 ^ 31"
    "length (sh_buf s) = l + f + 1" "sh_buf s ! l = NUL" "sdslen s = l" "sds_str s = take l (sh_buf s)"
    by (rule sds_wfE)
  let ?s = "s\<lparr>sh_free := 0, sh_buf := realloc_bytes E (l + 1) (sh_buf s)\<rparr>"
  have "sdsRemoveFreeSpace E s = Some (Some ?s)"
    using s assms(2) by (simp add: sdsRemoveFreeSpace_def sizeof_sdshdr_def int_simps)
  moreover have "sds_wf ?s" using s by (intro sds_wfI [of _ l 0]) simp_all
  moreover have "sdsavail ?s = 0" and "sdsAllocSize ?s = sizeof_sdshdr + l + 1"
    using s by (simp_all add: sdsavail_def sdsAllocSize_def sizeof_sdshdr_def int_simps)
  ultimately show ?thesis using s by (intro exI [of _ ?s]) (simp add: sds_str_def)
qed

lemma sdsupdatelen_spec:
  assumes "sds_wf s"
  shows "sds_wf (sdsupdatelen s) \<and> sds_str (sdsupdatelen s) = cstr (sds_str s)"
proof -
  from assms obtain r where r: "sh_len s = int (length (sds_str s))" "sh_free s = int (length r)"
    "sh_buf s = sds_str s @ NUL # r" "length (sds_str s) + length r < 2 ^ 31"
    by (rule sds_blocksE)
  let ?l = "length (sds_str s)" and ?n = "strlen (sds_str s)"
  have n: "strlen (sh_buf s) = ?n" using r by (simp add: strlen_def)
  have le: "?n \<le> ?l" by (rule strlen_le)
  have upd: "sh_len (sdsupdatelen s) = int ?n" "sh_free (sdsupdatelen s) = int (length r + (?l - ?n))"
    "sh_buf (sdsupdatelen s) = sh_buf s"
    using r n le by (simp_all add: sdsupdatelen_def Let_def int_simps of_nat_diff)
  have nul: "sh_buf s ! ?n = NUL"
  proof (cases "?n < ?l")
    case True
    then have "sds_str s ! ?n = NUL"
      using nth_length_takeWhile [of "\<lambda>c. c \<noteq> NUL" "sds_str s"] by (simp add: strlen_def cstr_def)
    with True show ?thesis by (subst r(3)) (simp add: nth_append)
  next
    case False
    with le have "?n = ?l" by simp
    then show ?thesis by (subst r(3)) (simp add: nth_append)
  qed
  have len: "length (sh_buf s) = Suc (?l + length r)" by (subst r(3)) simp
  have "sds_wf (sdsupdatelen s)"
    by (rule sds_wfI [of _ ?n "length r + (?l - ?n)"]) (use upd nul len le r(4) in simp_all)
  moreover have "take ?n (sh_buf s) = cstr (sds_str s)" using le by (subst r(3)) simp
  then have "sds_str (sdsupdatelen s) = cstr (sds_str s)"
    by (simp add: sds_str_def [of "sdsupdatelen s"] upd)
  ultimately show ?thesis by simp
qed

lemma sdsIncrLen_spec:
  assumes "sds_wf s" and "i \<le> sh_free s" and "0 \<le> sh_len s + i"
  shows "\<exists>s'. sdsIncrLen s i = Some s' \<and> sds_wf s' \<and> sds_str s' = take (nat (sh_len s + i)) (sh_buf s)"
proof -
  from assms(1) obtain l f where s: "sh_len s = int l" "sh_free s = int f" "l + f < 2 ^ 31"
    "length (sh_buf s) = l + f + 1"
    by (rule sds_wfE)
  define m where "m = nat (int l + i)"
  have m: "int m = int l + i" "m \<le> l + f" using assms s by (auto simp: m_def)
  let ?s = "s\<lparr>sh_len := int m, sh_free := int (l + f - m), sh_buf := (sh_buf s)[m := NUL]\<rparr>"
  have ints: "to_int32 (int l + i) = int m" "to_int32 (int f - i) = int (l + f - m)"
    using m s by (simp_all add: int_simps of_nat_diff)
  have "store m [NUL] (sh_buf s) = Some ((sh_buf s)[m := NUL])"
    using m s by (simp add: store_ok upd_conv_take_nth_drop)
  then have "sdsIncrLen s i = Some ?s"
    using s assms ints by (simp add: sdsIncrLen_def)
  moreover have "sds_wf ?s" using s m by (intro sds_wfI [of _ m "l + f - m"]) simp_all
  ultimately show ?thesis using s m by (intro exI [of _ ?s]) (simp add: sds_str_def m_def)
qed

section \<open>A string under any sequence of operations\<close>

text \<open>
  The operations of a program that owns a string, what each does to the byte string it denotes,
  and the bound on its size under which no length overflows.
\<close>

datatype sds_op = Catlen bytes | Cat bytes | Cpylen bytes | Cpy bytes | Clear | GrowZero nat |
  MakeRoomFor nat | RemoveFreeSpace | UpdateLen

primrec sds_run :: "mem_env \<Rightarrow> sds_op \<Rightarrow> sdshdr \<Rightarrow> sds option" where
  "sds_run E (Catlen t) s = sdscatlen E s t (length t)"
| "sds_run E (Cat t) s = sdscat E s t"
| "sds_run E (Cpylen t) s = sdscpylen E s t (length t)"
| "sds_run E (Cpy t) s = sdscpy E s t"
| "sds_run E Clear s = map_option Some (sdsclear s)"
| "sds_run E (GrowZero n) s = sdsgrowzero E s n"
| "sds_run E (MakeRoomFor n) s = sdsMakeRoomFor E s n"
| "sds_run E RemoveFreeSpace s = sdsRemoveFreeSpace E s"
| "sds_run E UpdateLen s = Some (Some (sdsupdatelen s))"

primrec str_run :: "sds_op \<Rightarrow> bytes \<Rightarrow> bytes" where
  "str_run (Catlen t) a = a @ t"
| "str_run (Cat t) a = a @ cstr t"
| "str_run (Cpylen t) a = t"
| "str_run (Cpy t) a = cstr t"
| "str_run Clear a = []"
| "str_run (GrowZero n) a = a @ replicate (n - length a) NUL"
| "str_run (MakeRoomFor n) a = a"
| "str_run RemoveFreeSpace a = a"
| "str_run UpdateLen a = cstr a"

primrec op_room :: "sds_op \<Rightarrow> nat" where
  "op_room (Catlen t) = length t"
| "op_room (Cat t) = length t"
| "op_room (Cpylen t) = length t"
| "op_room (Cpy t) = length t"
| "op_room Clear = 0"
| "op_room (GrowZero n) = n"
| "op_room (MakeRoomFor n) = n"
| "op_room RemoveFreeSpace = 0"
| "op_room UpdateLen = 0"

definition sds_cap :: nat where
  "sds_cap = 2 ^ 30"

definition op_fits :: "sds_op \<Rightarrow> bytes \<Rightarrow> bool" where
  "op_fits op a \<longleftrightarrow> length a + op_room op \<le> sds_cap"

lemma sds_run_refines:
  assumes "sds_wf s \<and> roomy E" and "op_fits op (sds_str s)"
  shows "\<exists>s'. sds_run E op s = Some (Some s') \<and> (sds_wf s' \<and> roomy E) \<and>
    sds_str s' = str_run op (sds_str s)"
proof -
  have wf: "sds_wf s" and ok: "roomy E" using assms by auto
  have small: "sdslen s + op_room op + SDS_MAX_PREALLOC < 2 ^ 31"
    using assms by (simp add: op_fits_def sds_cap_def SDS_MAX_PREALLOC_def sdslen_str)
  show ?thesis
  proof (cases op)
    case (Catlen t)
    with sdscatlen_spec [OF wf ok, of "length t" t] ok small show ?thesis by simp
  next
    case (Cat t)
    with sdscat_spec [OF wf ok, of t] strlen_le [of t] ok small show ?thesis by simp
  next
    case (Cpylen t)
    with sdscpylen_spec [OF wf ok, of "length t" t] ok small show ?thesis by simp
  next
    case (Cpy t)
    with sdscpy_spec [OF wf ok, of t] strlen_le [of t] ok small show ?thesis by simp
  next
    case Clear
    with sdsclear_spec [OF wf] ok show ?thesis by auto
  next
    case (GrowZero n)
    with sdsgrowzero_spec [OF wf ok, of n] ok small show ?thesis by simp
  next
    case (MakeRoomFor n)
    with sdsMakeRoomFor_spec [OF wf ok, of n] ok small show ?thesis by auto
  next
    case RemoveFreeSpace
    with sdsRemoveFreeSpace_spec [OF wf ok] ok show ?thesis by auto
  next
    case UpdateLen
    with sdsupdatelen_spec [OF wf] ok show ?thesis by simp
  qed
qed

interpretation sds_ops: refine_steps "\<lambda>s. sds_wf s \<and> roomy E" sds_str "sds_run E" str_run op_fits
  for E
  by unfold_locales (rule sds_run_refines)

text \<open>
  C17: Starting from a well-formed string, any sequence of appends, copies, clears, growths, room
  requests, shrinks and length updates whose sizes stay within 2^30 bytes, with an allocator that
  does not fail, never touches memory outside the block, keeps the header well-formed (length, free
  space and block size agree, NUL behind the string), and leaves exactly the bytes that the same
  sequence leaves on an abstract byte string.
\<close>

theorem sds_sequence_correct:
  assumes "sds_wf s" and "roomy E" and "all_pre op_fits str_run ops (sds_str s)"
  shows "\<exists>s'. run_steps (sds_run E) ops s = Some (Some s') \<and> sds_wf s' \<and>
    sds_str s' = fold str_run ops (sds_str s)"
  using sds_ops.run_refines [of s E ops] assms by auto

theorem sds_sequence_correct_witness:
  "\<exists>s'. run_steps (sds_run full_env) [Cat ''ab'', GrowZero 4, Clear, Cpylen ''xyz''] (mk_sds ''q'') =
     Some (Some s') \<and> sds_wf s' \<and> sds_str s' = ''xyz''"
  using sds_sequence_correct [of "mk_sds ''q''" full_env "[Cat ''ab'', GrowZero 4, Clear, Cpylen ''xyz'']"]
  by (simp add: op_fits_def sds_cap_def)

end
