(* ===== verification/Sds_Repr.thy ===== *)
theory Sds_Repr
  imports Sds
begin

text \<open>
  Formatted output into a string (\<open>sdscatvprintf\<close>), the quoted representation of a byte string
  (\<open>sdscatrepr\<close>) and the parser of quoted arguments (\<open>sdssplitargs\<close>), which reads it back.
\<close>

section \<open>Formatted output\<close>

text \<open>
  \<open>vsnprintf\<close> writes the formatted text \<open>f\<close>, cut to the size of the buffer, and a NUL. The
  loop of \<open>sdscatvprintf\<close> doubles the buffer until its last but one byte is still the NUL it put
  there. \<open>f\<close> is the whole output of the format, which may hold any byte.
\<close>

definition vsnprintf :: "bytes \<Rightarrow> bytes \<Rightarrow> bytes" where
  "vsnprintf b f = (let out = take (length b - 1) f @ [NUL] in out @ drop (length out) b)"

lemma length_vsnprintf [simp]: "b \<noteq> [] \<Longrightarrow> length (vsnprintf b f) = length b"
  by (cases b) (auto simp: vsnprintf_def min_def)

lemma vsnprintf_fits:
  assumes "length f + 2 \<le> length b" and "b ! (length b - 2) = NUL"
  shows "vsnprintf b f ! (length b - 2) = NUL"
proof -
  from assms(1) obtain k where k: "length b = Suc (Suc k)" "length f \<le> k"
    by (metis Suc_le_D add_2_eq_Suc' Suc_le_mono)
  with assms have "b ! k = NUL" by simp
  have "vsnprintf b f = f @ NUL # drop (Suc (length f)) b" using k by (simp add: vsnprintf_def)
  moreover have "(f @ NUL # drop (Suc (length f)) b) ! k = NUL"
    using k \<open>b ! k = NUL\<close> by (auto simp: nth_append nth_Cons' Suc_diff_le)
  ultimately show ?thesis using k by simp
qed

function fmt_loop :: "mem_env \<Rightarrow> bytes \<Rightarrow> nat \<Rightarrow> bytes option option" where
  "fmt_loop E f buflen =
     (if \<not> alloc_ok E buflen then Some None
      else if buflen < 2 then None
      else let b = vsnprintf ((fresh E buflen)[buflen - 2 := NUL]) f in
           if b ! (buflen - 2) \<noteq> NUL then fmt_loop E f (buflen * 2) else Some (Some b))"
  by pat_completeness auto
termination
proof (relation "measure (\<lambda>(E, f, n). length f + 2 - n)", goal_cases)
  case 1
  then show ?case by simp
next
  case (2 E f n b)
  then have "\<not> length f + 2 \<le> n"
    using vsnprintf_fits [of f "(fresh E n)[n - 2 := NUL]"] by auto
  with 2 show ?case by auto
qed

declare fmt_loop.simps [simp del]

definition sdscatvprintf :: "mem_env \<Rightarrow> sdshdr \<Rightarrow> bytes \<Rightarrow> sds option" where
  "sdscatvprintf E s f = do {
     r \<leftarrow> fmt_loop E f 16;
     case r of None \<Rightarrow> Some None | Some b \<Rightarrow> sdscat E s b
   }"

definition sdscatprintf :: "mem_env \<Rightarrow> sdshdr \<Rightarrow> bytes \<Rightarrow> sds option" where
  "sdscatprintf E s f = sdscatvprintf E s f"

section \<open>The quoted representation\<close>

abbreviation bslash :: char where "bslash \<equiv> CHR 0x5C"
abbreviation dquote :: char where "dquote \<equiv> CHR 0x22"
abbreviation squote :: char where "squote \<equiv> CHR 0x27"

text \<open>The classes of characters of the C locale.\<close>

definition isprint :: "char \<Rightarrow> bool" where
  "isprint c \<longleftrightarrow> (let n = of_char c :: nat in 32 \<le> n \<and> n \<le> 126)"

definition isspace :: "char \<Rightarrow> bool" where
  "isspace c \<longleftrightarrow> (let n = of_char c :: nat in n = 32 \<or> (9 \<le> n \<and> n \<le> 13))"

definition hex_char :: "nat \<Rightarrow> char" where
  "hex_char n = (if n < 10 then char_of (48 + n) else char_of (87 + n))"

definition catrepr_char :: "mem_env \<Rightarrow> char \<Rightarrow> sdshdr \<Rightarrow> sds option" where
  "catrepr_char E c s =
     (if c = bslash \<or> c = dquote then sdscatprintf E s [bslash, c]
      else if c = CHR 0x0A then sdscatlen E s [bslash, CHR ''n''] 2
      else if c = CHR 0x0D then sdscatlen E s [bslash, CHR ''r''] 2
      else if c = CHR 0x09 then sdscatlen E s [bslash, CHR ''t''] 2
      else if c = CHR 0x07 then sdscatlen E s [bslash, CHR ''a''] 2
      else if c = CHR 0x08 then sdscatlen E s [bslash, CHR ''b''] 2
      else if isprint c then sdscatprintf E s [c]
      else sdscatprintf E s [bslash, CHR ''x'', hex_char (of_char c div 16), hex_char (of_char c mod 16)])"

definition sdscatrepr :: "mem_env \<Rightarrow> sdshdr \<Rightarrow> bytes \<Rightarrow> nat \<Rightarrow> sds option" where
  "sdscatrepr E s p len = do {
     r \<leftarrow> sdscatlen E s [dquote] 1;
     s \<leftarrow> r;
     (src, _) \<leftarrow> peek len p;
     r \<leftarrow> run_steps (catrepr_char E) src s;
     s \<leftarrow> r;
     sdscatlen E s [dquote] 1
   }"

text \<open>What the representation of a character and of a string is.\<close>

definition repr_char :: "char \<Rightarrow> bytes" where
  "repr_char c =
     (if c = bslash \<or> c = dquote then [bslash, c]
      else if c = CHR 0x0A then [bslash, CHR ''n'']
      else if c = CHR 0x0D then [bslash, CHR ''r'']
      else if c = CHR 0x09 then [bslash, CHR ''t'']
      else if c = CHR 0x07 then [bslash, CHR ''a'']
      else if c = CHR 0x08 then [bslash, CHR ''b'']
      else if isprint c then [c]
      else [bslash, CHR ''x'', hex_char (of_char c div 16), hex_char (of_char c mod 16)])"

definition repr :: "bytes \<Rightarrow> bytes" where
  "repr s = dquote # concat (map repr_char s) @ [dquote]"

section \<open>Splitting a line into arguments\<close>

definition is_hex_digit :: "char \<Rightarrow> bool" where
  "is_hex_digit c \<longleftrightarrow> (let n = of_char c :: nat in
     (48 \<le> n \<and> n \<le> 57) \<or> (97 \<le> n \<and> n \<le> 102) \<or> (65 \<le> n \<and> n \<le> 70))"

definition hex_digit_to_int :: "char \<Rightarrow> nat" where
  "hex_digit_to_int c = (let n = of_char c :: nat in
     if 48 \<le> n \<and> n \<le> 57 then n - 48
     else if 97 \<le> n \<and> n \<le> 102 then n - 87
     else if 65 \<le> n \<and> n \<le> 70 then n - 55
     else 0)"

text \<open>
  \<open>p\<close> is the rest of the line up to its NUL, so \<open>*p == 0\<close> is the empty list. The inner loop of
  \<open>sdssplitargs\<close> reads one token; \<open>None\<close> is \<open>goto err\<close>.
\<close>

definition hex_escape :: "bytes \<Rightarrow> bool" where
  "hex_escape q = (case q of x # a # b # _ \<Rightarrow> x = CHR ''x'' \<and> is_hex_digit a \<and> is_hex_digit b | _ \<Rightarrow> False)"

definition hex_byte :: "bytes \<Rightarrow> char" where
  "hex_byte q = char_of (hex_digit_to_int (q ! 1) * 16 + hex_digit_to_int (q ! 2))"

definition unescape :: "char \<Rightarrow> char" where
  "unescape c =
     (if c = CHR ''n'' then CHR 0x0A else if c = CHR ''r'' then CHR 0x0D
      else if c = CHR ''t'' then CHR 0x09 else if c = CHR ''b'' then CHR 0x08
      else if c = CHR ''a'' then CHR 0x07 else c)"

fun get_token :: "bool \<Rightarrow> bool \<Rightarrow> bytes \<Rightarrow> bytes \<Rightarrow> (bytes \<times> bytes) option" where
  "get_token inq insq cur [] = (if inq \<or> insq then None else Some (cur, []))"
| "get_token inq insq cur (c # q) =
     (if inq then
        if c = bslash \<and> hex_escape q then get_token inq insq (cur @ [hex_byte q]) (drop 3 q)
        else if c = bslash \<and> q \<noteq> [] then get_token inq insq (cur @ [unescape (hd q)]) (tl q)
        else if c = dquote then (if q \<noteq> [] \<and> \<not> isspace (hd q) then None else Some (cur, q))
        else get_token inq insq (cur @ [c]) q
      else if insq then
        if c = bslash \<and> q \<noteq> [] \<and> hd q = squote then get_token inq insq (cur @ [squote]) (tl q)
        else if c = squote then (if q \<noteq> [] \<and> \<not> isspace (hd q) then None else Some (cur, q))
        else get_token inq insq (cur @ [c]) q
      else if c \<in> {CHR '' '', CHR 0x0A, CHR 0x0D, CHR 0x09} then Some (cur, q)
      else if c = dquote then get_token True insq cur q
      else if c = squote then get_token inq True cur q
      else get_token inq insq (cur @ [c]) q)"

lemma get_token_rest: "get_token inq insq cur p = Some (t, r) \<Longrightarrow> length r \<le> length p - 1"
  by (induction inq insq cur p arbitrary: t r rule: get_token.induct)
    (fastforce split: if_splits)+

function split_loop :: "bytes list \<Rightarrow> bytes \<Rightarrow> bytes list option" where
  "split_loop vector p =
     (let p = dropWhile isspace p in
      if p = [] then Some vector
      else case get_token False False [] p of
             None \<Rightarrow> None
           | Some (t, p) \<Rightarrow> split_loop (vector @ [t]) p)"
  by pat_completeness auto
termination
proof (relation "measure (\<lambda>(v, p). length p)", goal_cases)
  case 1
  then show ?case by simp
next
  case (2 v p q a t r)
  then have "length r \<le> length q - 1" and "q \<noteq> []"
    using get_token_rest [of False False "[]" q t r] by auto
  then have "length r < length q" by (cases q) auto
  also have "length q \<le> length p" using 2 by (simp add: length_dropWhile_le)
  finally show ?case by simp
qed

declare split_loop.simps [simp del]

definition sdssplitargs :: "bytes \<Rightarrow> bytes list option" where
  "sdssplitargs line = split_loop [] (cstr line)"

section \<open>Formatted output is appended whole\<close>

lemma cstr_take:
  assumes "NUL \<in> set (take k f) \<or> length f \<le> k"
  shows "cstr (take k f) = cstr f"
  using assms
proof (induction f arbitrary: k)
  case Nil
  then show ?case by simp
next
  case (Cons c f)
  then show ?case by (cases k) auto
qed

lemma cstr_vsnprintf:
  assumes "2 \<le> length b" and "vsnprintf b f ! (length b - 2) = NUL"
  shows "cstr (vsnprintf b f) = cstr f"
proof -
  let ?k = "length b - 1"
  have "NUL \<in> set (take ?k f) \<or> length f \<le> ?k"
  proof (cases "length f \<le> ?k")
    case False
    moreover have "length b - 2 < length b - 1" using assms(1) by simp
    ultimately have "take ?k f ! (length b - 2) = NUL"
      using assms(2) by (simp add: vsnprintf_def nth_append Let_def split: if_splits)
    moreover have "length b - 2 < length (take ?k f)" using False assms by simp
    ultimately show ?thesis by (metis nth_mem)
  qed simp
  then show ?thesis by (simp add: vsnprintf_def cstr_take)
qed

lemma fmt_loop_ok:
  assumes "roomy E" and "2 \<le> n"
  shows "\<exists>b. fmt_loop E f n = Some (Some b) \<and> cstr b = cstr f"
  using assms
proof (induction E f n rule: fmt_loop.induct)
  case (1 E f n)
  let ?b = "vsnprintf ((fresh E n)[n - 2 := NUL]) f"
  show ?case
  proof (cases "?b ! (n - 2) = NUL")
    case True
    with "1.prems" have "cstr ?b = cstr f" by (intro cstr_vsnprintf) simp_all
    with True "1.prems" show ?thesis by (simp add: fmt_loop.simps [of E f n])
  next
    case False
    with "1.IH" [of ?b] "1.prems" show ?thesis by (simp add: fmt_loop.simps [of E f n])
  qed
qed

lemma sdscatprintf_spec:
  assumes "sds_wf s" and "roomy E" and "sdslen s + strlen f + SDS_MAX_PREALLOC < 2 ^ 31"
  shows "\<exists>s'. sdscatprintf E s f = Some (Some s') \<and> sds_wf s' \<and> sds_str s' = sds_str s @ cstr f"
proof -
  from fmt_loop_ok [OF assms(2), of 16 f] obtain b where
    b: "fmt_loop E f 16 = Some (Some b)" "cstr b = cstr f" by auto
  then have "strlen b = strlen f" by (simp add: strlen_def)
  with sdscat_spec [OF assms(1,2), of b] assms(3) b show ?thesis
    by (simp add: sdscatprintf_def sdscatvprintf_def)
qed

section \<open>The representation as it is built\<close>

lemma of_char_hex_char:
  "n < 16 \<Longrightarrow> of_char (hex_char n) = (if n < 10 then 48 + n else 87 + n)"
  by (simp add: hex_char_def)

lemma hex_char_digit [simp]:
  assumes "n < 16"
  shows "is_hex_digit (hex_char n)" and "hex_digit_to_int (hex_char n) = n" and "hex_char n \<noteq> NUL"
proof -
  show "is_hex_digit (hex_char n)" and "hex_digit_to_int (hex_char n) = n"
    using assms by (auto simp: is_hex_digit_def hex_digit_to_int_def of_char_hex_char Let_def)
  show "hex_char n \<noteq> NUL"
  proof
    assume "hex_char n = NUL"
    then have "of_char (hex_char n) = (of_char NUL :: nat)" by simp
    with assms show False by (auto simp: of_char_hex_char split: if_splits)
  qed
qed

lemma of_char_nibbles [simp]: "of_char c div 16 < (16::nat)"
  using of_char_bound [of c] by (intro less_mult_imp_div_less) simp

lemma nul_free_repr_char [simp]: "nul_free (repr_char c)"
proof -
  have "c \<noteq> NUL" if "isprint c"
    using that by (auto simp: isprint_def)
  then show ?thesis by (simp add: repr_char_def)
qed

lemma length_repr_char: "length (repr_char c) \<le> 4"
  by (simp add: repr_char_def)

lemma catrepr_char_ok:
  assumes "sds_wf s \<and> roomy E" and "length (sds_str s) + length (repr_char c) \<le> sds_cap"
  shows "\<exists>s'. catrepr_char E c s = Some (Some s') \<and> (sds_wf s' \<and> roomy E) \<and>
    sds_str s' = sds_str s @ repr_char c"
proof -
  have small: "sdslen s + length (repr_char c) + SDS_MAX_PREALLOC < 2 ^ 31"
    using assms by (simp add: sdslen_str sds_cap_def SDS_MAX_PREALLOC_def)
  have fmt: "\<exists>s'. sdscatprintf E s (repr_char c) = Some (Some s') \<and> sds_wf s' \<and>
      sds_str s' = sds_str s @ repr_char c"
    using sdscatprintf_spec [of s E "repr_char c"] assms small by (simp add: strlen_def)
  have cat: "\<exists>s'. sdscatlen E s (repr_char c) (length (repr_char c)) = Some (Some s') \<and> sds_wf s' \<and>
      sds_str s' = sds_str s @ repr_char c"
    using sdscatlen_spec [of s E "length (repr_char c)" "repr_char c"] assms small by simp
  have "catrepr_char E c s = sdscatprintf E s (repr_char c) \<or>
      catrepr_char E c s = sdscatlen E s (repr_char c) (length (repr_char c))"
    by (simp add: catrepr_char_def repr_char_def numeral_2_eq_2)
  with fmt cat assms show ?thesis by auto
qed

interpretation repr_loop: append_steps "\<lambda>s. sds_wf s \<and> roomy E" sds_str "catrepr_char E" repr_char sds_cap
  for E
  by unfold_locales (rule catrepr_char_ok)

lemma sdscatrepr_spec:
  assumes wf: "sds_wf s" and ok: "roomy E" and n: "n \<le> length p"
    and small: "length (sds_str s) + length (repr (take n p)) \<le> sds_cap"
  shows "\<exists>s'. sdscatrepr E s p n = Some (Some s') \<and> sds_wf s' \<and> sds_str s' = sds_str s @ repr (take n p)"
proof -
  let ?body = "concat (map repr_char (take n p))"
  have cap: "sds_cap + SDS_MAX_PREALLOC < 2 ^ 31" by (simp add: sds_cap_def SDS_MAX_PREALLOC_def)
  obtain s1 where s1: "sdscatlen E s [dquote] 1 = Some (Some s1)" "sds_wf s1"
    "sds_str s1 = sds_str s @ [dquote]"
    using sdscatlen_spec [OF wf ok, of 1 "[dquote]"] small cap wf by (auto simp: sdslen_str repr_def)
  have "length (sds_str s1) + length ?body \<le> sds_cap" using s1 small by (simp add: repr_def)
  then obtain s2 where s2: "run_steps (catrepr_char E) (take n p) s1 = Some (Some s2)" "sds_wf s2"
    "sds_str s2 = sds_str s1 @ ?body"
    using repr_loop.run_ok [of s1 E "take n p"] s1 ok by auto
  obtain s3 where s3: "sdscatlen E s2 [dquote] 1 = Some (Some s3)" "sds_wf s3"
    "sds_str s3 = sds_str s2 @ [dquote]"
    using sdscatlen_spec [OF s2(2) ok, of 1 "[dquote]"] small cap s1 s2 by (auto simp: sdslen_str repr_def)
  from s1 s2 s3 n show ?thesis
    by (intro exI [of _ s3]) (simp add: sdscatrepr_def mem_simps repr_def)
qed

section \<open>The parser reads the representation back\<close>

lemma hex_byte_repr [simp]:
  "hex_byte (CHR ''x'' # hex_char (of_char c div 16) # hex_char (of_char c mod 16) # r) = c"
  by (simp add: hex_byte_def)

lemma hex_escape_simps [simp]:
  "x \<noteq> CHR ''x'' \<Longrightarrow> \<not> hex_escape (x # q)"
  "hex_escape (CHR ''x'' # a # b # r) \<longleftrightarrow> is_hex_digit a \<and> is_hex_digit b"
  by (auto simp: hex_escape_def split: list.splits)

lemma get_token_repr_char:
  "get_token True False cur (repr_char c @ r) = get_token True False (cur @ [c]) r"
  by (simp add: repr_char_def unescape_def)

lemma get_token_repr_body:
  assumes "r = [] \<or> isspace (hd r)"
  shows "get_token True False cur (concat (map repr_char s) @ dquote # r) = Some (cur @ s, r)"
proof (induction s arbitrary: cur)
  case Nil
  with assms show ?case by auto
next
  case (Cons c s)
  then show ?case by (simp add: get_token_repr_char)
qed

lemma get_token_repr: "get_token False False [] (repr s) = Some (s, [])"
  using get_token_repr_body [of "[]" "[]" s] by (simp add: repr_def)

lemma nul_free_repr [simp]: "nul_free (repr s)"
proof -
  have "nul_free (concat (map repr_char s))" by (induction s) auto
  then show ?thesis by (simp add: repr_def)
qed

lemma sdssplitargs_repr: "sdssplitargs (repr s) = Some [s]"
proof -
  have "dropWhile isspace (repr s) = repr s" by (simp add: repr_def isspace_def)
  moreover have "repr s \<noteq> []" by (simp add: repr_def)
  ultimately have "split_loop [] (repr s) = split_loop [s] []"
    by (simp add: split_loop.simps [of "[]" "repr s"] get_token_repr)
  also have "\<dots> = Some [s]" by (simp add: split_loop.simps)
  finally show ?thesis by (simp add: sdssplitargs_def)
qed

lemma length_repr: "length (repr s) \<le> 4 * length s + 2"
proof (induction s)
  case Nil
  then show ?case by (simp add: repr_def)
next
  case (Cons c s)
  with length_repr_char [of c] show ?case by (simp add: repr_def)
qed

text \<open>
  C22: Appending the quoted representation of any \<open>n\<close> bytes to a well-formed string succeeds, keeps
  the string well-formed, keeps what was there, and adds text from which \<open>sdssplitargs\<close> reads back
  exactly those bytes as a single argument, whatever bytes they are.
\<close>

theorem sdscatrepr_reads_back:
  assumes "sds_wf s" and "roomy E" and "n \<le> length p"
    and "length (sds_str s) + 4 * n + 2 \<le> sds_cap"
  shows "\<exists>s' q. sdscatrepr E s p n = Some (Some s') \<and> sds_wf s' \<and> sds_str s' = sds_str s @ q \<and>
    sdssplitargs q = Some [take n p]"
proof -
  have "length (sds_str s) + length (repr (take n p)) \<le> sds_cap"
    using assms length_repr [of "take n p"] by simp
  from sdscatrepr_spec [OF assms(1-3) this] show ?thesis using sdssplitargs_repr by blast
qed

theorem sdscatrepr_reads_back_witness:
  "\<exists>s' q. sdscatrepr full_env (mk_sds ''k='') [CHR ''a'', dquote, NUL, CHR 0x0A, bslash] 5 = Some (Some s') \<and>
     sds_wf s' \<and> sds_str s' = ''k='' @ q \<and>
     sdssplitargs q = Some [[CHR ''a'', dquote, NUL, CHR 0x0A, bslash]]"
  using sdscatrepr_reads_back [of "mk_sds ''k=''" full_env 5 "[CHR ''a'', dquote, NUL, CHR 0x0A, bslash]"]
  by (simp add: sds_cap_def)

text \<open>
  C23: \<open>sdscatprintf\<close> ends for every formatted text: the loop that doubles its buffer stops, and the
  text is appended whole up to its first NUL byte, with no limit from the size of the first buffer.
\<close>

theorem sdscatprintf_appends:
  assumes "sds_wf s" and "roomy E" and "length (sds_str s) + length f \<le> sds_cap"
  shows "\<exists>s'. sdscatprintf E s f = Some (Some s') \<and> sds_wf s' \<and> sds_str s' = sds_str s @ cstr f"
  using sdscatprintf_spec [of s E f] assms strlen_le [of f]
  by (simp add: sdslen_str sds_cap_def SDS_MAX_PREALLOC_def)

theorem sdscatprintf_appends_witness:
  "\<exists>s'. sdscatprintf full_env (mk_sds ''> '') ''a text that is longer than the first buffer'' = Some (Some s') \<and>
     sds_wf s' \<and> sds_str s' = ''> a text that is longer than the first buffer''"
  using sdscatprintf_appends [of "mk_sds ''> ''" full_env "''a text that is longer than the first buffer''"]
  by (simp add: sds_cap_def)

end
