(* ===== verification/Wire.thy ===== *)
theory Wire
  imports Sds
begin

text \<open>
  The wire format: the macros \<open>PACK\<close>, \<open>UNPACK\<close>, \<open>LEN_STR_EX\<close>, \<open>PACK_STR_EX\<close> and
  \<open>UNPACK_SDS\<close> of \<open>common/trace_type.h\<close>, loops over arrays, and the contract of a wire type as
  a locale. Every packed structure of the program is an instance of it.
\<close>

section \<open>The macros\<close>

definition PACK :: "'a::len word \<Rightarrow> cursor \<Rightarrow> cursor option" where
  "PACK ele c = poke (le_bytes (LENGTH('a) div 8) (unat ele)) c"

definition UNPACK :: "bytes \<Rightarrow> ('a::len word \<times> bytes) option" where
  "UNPACK b = do {
     (bs, b) \<leftarrow> peek (LENGTH('a) div 8) b;
     Some (word_of_nat (le_value bs), b)
   }"

definition LEN_STR_EX :: "'s option \<Rightarrow> ('s \<Rightarrow> nat) \<Rightarrow> nat" where
  "LEN_STR_EX s lenfunc = 4 + (case s of None \<Rightarrow> 0 | Some s \<Rightarrow> lenfunc s)"

text \<open>\<open>mem\<close> gives the bytes a string pointer points to.\<close>

definition PACK_STR_EX :: "('s \<Rightarrow> nat) \<Rightarrow> ('s \<Rightarrow> bytes) \<Rightarrow> 's option \<Rightarrow> cursor \<Rightarrow> cursor option" where
  "PACK_STR_EX lenfunc mem ele c =
     (case ele of
        None \<Rightarrow> PACK (0 :: u32) c
      | Some s \<Rightarrow> do {
          c \<leftarrow> PACK (word_of_nat (lenfunc s) :: u32) c;
          (src, _) \<leftarrow> peek (lenfunc s) (mem s);
          poke src c
        })"

definition LEN_SDS :: "sds \<Rightarrow> nat" where
  "LEN_SDS s = LEN_STR_EX s sdslen"

definition PACK_SDS :: "sds \<Rightarrow> cursor \<Rightarrow> cursor option" where
  "PACK_SDS = PACK_STR_EX sdslen sh_buf"

definition LEN_STR :: "bytes option \<Rightarrow> nat" where
  "LEN_STR s = LEN_STR_EX s strlen"

definition PACK_STR :: "bytes option \<Rightarrow> cursor \<Rightarrow> cursor option" where
  "PACK_STR = PACK_STR_EX strlen (\<lambda>s. s)"

definition UNPACK_SDS :: "mem_env \<Rightarrow> bytes \<Rightarrow> (sds \<times> bytes) option" where
  "UNPACK_SDS E b = do {
     (len :: u32, b) \<leftarrow> UNPACK b;
     if len \<noteq> 0 then do {
       ele \<leftarrow> sdsnewlen E (Some b) (unat len);
       (_, b) \<leftarrow> peek (unat len) b;
       Some (ele, b)
     } else Some (None, b)
   }"

text \<open>
  The loops \<open>for (i = 0; i < n; i++)\<close> over the elements of an array: computing the size, packing
  and unpacking. An index outside the array is undefined.
\<close>

fun len_array :: "('a \<Rightarrow> nat option) \<Rightarrow> nat \<Rightarrow> 'a list \<Rightarrow> nat option" where
  "len_array sz 0 xs = Some 0"
| "len_array sz (Suc n) [] = None"
| "len_array sz (Suc n) (x # xs) = do { k \<leftarrow> sz x; m \<leftarrow> len_array sz n xs; Some (k + m) }"

fun pack_array :: "('a \<Rightarrow> cursor \<Rightarrow> cursor option) \<Rightarrow> nat \<Rightarrow> 'a list \<Rightarrow> cursor \<Rightarrow> cursor option" where
  "pack_array pk 0 xs c = Some c"
| "pack_array pk (Suc n) [] c = None"
| "pack_array pk (Suc n) (x # xs) c = do { c \<leftarrow> pk x c; pack_array pk n xs c }"

fun unpack_array :: "(bytes \<Rightarrow> ('b \<times> bytes) option) \<Rightarrow> nat \<Rightarrow> bytes \<Rightarrow> ('b list \<times> bytes) option" where
  "unpack_array dec 0 b = Some ([], b)"
| "unpack_array dec (Suc n) b = do { (x, b) \<leftarrow> dec b; (xs, b) \<leftarrow> unpack_array dec n b; Some (x # xs, b) }"

text \<open>A pointer to an array: \<open>NULL\<close> has no elements.\<close>

definition arr :: "'a list option \<Rightarrow> 'a list" where
  "arr p = (case p of None \<Rightarrow> [] | Some xs \<Rightarrow> xs)"

section \<open>Readers that look only at what they consume\<close>

definition extensible :: "(bytes \<Rightarrow> ('b \<times> bytes) option) \<Rightarrow> bool" where
  "extensible dec \<longleftrightarrow> (\<forall>b y r s. dec b = Some (y, r) \<longrightarrow> dec (b @ s) = Some (y, r @ s))"

named_theorems ext_intros \<open>how readers compose\<close>

lemma extensibleD: "extensible dec \<Longrightarrow> dec b = Some (y, r) \<Longrightarrow> dec (b @ s) = Some (y, r @ s)"
  by (simp add: extensible_def)

lemma extensible_return [ext_intros]: "extensible (\<lambda>b. Some (y, b))"
  by (simp add: extensible_def)

lemma extensible_bind [ext_intros]:
  "extensible dec \<Longrightarrow> (\<And>x. extensible (k x)) \<Longrightarrow> extensible (\<lambda>b. Option.bind (dec b) (\<lambda>(x, b). k x b))"
  by (fastforce simp: extensible_def bind_eq_Some_conv)

lemma extensible_const_bind [ext_intros]:
  "(\<And>x. extensible (k x)) \<Longrightarrow> extensible (\<lambda>b. Option.bind m (\<lambda>x. k x b))"
  by (cases m) (auto simp: extensible_def)

lemma extensible_if [ext_intros]:
  "extensible d1 \<Longrightarrow> extensible d2 \<Longrightarrow> extensible (\<lambda>b. if c then d1 b else d2 b)"
  by (simp add: extensible_def)

lemma extensible_peek [ext_intros]: "extensible (peek n)"
  by (auto simp: extensible_def peek_extend)

lemma extensible_unpack_array [ext_intros]:
  assumes "extensible dec"
  shows "extensible (unpack_array dec n)"
proof (induction n)
  case 0
  then show ?case by (simp add: extensible_def)
next
  case (Suc n)
  have "extensible (\<lambda>b. Option.bind (dec b) (\<lambda>(x, b). Option.bind (unpack_array dec n b)
      (\<lambda>(xs, b). Some (x # xs, b))))"
    by (intro ext_intros assms Suc)
  then show ?case by (simp add: fun_eq_iff)
qed

section \<open>The contract of a wire type\<close>

text \<open>
  \<open>enc\<close> is the abstract encoding. A packer writes exactly it at the cursor, the length function
  gives its size, and the unpacker reads it back, whatever follows, and never looks at what
  follows. \<open>img x\<close> is what the receiver gets for \<open>x\<close>.
\<close>

locale wire_type =
  fixes pk :: "'a \<Rightarrow> cursor \<Rightarrow> cursor option"
    and sz :: "'a \<Rightarrow> nat option"
    and enc :: "'a \<Rightarrow> bytes"
    and dec :: "bytes \<Rightarrow> ('b \<times> bytes) option"
    and wf :: "'a \<Rightarrow> bool"
    and img :: "'a \<Rightarrow> 'b"
  assumes pk_enc: "wf x \<Longrightarrow> pk x c = poke (enc x) c"
    and sz_enc: "wf x \<Longrightarrow> sz x = Some (length (enc x))"
    and dec_enc: "wf x \<Longrightarrow> dec (enc x @ r) = Some (img x, r)"
    and dec_extensible: "extensible dec"
begin

lemma pack_room:
  assumes "wf x" and "sz x = Some n" and "p + n \<le> length b"
  shows "\<exists>b'. pk x (b, p) = Some (b', p + n) \<and> length b' = length b \<and> take p b' = take p b \<and>
    drop (p + n) b' = drop (p + n) b \<and> dec (drop p b') = Some (img x, drop (p + n) b)"
proof -
  have n: "n = length (enc x)" using assms sz_enc [of x] by simp
  let ?b = "take p b @ enc x @ drop (p + n) b"
  have "pk x (b, p) = Some (?b, p + n)"
    using assms(1,3) by (simp add: pk_enc n poke_room)
  moreover have "drop p ?b = enc x @ drop (p + n) b" using assms(3) by simp
  then have "dec (drop p ?b) = Some (img x, drop (p + n) b)"
    using dec_enc [OF assms(1)] by simp
  ultimately show ?thesis using assms(3) n by auto
qed

lemma pack_no_room:
  assumes "wf x" and "sz x = Some n" and "0 < n" and "length b < p + n"
  shows "pk x (b, p) = None"
  using assms sz_enc [OF assms(1)] by (auto simp: pk_enc poke_overflow)

text \<open>Every proper prefix of an encoding is read past its end.\<close>

lemma dec_truncated:
  assumes "wf x" and "sz x = Some n" and "k < n"
  shows "dec (take k (enc x)) = None"
proof (rule ccontr)
  assume "dec (take k (enc x)) \<noteq> None"
  then obtain y r where "dec (take k (enc x)) = Some (y, r)" by auto
  from extensibleD [OF dec_extensible this, of "drop k (enc x)"] have "dec (enc x) = Some (y, r @ drop k (enc x))"
    by simp
  moreover have "dec (enc x) = Some (img x, [])" using dec_enc [OF assms(1), of "[]"] by simp
  ultimately show False using assms sz_enc [of x] by simp
qed

lemma array_pk: "list_all wf xs \<Longrightarrow> pack_array pk (length xs) xs = poke (concat (map enc xs))"
proof (induction xs)
  case Nil
  then show ?case by (intro ext) simp
next
  case (Cons x xs)
  then show ?case by (intro ext) (simp add: pk_enc mem_simps)
qed

lemma array_sz: "list_all wf xs \<Longrightarrow> len_array sz (length xs) xs = Some (length (concat (map enc xs)))"
  by (induction xs) (auto simp: sz_enc)

lemma array_dec:
  "list_all wf xs \<Longrightarrow> unpack_array dec (length xs) (concat (map enc xs) @ r) = Some (map img xs, r)"
  by (induction xs) (auto simp: dec_enc)

end

section \<open>The basic types keep the contract\<close>

lemma le_bytes_unat:
  fixes w :: "'a::len word"
  assumes "LENGTH('a) = 8 * k"
  shows "word_of_nat (le_value (le_bytes k (unat w))) = w"
proof -
  have "unat w < 2 ^ LENGTH('a)" by (rule unsigned_less)
  also have "(2::nat) ^ LENGTH('a) = 256 ^ k" using assms by (simp add: power_mult)
  finally show ?thesis by simp
qed

lemma UNPACK_int:
  fixes w :: "'a::len word"
  assumes "LENGTH('a) = 8 * (LENGTH('a) div 8)"
  shows "UNPACK (le_bytes (LENGTH('a) div 8) (unat w) @ r) = Some (w, r)"
  using le_bytes_unat [OF assms, of w] by (simp add: UNPACK_def)

lemma extensible_UNPACK [ext_intros]: "extensible UNPACK"
  unfolding UNPACK_def [abs_def] by (intro ext_intros)

definition enc_int :: "'a::len word \<Rightarrow> bytes" where
  "enc_int w = le_bytes (LENGTH('a) div 8) (unat w)"

lemma PACK_enc [mem_simps]: "PACK w c = poke (enc_int w) c"
  by (simp add: PACK_def enc_int_def)

lemma length_enc_int [simp]: "length (enc_int (w :: 'a::len word)) = LENGTH('a) div 8"
  by (simp add: enc_int_def)

lemma UNPACK_enc [mem_simps, simp]:
  "UNPACK (enc_int (a :: u8) @ r) = Some (a, r)"
  "UNPACK (enc_int (b :: u32) @ r) = Some (b, r)"
  "UNPACK (enc_int (c :: u64) @ r) = Some (c, r)"
  unfolding enc_int_def by (rule UNPACK_int; simp)+

text \<open>Strings: a 32-bit length and the bytes.\<close>

definition enc_str :: "bytes option \<Rightarrow> bytes" where
  "enc_str s = (case s of None \<Rightarrow> enc_int (0 :: u32)
     | Some bs \<Rightarrow> enc_int (word_of_nat (length bs) :: u32) @ bs)"

definition img_str :: "bytes option \<Rightarrow> sds" where
  "img_str s = (case s of None \<Rightarrow> None | Some bs \<Rightarrow> if bs = [] then None else Some (mk_sds bs))"

definition short :: "bytes option \<Rightarrow> bool" where
  "short s \<longleftrightarrow> (case s of None \<Rightarrow> True | Some bs \<Rightarrow> length bs < 2 ^ 31)"

definition sds_ok :: "sds \<Rightarrow> bool" where
  "sds_ok s = (case s of None \<Rightarrow> True | Some s \<Rightarrow> sds_wf s)"

definition str_ok :: "bytes option \<Rightarrow> bool" where
  "str_ok s = short (map_option cstr s)"

text \<open>What the receiver gets for an \<open>sds\<close> and for a C string.\<close>

definition img_sds :: "sds \<Rightarrow> sds" where
  "img_sds s = img_str (map_option sds_str s)"

definition img_cstr :: "bytes option \<Rightarrow> sds" where
  "img_cstr s = img_str (map_option cstr s)"

lemma length_enc_str: "length (enc_str s) = 4 + (case s of None \<Rightarrow> 0 | Some bs \<Rightarrow> length bs)"
  by (simp add: enc_str_def split: option.split)

lemma UNPACK_SDS_enc:
  assumes "roomy E" and "short s"
  shows "UNPACK_SDS E (enc_str s @ r) = Some (img_str s, r)"
proof (cases s)
  case None
  then show ?thesis by (simp add: UNPACK_SDS_def enc_str_def img_str_def)
next
  case (Some bs)
  then have "length bs < 2 ^ 31" using assms by (simp add: short_def)
  moreover from this have "unat (word_of_nat (length bs) :: u32) = length bs"
    by (simp add: unat_of_nat)
  moreover from this have "(word_of_nat (length bs) :: u32) = 0 \<longleftrightarrow> bs = []"
    by (simp flip: unat_eq_0)
  moreover have "sdsnewlen E (Some (bs @ r)) (length bs) = Some (Some (mk_sds bs))"
    using assms calculation(1) by (simp add: sdsnewlen_bytes)
  ultimately show ?thesis
    using Some by (simp add: UNPACK_SDS_def enc_str_def img_str_def del: word_of_nat_eq_0_iff)
qed

lemma sdsnewlen_extend:
  assumes "n \<le> length b"
  shows "sdsnewlen E (Some (b @ s)) n = sdsnewlen E (Some b) n"
  using assms by (simp add: sdsnewlen_def peek_def Let_def)

lemma extensible_UNPACK_SDS [ext_intros]: "extensible (UNPACK_SDS E)"
proof -
  have "extensible (\<lambda>b. Option.bind (sdsnewlen E (Some b) n) (\<lambda>ele. Option.bind (peek n b)
      (\<lambda>(_, b). Some (ele, b))))" for n
    by (auto simp: extensible_def bind_eq_Some_conv sdsnewlen_extend peek_def split: if_splits)
  then show ?thesis
    unfolding UNPACK_SDS_def [abs_def] by (intro ext_intros)
qed

interpretation sds_wire: wire_type PACK_SDS "\<lambda>s. Some (LEN_SDS s)" "\<lambda>s. enc_str (map_option sds_str s)"
  "UNPACK_SDS E" "\<lambda>s. sds_ok s \<and> roomy E" img_sds for E
proof unfold_locales
  fix s :: sds and c
  assume wf: "sds_ok s \<and> roomy E"
  show "PACK_SDS s c = poke (enc_str (map_option sds_str s)) c"
    using wf by (cases s)
      (auto simp: PACK_SDS_def PACK_STR_EX_def enc_str_def mem_simps sds_ok_def sds_bytes)
  show "Some (LEN_SDS s) = Some (length (enc_str (map_option sds_str s)))"
    using wf by (cases s)
      (auto simp: LEN_SDS_def LEN_STR_EX_def length_enc_str sds_ok_def sdslen_str)
  fix r
  have "short (map_option sds_str s)"
    using wf by (cases s) (auto simp: short_def sds_ok_def dest: sds_bytes(3))
  with wf show "UNPACK_SDS E (enc_str (map_option sds_str s) @ r) = Some (img_sds s, r)"
    by (simp add: UNPACK_SDS_enc img_sds_def)
qed (rule extensible_UNPACK_SDS)

interpretation str_wire: wire_type PACK_STR "\<lambda>s. Some (LEN_STR s)" "\<lambda>s. enc_str (map_option cstr s)"
  "UNPACK_SDS E" "\<lambda>s. str_ok s \<and> roomy E" img_cstr for E
proof unfold_locales
  fix s :: "bytes option" and c
  show "PACK_STR s c = poke (enc_str (map_option cstr s)) c"
    by (cases s) (auto simp: PACK_STR_def PACK_STR_EX_def enc_str_def mem_simps strlen_le
        simp flip: strlen_def)
  show "Some (LEN_STR s) = Some (length (enc_str (map_option cstr s)))"
    by (cases s) (auto simp: LEN_STR_def LEN_STR_EX_def length_enc_str strlen_def)
qed (auto simp: str_ok_def img_cstr_def intro: UNPACK_SDS_enc extensible_UNPACK_SDS)

end
