(* ===== verification/Trace_Type.thy ===== *)
theory Trace_Type
  imports Wire
begin

text \<open>
  The three structures that travel between the traced process and the command line tool
  (\<open>common/trace_type.h\<close>, \<open>common/trace_type.c\<close>): a call frame, a request and a status, with
  the functions that compute their packed size, pack them and unpack them.

  The packing functions return the cursor after the last byte; the number of bytes the C functions
  return is its distance to the cursor they were given.
\<close>

section \<open>The structures\<close>

definition PT_FRAME_ENTRY :: u8 where "PT_FRAME_ENTRY = 1"
definition PT_FRAME_EXIT :: u8 where "PT_FRAME_EXIT = 2"
definition PT_FRAME_STACK :: u8 where "PT_FRAME_STACK = 3"

record pt_frame_t =
  fr_type :: u8
  fr_functype :: u8
  fr_lineno :: u32
  fr_filename :: sds
  fr_class :: sds
  fr_function :: sds
  fr_level :: u32
  fr_arg_count :: u32
  fr_args :: "sds list option"
  fr_retval :: sds
  fr_inc_time :: u64
  fr_exc_time :: u64

text \<open>
  The string fields of a request are declared \<open>sds\<close> but hold plain C strings in the traced
  process (\<open>request_build\<close>), and real \<open>sds\<close> strings after \<open>pt_type_unpack_request\<close>: the type of
  the strings is a parameter. \<open>rq_argc\<close> is an \<open>int\<close>, read with \<open>sint\<close>.
\<close>

record 's pt_request_t =
  rq_type :: u8
  rq_sapi :: "'s option"
  rq_script :: "'s option"
  rq_time :: u64
  rq_method :: "'s option"
  rq_uri :: "'s option"
  rq_argc :: u32
  rq_argv :: "'s option list option"

record 's pt_status_t =
  st_php_version :: sds
  st_mem :: u64
  st_mempeak :: u64
  st_mem_real :: u64
  st_mempeak_real :: u64
  st_request :: "'s pt_request_t"
  st_frame_count :: u32
  st_frames :: "pt_frame_t list option"

section \<open>Frames\<close>

definition pt_type_len_frame :: "pt_frame_t \<Rightarrow> nat option" where
  "pt_type_len_frame f = do {
     args \<leftarrow> len_array (\<lambda>s. Some (LEN_SDS s)) (unat (fr_arg_count f)) (arr (fr_args f));
     Some (1 + 1 + 4 + LEN_SDS (fr_filename f) + LEN_SDS (fr_class f) + LEN_SDS (fr_function f) +
           4 + 4 + args + LEN_SDS (fr_retval f) + 8 + 8)
   }"

definition pt_type_pack_frame :: "pt_frame_t \<Rightarrow> cursor \<Rightarrow> cursor option" where
  "pt_type_pack_frame f buf = do {
     buf \<leftarrow> PACK (fr_type f) buf;
     buf \<leftarrow> PACK (fr_functype f) buf;
     buf \<leftarrow> PACK (fr_lineno f) buf;
     buf \<leftarrow> PACK_SDS (fr_filename f) buf;
     buf \<leftarrow> PACK_SDS (fr_class f) buf;
     buf \<leftarrow> PACK_SDS (fr_function f) buf;
     buf \<leftarrow> PACK (fr_level f) buf;
     buf \<leftarrow> PACK (fr_arg_count f) buf;
     buf \<leftarrow> pack_array PACK_SDS (unat (fr_arg_count f)) (arr (fr_args f)) buf;
     buf \<leftarrow> PACK_SDS (fr_retval f) buf;
     buf \<leftarrow> PACK (fr_inc_time f) buf;
     PACK (fr_exc_time f) buf
   }"

text \<open>
  \<open>calloc\<close> of an array of \<open>n\<close> elements; the loop that follows fills it through the pointer, so a
  failed allocation is undefined as soon as there is an element.
\<close>

definition calloc_array :: "mem_env \<Rightarrow> nat \<Rightarrow> nat \<Rightarrow> 'a list \<Rightarrow> 'a list option option" where
  "calloc_array E n esize xs =
     (if n = 0 then Some None else if alloc_ok E (n * esize) then Some (Some xs) else None)"

definition pt_type_unpack_frame :: "mem_env \<Rightarrow> bytes \<Rightarrow> (pt_frame_t \<times> bytes) option" where
  "pt_type_unpack_frame E buf = do {
     (type, buf) \<leftarrow> UNPACK buf;
     (functype, buf) \<leftarrow> UNPACK buf;
     (lineno, buf) \<leftarrow> UNPACK buf;
     (filename, buf) \<leftarrow> UNPACK_SDS E buf;
     (cls, buf) \<leftarrow> UNPACK_SDS E buf;
     (func, buf) \<leftarrow> UNPACK_SDS E buf;
     (level, buf) \<leftarrow> UNPACK buf;
     (arg_count, buf) \<leftarrow> UNPACK buf;
     (xs, buf) \<leftarrow> unpack_array (UNPACK_SDS E) (unat arg_count) buf;
     args \<leftarrow> calloc_array E (unat arg_count) 8 xs;
     (retval, buf) \<leftarrow> UNPACK_SDS E buf;
     (inc_time, buf) \<leftarrow> UNPACK buf;
     (exc_time, buf) \<leftarrow> UNPACK buf;
     Some (\<lparr>fr_type = type, fr_functype = functype, fr_lineno = lineno, fr_filename = filename,
            fr_class = cls, fr_function = func, fr_level = level, fr_arg_count = arg_count,
            fr_args = args, fr_retval = retval, fr_inc_time = inc_time, fr_exc_time = exc_time\<rparr>, buf)
   }"

section \<open>Requests\<close>

definition pt_type_len_request :: "bytes pt_request_t \<Rightarrow> nat option" where
  "pt_type_len_request r = do {
     argv \<leftarrow> len_array (\<lambda>s. Some (LEN_STR s)) (nat (sint (rq_argc r))) (arr (rq_argv r));
     Some (1 + LEN_STR (rq_sapi r) + LEN_STR (rq_script r) + 8 + LEN_STR (rq_method r) +
           LEN_STR (rq_uri r) + 4 + argv)
   }"

definition pt_type_pack_request :: "bytes pt_request_t \<Rightarrow> cursor \<Rightarrow> cursor option" where
  "pt_type_pack_request r buf = do {
     buf \<leftarrow> PACK (rq_type r) buf;
     buf \<leftarrow> PACK_STR (rq_sapi r) buf;
     buf \<leftarrow> PACK_STR (rq_script r) buf;
     buf \<leftarrow> PACK (rq_time r) buf;
     buf \<leftarrow> PACK_STR (rq_method r) buf;
     buf \<leftarrow> PACK_STR (rq_uri r) buf;
     buf \<leftarrow> PACK (rq_argc r) buf;
     pack_array PACK_STR (nat (sint (rq_argc r))) (arr (rq_argv r)) buf
   }"

definition pt_type_unpack_request :: "mem_env \<Rightarrow> bytes \<Rightarrow> (sdshdr pt_request_t \<times> bytes) option" where
  "pt_type_unpack_request E buf = do {
     (type, buf) \<leftarrow> UNPACK buf;
     (sapi, buf) \<leftarrow> UNPACK_SDS E buf;
     (script, buf) \<leftarrow> UNPACK_SDS E buf;
     (time, buf) \<leftarrow> UNPACK buf;
     (method, buf) \<leftarrow> UNPACK_SDS E buf;
     (uri, buf) \<leftarrow> UNPACK_SDS E buf;
     (argc, buf) \<leftarrow> UNPACK buf;
     (xs, buf) \<leftarrow> unpack_array (UNPACK_SDS E) (nat (sint argc)) buf;
     argv \<leftarrow> calloc_array E (nat (sint argc)) 8 xs;
     Some (\<lparr>rq_type = type, rq_sapi = sapi, rq_script = script, rq_time = time,
            rq_method = method, rq_uri = uri, rq_argc = argc, rq_argv = argv\<rparr>, buf)
   }"

section \<open>Status\<close>

text \<open>\<open>php_version\<close> is an \<open>sds\<close> that is packed as a C string.\<close>

definition pt_type_len_status :: "bytes pt_status_t \<Rightarrow> nat option" where
  "pt_type_len_status s = do {
     request \<leftarrow> pt_type_len_request (st_request s);
     frames \<leftarrow> len_array pt_type_len_frame (unat (st_frame_count s)) (arr (st_frames s));
     Some (LEN_STR (map_option sh_buf (st_php_version s)) + 8 + 8 + 8 + 8 + request + 4 + frames)
   }"

definition pt_type_pack_status :: "bytes pt_status_t \<Rightarrow> cursor \<Rightarrow> cursor option" where
  "pt_type_pack_status s buf = do {
     buf \<leftarrow> PACK_STR (map_option sh_buf (st_php_version s)) buf;
     buf \<leftarrow> PACK (st_mem s) buf;
     buf \<leftarrow> PACK (st_mempeak s) buf;
     buf \<leftarrow> PACK (st_mem_real s) buf;
     buf \<leftarrow> PACK (st_mempeak_real s) buf;
     buf \<leftarrow> pt_type_pack_request (st_request s) buf;
     buf \<leftarrow> PACK (st_frame_count s) buf;
     pack_array pt_type_pack_frame (unat (st_frame_count s)) (arr (st_frames s)) buf
   }"

definition sizeof_pt_frame_t :: nat where
  "sizeof_pt_frame_t = 72"

definition pt_type_unpack_status :: "mem_env \<Rightarrow> bytes \<Rightarrow> (sdshdr pt_status_t \<times> bytes) option" where
  "pt_type_unpack_status E buf = do {
     (php_version, buf) \<leftarrow> UNPACK_SDS E buf;
     (mem, buf) \<leftarrow> UNPACK buf;
     (mempeak, buf) \<leftarrow> UNPACK buf;
     (mem_real, buf) \<leftarrow> UNPACK buf;
     (mempeak_real, buf) \<leftarrow> UNPACK buf;
     (request, buf) \<leftarrow> pt_type_unpack_request E buf;
     (frame_count, buf) \<leftarrow> UNPACK buf;
     (xs, buf) \<leftarrow> unpack_array (pt_type_unpack_frame E) (unat frame_count) buf;
     frames \<leftarrow> calloc_array E (unat frame_count) sizeof_pt_frame_t xs;
     Some (\<lparr>st_php_version = php_version, st_mem = mem, st_mempeak = mempeak,
            st_mem_real = mem_real, st_mempeak_real = mempeak_real, st_request = request,
            st_frame_count = frame_count, st_frames = frames\<rparr>, buf)
   }"

section \<open>The encodings and what the receiver gets\<close>

definition args_ok :: "nat \<Rightarrow> 'a list option \<Rightarrow> bool" where
  "args_ok n p \<longleftrightarrow> length (arr p) = n"

definition enc_frame :: "pt_frame_t \<Rightarrow> bytes" where
  "enc_frame f = enc_int (fr_type f) @ enc_int (fr_functype f) @ enc_int (fr_lineno f) @
     enc_str (map_option sds_str (fr_filename f)) @ enc_str (map_option sds_str (fr_class f)) @
     enc_str (map_option sds_str (fr_function f)) @ enc_int (fr_level f) @ enc_int (fr_arg_count f) @
     concat (map (\<lambda>s. enc_str (map_option sds_str s)) (arr (fr_args f))) @
     enc_str (map_option sds_str (fr_retval f)) @ enc_int (fr_inc_time f) @ enc_int (fr_exc_time f)"

definition frame_ok :: "pt_frame_t \<Rightarrow> bool" where
  "frame_ok f \<longleftrightarrow> sds_ok (fr_filename f) \<and> sds_ok (fr_class f) \<and> sds_ok (fr_function f) \<and>
     sds_ok (fr_retval f) \<and> list_all sds_ok (arr (fr_args f)) \<and> args_ok (unat (fr_arg_count f)) (fr_args f)"

definition img_arr :: "('a \<Rightarrow> 'b) \<Rightarrow> 'a list option \<Rightarrow> 'b list option" where
  "img_arr f p = (if arr p = [] then None else Some (map f (arr p)))"

text \<open>
  The receiver gets every string without spare room, an empty string as \<open>NULL\<close>, and everything
  else as it was.
\<close>

definition img_frame :: "pt_frame_t \<Rightarrow> pt_frame_t" where
  "img_frame f = f\<lparr>fr_filename := img_sds (fr_filename f), fr_class := img_sds (fr_class f),
     fr_function := img_sds (fr_function f), fr_args := img_arr img_sds (fr_args f),
     fr_retval := img_sds (fr_retval f)\<rparr>"

definition enc_request :: "bytes pt_request_t \<Rightarrow> bytes" where
  "enc_request r = enc_int (rq_type r) @ enc_str (map_option cstr (rq_sapi r)) @
     enc_str (map_option cstr (rq_script r)) @ enc_int (rq_time r) @
     enc_str (map_option cstr (rq_method r)) @ enc_str (map_option cstr (rq_uri r)) @
     enc_int (rq_argc r) @ concat (map (\<lambda>s. enc_str (map_option cstr s)) (arr (rq_argv r)))"

definition request_ok :: "bytes pt_request_t \<Rightarrow> bool" where
  "request_ok r \<longleftrightarrow> str_ok (rq_sapi r) \<and> str_ok (rq_script r) \<and> str_ok (rq_method r) \<and>
     str_ok (rq_uri r) \<and> list_all str_ok (arr (rq_argv r)) \<and>
     args_ok (nat (sint (rq_argc r))) (rq_argv r)"

definition img_request :: "bytes pt_request_t \<Rightarrow> sdshdr pt_request_t" where
  "img_request r = \<lparr>rq_type = rq_type r, rq_sapi = img_cstr (rq_sapi r),
     rq_script = img_cstr (rq_script r), rq_time = rq_time r, rq_method = img_cstr (rq_method r),
     rq_uri = img_cstr (rq_uri r), rq_argc = rq_argc r, rq_argv = img_arr img_cstr (rq_argv r)\<rparr>"

definition enc_status :: "bytes pt_status_t \<Rightarrow> bytes" where
  "enc_status s = enc_str (map_option (cstr \<circ> sh_buf) (st_php_version s)) @ enc_int (st_mem s) @
     enc_int (st_mempeak s) @ enc_int (st_mem_real s) @ enc_int (st_mempeak_real s) @
     enc_request (st_request s) @ enc_int (st_frame_count s) @
     concat (map enc_frame (arr (st_frames s)))"

definition status_ok :: "bytes pt_status_t \<Rightarrow> bool" where
  "status_ok s \<longleftrightarrow> str_ok (map_option sh_buf (st_php_version s)) \<and> request_ok (st_request s) \<and>
     list_all frame_ok (arr (st_frames s)) \<and> args_ok (unat (st_frame_count s)) (st_frames s)"

definition img_status :: "bytes pt_status_t \<Rightarrow> sdshdr pt_status_t" where
  "img_status s = \<lparr>st_php_version = img_cstr (map_option sh_buf (st_php_version s)),
     st_mem = st_mem s, st_mempeak = st_mempeak s, st_mem_real = st_mem_real s,
     st_mempeak_real = st_mempeak_real s, st_request = img_request (st_request s),
     st_frame_count = st_frame_count s, st_frames = img_arr img_frame (st_frames s)\<rparr>"

section \<open>The structures are wire types\<close>

lemma calloc_array_roomy [simp]:
  "roomy E \<Longrightarrow> args_ok n p \<Longrightarrow> calloc_array E n k (map f (arr p)) = Some (img_arr f p)"
  by (auto simp: calloc_array_def img_arr_def args_ok_def)

lemma list_all_conj_const: "list_all P xs \<Longrightarrow> Q \<Longrightarrow> list_all (\<lambda>x. P x \<and> Q) xs"
  by (simp add: list_all_iff)

lemmas sds_array_pk = sds_wire.array_pk [of full_env, OF list_all_conj_const]
  and sds_array_sz = sds_wire.array_sz [of full_env, OF list_all_conj_const]
  and str_array_pk = str_wire.array_pk [of full_env, OF list_all_conj_const]
  and str_array_sz = str_wire.array_sz [of full_env, OF list_all_conj_const]

lemmas sds_pack_laws = sds_wire.pk_enc [of _ full_env] sds_wire.sz_enc [of _ full_env, simplified]
  and str_pack_laws = str_wire.pk_enc [of _ full_env] str_wire.sz_enc [of _ full_env, simplified]

lemma frame_pack_enc: "frame_ok f \<Longrightarrow> pt_type_pack_frame f c = poke (enc_frame f) c"
  using sds_array_pk [of "arr (fr_args f)"]
  by (simp add: pt_type_pack_frame_def enc_frame_def frame_ok_def args_ok_def sds_pack_laws mem_simps)

lemma frame_len_enc: "frame_ok f \<Longrightarrow> pt_type_len_frame f = Some (length (enc_frame f))"
  using sds_array_sz [of "arr (fr_args f)"]
  by (simp add: pt_type_len_frame_def enc_frame_def frame_ok_def args_ok_def sds_pack_laws)

lemma frame_unpack_enc:
  assumes "frame_ok f" and "roomy E"
  shows "pt_type_unpack_frame E (enc_frame f @ r) = Some (img_frame f, r)"
  using assms sds_wire.array_dec [of E "arr (fr_args f)", OF list_all_conj_const]
  by (simp add: pt_type_unpack_frame_def enc_frame_def frame_ok_def args_ok_def img_frame_def
      sds_wire.dec_enc)

lemma extensible_unpack_frame [ext_intros]: "extensible (pt_type_unpack_frame E)"
  unfolding pt_type_unpack_frame_def [abs_def] by (intro ext_intros)

interpretation frame_wire: wire_type pt_type_pack_frame pt_type_len_frame enc_frame
  "pt_type_unpack_frame E" "\<lambda>f. frame_ok f \<and> roomy E" img_frame for E
  by unfold_locales (auto simp: frame_pack_enc frame_len_enc frame_unpack_enc intro: ext_intros)

lemma request_pack_enc: "request_ok r \<Longrightarrow> pt_type_pack_request r c = poke (enc_request r) c"
  using str_array_pk [of "arr (rq_argv r)"]
  by (simp add: pt_type_pack_request_def enc_request_def request_ok_def args_ok_def
      str_pack_laws mem_simps)

lemma request_len_enc: "request_ok r \<Longrightarrow> pt_type_len_request r = Some (length (enc_request r))"
  using str_array_sz [of "arr (rq_argv r)"]
  by (simp add: pt_type_len_request_def enc_request_def request_ok_def args_ok_def
      str_pack_laws)

lemma request_unpack_enc:
  assumes "request_ok r" and "roomy E"
  shows "pt_type_unpack_request E (enc_request r @ b) = Some (img_request r, b)"
  using assms str_wire.array_dec [of E "arr (rq_argv r)", OF list_all_conj_const]
  by (simp add: pt_type_unpack_request_def enc_request_def request_ok_def args_ok_def img_request_def
      str_wire.dec_enc)

lemma extensible_unpack_request [ext_intros]: "extensible (pt_type_unpack_request E)"
  unfolding pt_type_unpack_request_def [abs_def] by (intro ext_intros)

interpretation request_wire: wire_type pt_type_pack_request pt_type_len_request enc_request
  "pt_type_unpack_request E" "\<lambda>r. request_ok r \<and> roomy E" img_request for E
  by unfold_locales (auto simp: request_pack_enc request_len_enc request_unpack_enc intro: ext_intros)

lemmas frame_array_pk = frame_wire.array_pk [of full_env, OF list_all_conj_const]
  and frame_array_sz = frame_wire.array_sz [of full_env, OF list_all_conj_const]

lemma status_pack_enc: "status_ok s \<Longrightarrow> pt_type_pack_status s c = poke (enc_status s) c"
  using frame_array_pk [of "arr (st_frames s)"]
  by (simp add: pt_type_pack_status_def enc_status_def status_ok_def args_ok_def
      str_pack_laws request_pack_enc option.map_comp mem_simps)

lemma status_len_enc: "status_ok s \<Longrightarrow> pt_type_len_status s = Some (length (enc_status s))"
  using frame_array_sz [of "arr (st_frames s)"]
  by (simp add: pt_type_len_status_def enc_status_def status_ok_def args_ok_def
      str_pack_laws request_len_enc option.map_comp)

lemma status_unpack_enc:
  assumes "status_ok s" and "roomy E"
  shows "pt_type_unpack_status E (enc_status s @ b) = Some (img_status s, b)"
  using assms frame_wire.array_dec [of E "arr (st_frames s)", OF list_all_conj_const]
    str_wire.dec_enc [of "map_option sh_buf (st_php_version s)" E]
  by (simp add: pt_type_unpack_status_def enc_status_def status_ok_def args_ok_def img_status_def
      request_unpack_enc option.map_comp)

lemma extensible_unpack_status [ext_intros]: "extensible (pt_type_unpack_status E)"
  unfolding pt_type_unpack_status_def [abs_def] by (intro ext_intros)

interpretation status_wire: wire_type pt_type_pack_status pt_type_len_status enc_status
  "pt_type_unpack_status E" "\<lambda>s. status_ok s \<and> roomy E" img_status for E
  by unfold_locales (auto simp: status_pack_enc status_len_enc status_unpack_enc intro: ext_intros)

section \<open>Round trips, exact sizes and truncated input\<close>

text \<open>A frame, a request and a status for the witnesses.\<close>

definition sample_frame :: pt_frame_t where
  "sample_frame = \<lparr>fr_type = PT_FRAME_ENTRY, fr_functype = 1, fr_lineno = 7,
     fr_filename = Some (mk_sds ''a.php''), fr_class = None, fr_function = Some (mk_sds ''f''),
     fr_level = 2, fr_arg_count = 2, fr_args = Some [Some (mk_sds ''1''), Some (mk_sds [])],
     fr_retval = None, fr_inc_time = 5, fr_exc_time = 3\<rparr>"

definition sample_request :: "bytes pt_request_t" where
  "sample_request = \<lparr>rq_type = PT_FRAME_STACK, rq_sapi = Some ''cli'', rq_script = Some ''a.php'',
     rq_time = 9, rq_method = None, rq_uri = None, rq_argc = 1, rq_argv = Some [Some ''x'']\<rparr>"

definition sample_status :: "bytes pt_status_t" where
  "sample_status = \<lparr>st_php_version = Some (mk_sds ''7.0.1''), st_mem = 1, st_mempeak = 2,
     st_mem_real = 3, st_mempeak_real = 4, st_request = sample_request, st_frame_count = 1,
     st_frames = Some [sample_frame]\<rparr>"

lemma sample_ok [simp]: "frame_ok sample_frame" "request_ok sample_request" "status_ok sample_status"
proof -
  show f: "frame_ok sample_frame"
    by (simp add: sample_frame_def frame_ok_def sds_ok_def args_ok_def arr_def)
  show r: "request_ok sample_request"
    by (simp add: sample_request_def request_ok_def str_ok_def short_def args_ok_def arr_def)
  show "status_ok sample_status"
    using f r by (simp add: sample_status_def status_ok_def str_ok_def short_def args_ok_def arr_def
        mk_sds_def)
qed

lemma two_elements:
  "len_array sz 2 [x, y] = do { k \<leftarrow> sz x; m \<leftarrow> sz y; Some (k + m) }"
  by (simp add: numeral_2_eq_2)

lemma sample_len [simp]:
  "pt_type_len_frame sample_frame = Some 61"
  "pt_type_len_request sample_request = Some 42"
  "pt_type_len_status sample_status = Some 148"
proof -
  show f: "pt_type_len_frame sample_frame = Some 61"
    by (simp add: sample_frame_def pt_type_len_frame_def LEN_SDS_def LEN_STR_EX_def arr_def two_elements)
  show r: "pt_type_len_request sample_request = Some 42"
    by (simp add: sample_request_def pt_type_len_request_def LEN_STR_def LEN_STR_EX_def arr_def strlen_def)
  show "pt_type_len_status sample_status = Some 148"
    using f r by (simp add: sample_status_def pt_type_len_status_def LEN_STR_def LEN_STR_EX_def arr_def
        strlen_def mk_sds_def)
qed

text \<open>
  A frame packed into a buffer with the room its length function asks for is written exactly
  there, the bytes before and behind it are kept, and unpacking at that place gives back every field
  of the frame (strings without their spare room, empty strings as \<open>NULL\<close>) and stops at its end.
\<close>

lemma frame_roundtrip:
  assumes "frame_ok f" and "roomy E"
  shows "\<exists>n. pt_type_len_frame f = Some n \<and>
    (\<forall>b p. p + n \<le> length b \<longrightarrow>
      (\<exists>b'. pt_type_pack_frame f (b, p) = Some (b', p + n) \<and> length b' = length b \<and>
        take p b' = take p b \<and> drop (p + n) b' = drop (p + n) b \<and>
        pt_type_unpack_frame E (drop p b') = Some (img_frame f, drop (p + n) b)))"
  using frame_wire.pack_room [of f E] frame_len_enc [OF assms(1)] assms by blast

text \<open>
  The same for a request: its C strings up to their NUL, its arguments in order, nothing outside
  the room that \<open>pt_type_len_request\<close> computes.
\<close>

lemma request_roundtrip:
  assumes "request_ok r" and "roomy E"
  shows "\<exists>n. pt_type_len_request r = Some n \<and>
    (\<forall>b p. p + n \<le> length b \<longrightarrow>
      (\<exists>b'. pt_type_pack_request r (b, p) = Some (b', p + n) \<and> length b' = length b \<and>
        take p b' = take p b \<and> drop (p + n) b' = drop (p + n) b \<and>
        pt_type_unpack_request E (drop p b') = Some (img_request r, drop (p + n) b)))"
  using request_wire.pack_room [of r E] request_len_enc [OF assms(1)] assms by blast

text \<open>
  C16: The same for a whole status: version, memory counters, the request inside it and the stack of
  frames behind it, with their order.
\<close>

theorem status_roundtrip:
  assumes "status_ok s" and "roomy E"
  shows "\<exists>n. pt_type_len_status s = Some n \<and>
    (\<forall>b p. p + n \<le> length b \<longrightarrow>
      (\<exists>b'. pt_type_pack_status s (b, p) = Some (b', p + n) \<and> length b' = length b \<and>
        take p b' = take p b \<and> drop (p + n) b' = drop (p + n) b \<and>
        pt_type_unpack_status E (drop p b') = Some (img_status s, drop (p + n) b)))"
  using status_wire.pack_room [of s E] status_len_enc [OF assms(1)] assms by blast

theorem status_roundtrip_witness:
  "\<exists>b'. pt_type_pack_status sample_status (replicate 200 NUL, 3) = Some (b', 151) \<and> length b' = 200 \<and>
     take 3 b' = replicate 3 NUL \<and>
     pt_type_unpack_status full_env (drop 3 b') = Some (img_status sample_status, replicate 49 NUL)"
  using status_roundtrip [of sample_status full_env]
  by (simp, elim allE [of _ "replicate 200 NUL"] allE [of _ "3::nat"], simp, blast)

text \<open>
  C21: The computed length of a status is exact: packing stays inside a buffer if and only if the
  buffer has that many bytes behind the cursor; one byte less and it writes past the end.
\<close>

theorem status_len_exact:
  assumes "status_ok s"
  shows "\<exists>n>0. pt_type_len_status s = Some n \<and>
    (\<forall>b p. pt_type_pack_status s (b, p) \<noteq> None \<longleftrightarrow> p + n \<le> length b)"
proof -
  have n: "0 < length (enc_status s)" by (simp add: enc_status_def length_enc_str)
  moreover have "pt_type_pack_status s (b, p) \<noteq> None \<longleftrightarrow> p + length (enc_status s) \<le> length b" for b p
    using n by (simp add: status_pack_enc [OF assms] poke_def)
  ultimately show ?thesis using status_len_enc [OF assms] by blast
qed

theorem status_len_exact_witness:
  "pt_type_pack_status sample_status (replicate 148 NUL, 0) \<noteq> None \<and>
   pt_type_pack_status sample_status (replicate 147 NUL, 0) = None"
proof -
  obtain n where n: "pt_type_len_status sample_status = Some n"
    "\<And>b p. pt_type_pack_status sample_status (b, p) \<noteq> None \<longleftrightarrow> p + n \<le> length b"
    using status_len_exact [of sample_status] by auto
  then have "n = 148" by simp
  with n(2) [of "replicate 148 NUL" 0] n(2) [of "replicate 147 NUL" 0] show ?thesis
    by (auto simp del: not_None_eq)
qed

text \<open>
  The unpacking functions take no length: given only the first \<open>k\<close> bytes of a packed frame,
  for any \<open>k\<close> below its length, \<open>pt_type_unpack_frame\<close> reads past the end of its input.
\<close>

lemma frame_truncated_overrun:
  assumes "frame_ok f" and "roomy E" and "pt_type_len_frame f = Some n" and "k < n"
  shows "\<exists>b. length b = n \<and> pt_type_unpack_frame E b = Some (img_frame f, []) \<and>
    pt_type_unpack_frame E (take k b) = None"
  using frame_wire.dec_truncated [of f E n k] frame_unpack_enc [OF assms(1,2), of "[]"]
    frame_len_enc [OF assms(1)] assms by (intro exI [of _ "enc_frame f"]) simp

end
