(* ===== verification/Ext_Frame.thy ===== *)
theory Ext_Frame
  imports Sds_Repr Trace_Type
begin

unbundle bit_operations_syntax

text \<open>
  The part of the extension (\<open>extension/trace.c\<close>, PHP 7.1 and later) that turns the state of the
  engine into frames, requests and statuses: \<open>repr_zval\<close>, \<open>frame_build\<close>, \<open>request_build\<close> and
  \<open>status_build\<close>.

  The engine itself is not part of the repository. Its data is modelled by the fields the extension
  reads; what it computes (the text of a floating point number, the name of a trait method, the
  memory in use) is a field of the environment \<open>zend_env\<close>.
\<close>

section \<open>The engine as the extension sees it\<close>

datatype zval = IS_UNDEF | IS_NULL | IS_FALSE | IS_TRUE | IS_LONG int | IS_DOUBLE u64 | IS_STRING bytes
  | IS_ARRAY u32 | IS_OBJECT bytes u32 | IS_RESOURCE "bytes option" u32 | IS_REFERENCE zval | IS_OTHER

datatype zend_opcode = ZEND_DO_FCALL | ZEND_DO_ICALL | ZEND_DO_UCALL | ZEND_DO_FCALL_BY_NAME
  | ZEND_INCLUDE_OR_EVAL | Other_Opcode nat

datatype zend_ev = ZEND_EVAL | ZEND_INCLUDE | ZEND_INCLUDE_ONCE | ZEND_REQUIRE | ZEND_REQUIRE_ONCE | Other_Ev nat

datatype zend_ftype = ZEND_INTERNAL_FUNCTION | ZEND_USER_FUNCTION | ZEND_EVAL_CODE

record zend_op =
  op_opcode :: zend_opcode
  op_lineno :: u32
  op_extended_value :: zend_ev

record zend_class =
  cl_name :: "bytes option"
  cl_trait_aliases :: bool

text \<open>A function with the fields of its \<open>op_array\<close>; \<open>zf_filename\<close> is \<open>None\<close> where there is none.\<close>

record zend_function =
  zf_type :: zend_ftype
  zf_function_name :: "bytes option"
  zf_scope :: "zend_class option"
  zf_filename :: "bytes option"
  zf_line_start :: u32
  zf_line_end :: u32
  zf_num_args :: nat
  zf_last_var :: nat
  zf_T :: nat
  zf_opcodes :: "zend_op option"

text \<open>
  A call of the engine's stack: the function, the class of \<open>$this\<close>, the current instruction, the
  number of arguments, the slots of its variables (argument 1 is slot 0), whether \<open>return_value\<close>
  points to a value, and the call below it.
\<close>

datatype zend_execute_data = Ex (ex_func: "zend_function option") (ex_this: "zend_class option")
  (ex_opline: "zend_op option") (ex_num_args: nat) (ex_slot: "nat \<Rightarrow> zval") (ex_return_value: bool)
  (ex_prev: "zend_execute_data option")

record zend_env =
  ze_php_version :: bytes
  ze_sapi_name :: bytes
  ze_fmt_double :: "u64 \<Rightarrow> bytes"
  ze_resolve_method_name :: "zend_class \<Rightarrow> zend_function \<Rightarrow> bytes"
  ze_memory_usage :: "bool \<Rightarrow> u64"
  ze_memory_peak_usage :: "bool \<Rightarrow> u64"
  ze_path_translated :: "bytes option"
  ze_global_request_time :: int
  ze_request_method :: "bytes option"
  ze_request_uri :: "bytes option"
  ze_argc :: u32
  ze_argv :: "bytes option list option"

section \<open>Values\<close>

text \<open>A string built from nothing by \<open>sdscatprintf(sdsempty(), ...)\<close>; \<open>NULL\<close> is not checked for.\<close>

definition sds_fmt :: "mem_env \<Rightarrow> bytes \<Rightarrow> sds option" where
  "sds_fmt E f = do { e \<leftarrow> sdsempty E; s \<leftarrow> e; sdscatprintf E s f }"

definition sds_quote :: "mem_env \<Rightarrow> bytes \<Rightarrow> nat \<Rightarrow> sds option" where
  "sds_quote E p n = do { e \<leftarrow> sdsempty E; s \<leftarrow> e; sdscatrepr E s p n }"

definition sizeof_buf :: nat where "sizeof_buf = 256"

fun repr_zval :: "mem_env \<Rightarrow> zend_env \<Rightarrow> int \<Rightarrow> zval \<Rightarrow> sds option" where
  "repr_zval E Z limit IS_TRUE = sdsnew E (Some ''true'')"
| "repr_zval E Z limit IS_FALSE = sdsnew E (Some ''false'')"
| "repr_zval E Z limit IS_NULL = sdsnew E (Some ''NULL'')"
| "repr_zval E Z limit (IS_LONG n) = sdsnew E (Some (take (sizeof_buf - 1) (dec_int n)))"
| "repr_zval E Z limit (IS_DOUBLE d) = sdsnew E (Some (take (sizeof_buf - 1) (ze_fmt_double Z d)))"
| "repr_zval E Z limit (IS_STRING s) = do {
     let tlen = (if limit \<le> 0 \<or> length s < nat limit then length s else nat limit);
     result \<leftarrow> sds_quote E s tlen;
     if 0 < limit \<and> nat limit < length s then do { result \<leftarrow> result; sdscat E result ''...'' }
     else Some result
   }"
| "repr_zval E Z limit (IS_ARRAY n) = sds_fmt E (''array('' @ dec_int (sint n) @ '')'')"
| "repr_zval E Z limit (IS_OBJECT c h) = sds_fmt E (''object('' @ cstr c @ '')#'' @ dec_int (sint h))"
| "repr_zval E Z limit (IS_RESOURCE t h) =
     sds_fmt E (''resource('' @ (case t of None \<Rightarrow> ''Unknown'' | Some t \<Rightarrow> cstr t) @ '')#'' @ dec_int (sint h))"
| "repr_zval E Z limit IS_UNDEF = sdsnew E (Some ''{undef}'')"
| "repr_zval E Z limit (IS_REFERENCE v) = repr_zval E Z limit v"
| "repr_zval E Z limit IS_OTHER = sdsnew E (Some ''{unknown}'')"

section \<open>Frames\<close>

definition PT_FUNC_INTERNAL :: u8 where "PT_FUNC_INTERNAL = 0x80"
definition PT_FUNC_TYPES :: u8 where "PT_FUNC_TYPES = 0x7f"
definition PT_FUNC_INCLUDES :: u8 where "PT_FUNC_INCLUDES = 0x10"
definition PT_FUNC_UNKNOWN :: u8 where "PT_FUNC_UNKNOWN = 0x00"
definition PT_FUNC_NORMAL :: u8 where "PT_FUNC_NORMAL = 0x01"
definition PT_FUNC_MEMBER :: u8 where "PT_FUNC_MEMBER = 0x02"
definition PT_FUNC_STATIC :: u8 where "PT_FUNC_STATIC = 0x03"
definition PT_FUNC_EVAL :: u8 where "PT_FUNC_EVAL = 0x04"
definition PT_FUNC_INCLUDE :: u8 where "PT_FUNC_INCLUDE = 0x10"
definition PT_FUNC_INCLUDE_ONCE :: u8 where "PT_FUNC_INCLUDE_ONCE = 0x11"
definition PT_FUNC_REQUIRE :: u8 where "PT_FUNC_REQUIRE = 0x12"
definition PT_FUNC_REQUIRE_ONCE :: u8 where "PT_FUNC_REQUIRE_ONCE = 0x13"

text \<open>A frame after \<open>memset(frame, 0, sizeof(pt_frame_t))\<close>.\<close>

definition zero_frame :: pt_frame_t where
  "zero_frame = \<lparr>fr_type = 0, fr_functype = 0, fr_lineno = 0, fr_filename = None, fr_class = None,
     fr_function = None, fr_level = 0, fr_arg_count = 0, fr_args = None, fr_retval = None,
     fr_inc_time = 0, fr_exc_time = 0\<rparr>"

definition obtain_zend_function :: "zend_execute_data \<Rightarrow> zend_function option" where
  "obtain_zend_function ex = ex_func ex"

text \<open>\<open>sdsnew(P7_STR(s))\<close>: the engine string itself must not be \<open>NULL\<close>.\<close>

definition sdsnew_zstr :: "mem_env \<Rightarrow> bytes option \<Rightarrow> sds option" where
  "sdsnew_zstr E s = (case s of None \<Rightarrow> None | Some s \<Rightarrow> sdsnew E (Some s))"

text \<open>The class and the bits of the type of a named function; the flag is the warning.\<close>

definition frame_class :: "mem_env \<Rightarrow> zend_execute_data \<Rightarrow> zend_function \<Rightarrow> (u8 \<times> sds \<times> bool) option" where
  "frame_class E ex zf =
     (if ex_this ex \<noteq> None then
        (case zf_scope zf of
           Some c \<Rightarrow> do { cls \<leftarrow> sdsnew_zstr E (cl_name c); Some (PT_FUNC_MEMBER, cls, False) }
         | None \<Rightarrow> Some (PT_FUNC_MEMBER, None, True))
      else case zf_scope zf of
         Some c \<Rightarrow> do { cls \<leftarrow> sdsnew_zstr E (cl_name c); Some (PT_FUNC_STATIC, cls, False) }
       | None \<Rightarrow> Some (PT_FUNC_NORMAL, None, False))"

definition frame_function :: "mem_env \<Rightarrow> zend_env \<Rightarrow> zend_execute_data \<Rightarrow> zend_function \<Rightarrow> bytes \<Rightarrow> sds option" where
  "frame_function E Z ex zf name =
     (if strcmp_eq name ''{closure}'' then do {
        file \<leftarrow> zf_filename zf;
        sds_fmt E (''{closure:'' @ cstr file @ '':'' @ dec_int (sint (zf_line_start zf)) @ ''-'' @
          dec_int (sint (zf_line_end zf)) @ ''}'')
      }
      else if strcmp_eq name ''__lambda_func'' then do {
        file \<leftarrow> zf_filename zf;
        sds_fmt E (''{lambda:'' @ cstr file @ ''}'')
      }
      else case zf_scope zf of
        Some c \<Rightarrow>
          if cl_trait_aliases c
          then sdsnew E (Some (ze_resolve_method_name Z (case ex_this ex of Some ob \<Rightarrow> ob | None \<Rightarrow> c) zf))
          else sdsnew E (Some name)
      | None \<Rightarrow> sdsnew E (Some name))"

text \<open>
  The values of the arguments: those behind the declared ones of a user function are stored behind
  its variables and temporaries.
\<close>

definition frame_arg_values :: "zend_execute_data \<Rightarrow> zend_function \<Rightarrow> zval list" where
  "frame_arg_values ex zf =
     (let n = ex_num_args ex; first_extra_arg = zf_num_args zf in
      if zf_type zf = ZEND_USER_FUNCTION \<and> first_extra_arg \<noteq> 0 \<and> n > first_extra_arg
      then map (ex_slot ex) [0..<first_extra_arg] @
        map (\<lambda>i. ex_slot ex (zf_last_var zf + zf_T zf + i)) [0..<n - first_extra_arg]
      else map (ex_slot ex) [0..<n])"

fun repr_args :: "mem_env \<Rightarrow> zend_env \<Rightarrow> zval list \<Rightarrow> sds list option" where
  "repr_args E Z [] = Some []"
| "repr_args E Z (v # vs) = do { s \<leftarrow> repr_zval E Z 32 v; ss \<leftarrow> repr_args E Z vs; Some (s # ss) }"

definition frame_args :: "mem_env \<Rightarrow> zend_env \<Rightarrow> zend_execute_data \<Rightarrow> zend_function \<Rightarrow>
  (u32 \<times> sds list option) option" where
  "frame_args E Z ex zf = do {
     ss \<leftarrow> repr_args E Z (frame_arg_values ex zf);
     args \<leftarrow> calloc_array E (ex_num_args ex) 8 ss;
     Some (word_of_nat (ex_num_args ex), args)
   }"

text \<open>The pseudo functions: bits, name, whether the file name is the argument.\<close>

definition special_function :: "zend_ev option \<Rightarrow> u8 \<times> bytes \<times> bool" where
  "special_function ev =
     (case ev of
        Some ZEND_INCLUDE_ONCE \<Rightarrow> (PT_FUNC_INCLUDE_ONCE, ''include_once'', True)
      | Some ZEND_REQUIRE_ONCE \<Rightarrow> (PT_FUNC_REQUIRE_ONCE, ''require_once'', True)
      | Some ZEND_INCLUDE \<Rightarrow> (PT_FUNC_INCLUDE, ''include'', True)
      | Some ZEND_REQUIRE \<Rightarrow> (PT_FUNC_REQUIRE, ''require'', True)
      | Some ZEND_EVAL \<Rightarrow> (PT_FUNC_EVAL, ''{eval}'', False)
      | _ \<Rightarrow> (PT_FUNC_NORMAL, ''{main}'', False))"

definition frame_special :: "mem_env \<Rightarrow> zend_execute_data option \<Rightarrow> zend_function \<Rightarrow> pt_frame_t \<Rightarrow> pt_frame_t option" where
  "frame_special E caller zf frame =
     (let ev = (case caller of None \<Rightarrow> None | Some c \<Rightarrow> map_option op_extended_value (ex_opline c)) in
      case special_function ev of (bits, name, add_filename) \<Rightarrow> do {
        func \<leftarrow> sdsnew E (Some name);
        let frame = frame\<lparr>fr_functype := fr_functype frame OR bits, fr_function := func\<rparr>;
        if add_filename then do {
          file \<leftarrow> zf_filename zf;
          s \<leftarrow> sds_quote E file (strlen file);
          args \<leftarrow> calloc_array E 1 8 [s];
          Some (frame\<lparr>fr_arg_count := 1, fr_args := args\<rparr>)
        } else Some frame
      })"

text \<open>The two steps that skip a caller that is not the place of the call.\<close>

definition call_opcode :: "zend_opcode \<Rightarrow> bool" where
  "call_opcode c \<longleftrightarrow> c = ZEND_DO_FCALL \<or> c = ZEND_DO_ICALL \<or> c = ZEND_DO_UCALL \<or>
     c = ZEND_DO_FCALL_BY_NAME \<or> c = ZEND_INCLUDE_OR_EVAL"

definition skip_no_opcodes :: "zend_execute_data option \<Rightarrow> zend_execute_data option" where
  "skip_no_opcodes caller =
     (case caller of
        None \<Rightarrow> None
      | Some c \<Rightarrow>
          if ex_opline c \<noteq> None \<and> ex_prev c \<noteq> None \<and>
            (case ex_func c of None \<Rightarrow> False | Some f \<Rightarrow> zf_opcodes f = None)
          then ex_prev c else caller)"

definition skip_internal_handler :: "zend_execute_data option \<Rightarrow> zend_execute_data option" where
  "skip_internal_handler caller =
     (case caller of
        None \<Rightarrow> None
      | Some c \<Rightarrow>
          if ex_prev c \<noteq> None \<and> (case ex_opline c of None \<Rightarrow> False | Some op \<Rightarrow> \<not> call_opcode (op_opcode op))
          then ex_prev c else caller)"

definition prev_of :: "zend_execute_data option \<Rightarrow> zend_execute_data option" where
  "prev_of caller = (case caller of None \<Rightarrow> None | Some c \<Rightarrow> ex_prev c)"

definition opline_of :: "zend_execute_data option \<Rightarrow> zend_op option" where
  "opline_of caller = (case caller of None \<Rightarrow> None | Some c \<Rightarrow> ex_opline c)"

definition frame_lineno :: "zend_execute_data option \<Rightarrow> zend_function option \<Rightarrow> u32" where
  "frame_lineno caller op_array =
     (case opline_of caller of
        Some op \<Rightarrow> op_lineno op
      | None \<Rightarrow> case opline_of (prev_of caller) of
          Some op \<Rightarrow> op_lineno op
        | None \<Rightarrow> case op_array of
            Some f \<Rightarrow> (case zf_opcodes f of Some op \<Rightarrow> op_lineno op | None \<Rightarrow> 0)
          | None \<Rightarrow> 0)"

definition ZEND_USER_CODE :: "zend_ftype \<Rightarrow> bool" where
  "ZEND_USER_CODE t \<longleftrightarrow> t \<noteq> ZEND_INTERNAL_FUNCTION"

definition user_func :: "zend_execute_data option \<Rightarrow> zend_function option" where
  "user_func caller =
     (case caller of None \<Rightarrow> None
      | Some c \<Rightarrow> case ex_func c of
          Some f \<Rightarrow> if ZEND_USER_CODE (zf_type f) then Some f else None
        | None \<Rightarrow> None)"

text \<open>\<open>caller->func\<close> is read without a test of \<open>caller\<close>.\<close>

definition frame_filename :: "mem_env \<Rightarrow> zend_execute_data option \<Rightarrow> zend_function option \<Rightarrow> sds option" where
  "frame_filename E caller op_array =
     (if caller = None then None
      else let op_array = (case user_func caller of
                  Some f \<Rightarrow> Some f
                | None \<Rightarrow> case user_func (prev_of caller) of Some f \<Rightarrow> Some f | None \<Rightarrow> op_array)
           in case op_array of Some f \<Rightarrow> sdsnew_zstr E (zf_filename f) | None \<Rightarrow> Some None)"

definition frame_named :: "mem_env \<Rightarrow> zend_env \<Rightarrow> zend_execute_data \<Rightarrow> zend_function \<Rightarrow> bytes \<Rightarrow>
  pt_frame_t \<Rightarrow> (pt_frame_t \<times> bool) option" where
  "frame_named E Z ex zf name frame = do {
     (bits, cls, warn) \<leftarrow> frame_class E ex zf;
     func \<leftarrow> frame_function E Z ex zf name;
     (count, args) \<leftarrow> frame_args E Z ex zf;
     Some (frame\<lparr>fr_functype := fr_functype frame OR bits, fr_class := cls, fr_function := func,
                 fr_arg_count := count, fr_args := args\<rparr>, warn)
   }"

text \<open>The result with whether the warning about a missing scope was raised.\<close>

definition frame_build :: "mem_env \<Rightarrow> zend_env \<Rightarrow> int \<Rightarrow> bool \<Rightarrow> u8 \<Rightarrow> zend_execute_data option \<Rightarrow>
  zend_execute_data \<Rightarrow> zend_function option \<Rightarrow> (pt_frame_t \<times> bool) option" where
  "frame_build E Z level internal type caller ex op_array = do {
     zf \<leftarrow> obtain_zend_function ex;
     let frame = zero_frame\<lparr>fr_type := type, fr_functype := (if internal then PT_FUNC_INTERNAL else 0x00),
                            fr_level := word_of_int level\<rparr>;
     (frame, warn) \<leftarrow>
       (case zf_function_name zf of
          Some name \<Rightarrow> frame_named E Z ex zf name frame
        | None \<Rightarrow> map_option (\<lambda>f. (f, False)) (frame_special E caller zf frame));
     let caller = skip_internal_handler (skip_no_opcodes caller);
     file \<leftarrow> frame_filename E caller op_array;
     Some (frame\<lparr>fr_lineno := frame_lineno caller op_array, fr_filename := file\<rparr>, warn)
   }"

section \<open>Requests and statuses\<close>

definition PT_USEC_PER_SEC :: int where "PT_USEC_PER_SEC = 1000000"

definition request_build :: "zend_env \<Rightarrow> u8 \<Rightarrow> bytes pt_request_t" where
  "request_build Z type = \<lparr>rq_type = type, rq_sapi = Some (ze_sapi_name Z),
     rq_script = ze_path_translated Z, rq_time = word_of_int (ze_global_request_time Z * PT_USEC_PER_SEC),
     rq_method = ze_request_method Z, rq_uri = ze_request_uri Z, rq_argc = ze_argc Z, rq_argv = ze_argv Z\<rparr>"

fun stack_depth :: "zend_execute_data option \<Rightarrow> nat" where
  "stack_depth None = 0"
| "stack_depth (Some (Ex f t op n sl rv prev)) = Suc (stack_depth prev)"

fun stack_frames :: "mem_env \<Rightarrow> zend_env \<Rightarrow> int \<Rightarrow> bool \<Rightarrow> zend_execute_data option \<Rightarrow> pt_frame_t list option" where
  "stack_frames E Z level internal None = Some []"
| "stack_frames E Z level internal (Some (Ex f t op n sl rv prev)) = do {
     (frame, _) \<leftarrow> frame_build E Z level internal PT_FRAME_STACK (Some (Ex f t op n sl rv prev)) (Ex f t op n sl rv prev) None;
     fs \<leftarrow> stack_frames E Z level internal prev;
     Some (frame\<lparr>fr_level := 1\<rparr> # fs)
   }"

definition status_build :: "mem_env \<Rightarrow> zend_env \<Rightarrow> int \<Rightarrow> bool \<Rightarrow> zend_execute_data option \<Rightarrow> bytes pt_status_t option" where
  "status_build E Z level internal ex = do {
     version \<leftarrow> sdsnew E (Some (ze_php_version Z));
     xs \<leftarrow> stack_frames E Z level internal ex;
     frames \<leftarrow> calloc_array E (stack_depth ex) sizeof_pt_frame_t xs;
     Some \<lparr>st_php_version = version, st_mem = ze_memory_usage Z False, st_mempeak = ze_memory_peak_usage Z False,
           st_mem_real = ze_memory_usage Z True, st_mempeak_real = ze_memory_peak_usage Z True,
           st_request = request_build Z PT_FRAME_STACK, st_frame_count = word_of_nat (stack_depth ex),
           st_frames = frames\<rparr>
   }"

section \<open>The text of a value\<close>

text \<open>Strings the engine owns, short enough for every length computed from them.\<close>

definition name_ok :: "bytes \<Rightarrow> bool" where
  "name_ok s \<longleftrightarrow> length s \<le> 2 ^ 12"

definition opt_ok :: "bytes option \<Rightarrow> bool" where
  "opt_ok s = (case s of None \<Rightarrow> True | Some s \<Rightarrow> name_ok s)"

fun zval_ok :: "zval \<Rightarrow> bool" where
  "zval_ok (IS_LONG n) \<longleftrightarrow> - (2 ^ 63) \<le> n \<and> n < 2 ^ 63"
| "zval_ok (IS_OBJECT c h) = name_ok c"
| "zval_ok (IS_RESOURCE t h) = opt_ok t"
| "zval_ok (IS_REFERENCE v) = zval_ok v"
| "zval_ok _ = True"

fun zval_text :: "zend_env \<Rightarrow> zval \<Rightarrow> bytes" where
  "zval_text Z IS_TRUE = ''true''"
| "zval_text Z IS_FALSE = ''false''"
| "zval_text Z IS_NULL = ''NULL''"
| "zval_text Z (IS_LONG n) = dec_int n"
| "zval_text Z (IS_DOUBLE d) = cstr (take 255 (ze_fmt_double Z d))"
| "zval_text Z (IS_STRING s) = repr (take 32 s) @ (if 32 < length s then ''...'' else [])"
| "zval_text Z (IS_ARRAY n) = ''array('' @ dec_int (sint n) @ '')''"
| "zval_text Z (IS_OBJECT c h) = ''object('' @ cstr c @ '')#'' @ dec_int (sint h)"
| "zval_text Z (IS_RESOURCE t h) =
     ''resource('' @ (case t of None \<Rightarrow> ''Unknown'' | Some t \<Rightarrow> cstr t) @ '')#'' @ dec_int (sint h)"
| "zval_text Z IS_UNDEF = ''{undef}''"
| "zval_text Z (IS_REFERENCE v) = zval_text Z v"
| "zval_text Z IS_OTHER = ''{unknown}''"

text \<open>The result of a function that makes a string: it is there, well-formed, with this text.\<close>

definition makes :: "sds option \<Rightarrow> bytes \<Rightarrow> bool" where
  "makes r t \<longleftrightarrow> (\<exists>s. r = Some (Some s) \<and> sds_wf s \<and> sds_str s = t)"

lemma makesE: "makes r t \<Longrightarrow> (\<And>s. r = Some (Some s) \<Longrightarrow> sds_wf s \<Longrightarrow> sds_str s = t \<Longrightarrow> P) \<Longrightarrow> P"
  by (auto simp: makes_def)

lemma makes_sdsnew:
  assumes "roomy E" and "length s \<le> sds_cap"
  shows "makes (sdsnew E (Some s)) (cstr s)"
proof -
  have "strlen s < 2 ^ 31" using assms(2) strlen_le [of s] by (simp add: sds_cap_def)
  then show ?thesis using sdsnew_str [OF assms(1)] by (simp add: makes_def strlen_def)
qed

lemma makes_const:
  "roomy E \<Longrightarrow> nul_free s \<Longrightarrow> length s \<le> sds_cap \<Longrightarrow> makes (sdsnew E (Some s)) s"
  using makes_sdsnew [of E s] by simp

lemma makes_fmt:
  assumes "roomy E" and "length f \<le> sds_cap"
  shows "makes (sds_fmt E f) (cstr f)"
  using sdscatprintf_spec [of "mk_sds []" E f] assms strlen_le [of f]
  by (simp add: makes_def sds_fmt_def sdsempty_str sds_cap_def SDS_MAX_PREALLOC_def)

lemma makes_quote:
  assumes "roomy E" and "n \<le> length p" and "4 * n + 2 \<le> sds_cap"
  shows "makes (sds_quote E p n) (repr (take n p))"
  using sdscatrepr_spec [of "mk_sds []" E n p] assms length_repr [of "take n p"]
  by (simp add: makes_def sds_quote_def sdsempty_str sds_cap_def)

lemma length_dec_sint: "length (dec_int (sint (n :: u32))) \<le> 12"
proof -
  have "sint n < 2 ^ 31" and "- (2 ^ 31) \<le> sint n"
    using sint_lt [of n] sint_ge [of n] by simp_all
  then have "\<bar>sint n\<bar> < 10 ^ 11" by simp
  from length_dec_int [OF this] show ?thesis by simp
qed

lemma length_dec_long:
  assumes "- (2 ^ 63) \<le> n" and "n < 2 ^ 63"
  shows "length (dec_int n) \<le> 21"
proof -
  have "\<bar>n\<bar> < 10 ^ 20" using assms by simp
  from length_dec_int [OF this] show ?thesis by simp
qed

lemma repr_string:
  assumes "roomy E"
  shows "makes (repr_zval E Z 32 (IS_STRING s)) (zval_text Z (IS_STRING s))"
proof -
  let ?n = "if length s < 32 then length s else 32"
  have cut: "repr (take ?n s) = repr (take 32 s)" by simp
  have "makes (sds_quote E s ?n) (repr (take 32 s))"
    using makes_quote [OF assms, of ?n s] by (simp add: cut sds_cap_def)
  then obtain r where r: "sds_quote E s ?n = Some (Some r)" "sds_wf r" "sds_str r = repr (take 32 s)"
    by (rule makesE)
  have "sdslen r \<le> 130" using r length_repr [of "take 32 s"] by (simp add: sdslen_str)
  then have "makes (sdscat E r ''...'') (repr (take 32 s) @ ''...'')"
    using sdscat_spec [OF r(2) assms, of "''...''"] r by (simp add: makes_def SDS_MAX_PREALLOC_def strlen_def)
  with r show ?thesis by (auto simp: makes_def split: if_splits)
qed

lemma repr_zval_spec:
  assumes "roomy E" and "zval_ok v"
  shows "makes (repr_zval E Z 32 v) (zval_text Z v)"
  using assms(2)
proof (induction v)
  case (IS_LONG n)
  then show ?case
    using makes_sdsnew [OF assms(1), of "take 255 (dec_int n)"] length_dec_long [of n]
    by (simp add: sizeof_buf_def sds_cap_def)
next
  case (IS_DOUBLE d)
  then show ?case
    using makes_sdsnew [OF assms(1), of "take 255 (ze_fmt_double Z d)"]
    by (simp add: sizeof_buf_def sds_cap_def)
next
  case (IS_STRING s)
  then show ?case by (intro repr_string assms)
next
  case (IS_ARRAY n)
  then show ?case
    using makes_fmt [OF assms(1), of "''array('' @ dec_int (sint n) @ '')''"] length_dec_sint [of n]
    by (simp add: sds_cap_def)
next
  case (IS_OBJECT c h)
  then show ?case
    using makes_fmt [OF assms(1), of "''object('' @ cstr c @ '')#'' @ dec_int (sint h)"]
      length_dec_sint [of h] strlen_le [of c] by (simp add: sds_cap_def name_ok_def strlen_def)
next
  case (IS_RESOURCE t h)
  then show ?case
    using makes_fmt [OF assms(1), of "''resource('' @ (case t of None \<Rightarrow> ''Unknown'' | Some t \<Rightarrow> cstr t) @ '')#'' @ dec_int (sint h)"]
      length_dec_sint [of h] strlen_le [of "the t"]
    by (auto simp: sds_cap_def name_ok_def opt_ok_def strlen_def split: option.splits)
qed (simp_all add: makes_const [OF assms(1)] sds_cap_def)

section \<open>Frames can always be packed\<close>

text \<open>
  What the extension relies on of the data of the engine: a function of a class has a class with a
  name, user code and everything without a name has a file, and no name is absurdly long.
\<close>

definition class_ok :: "zend_class \<Rightarrow> bool" where
  "class_ok c \<longleftrightarrow> cl_name c \<noteq> None \<and> opt_ok (cl_name c)"

definition func_ok :: "zend_env \<Rightarrow> zend_function \<Rightarrow> bool" where
  "func_ok Z f \<longleftrightarrow> opt_ok (zf_function_name f) \<and> opt_ok (zf_filename f) \<and>
     (case zf_scope f of None \<Rightarrow> True | Some c \<Rightarrow> class_ok c) \<and>
     (zf_filename f = None \<longrightarrow> \<not> ZEND_USER_CODE (zf_type f) \<and>
        (case zf_function_name f of None \<Rightarrow> False
         | Some n \<Rightarrow> \<not> strcmp_eq n ''{closure}'' \<and> \<not> strcmp_eq n ''__lambda_func''))"

fun ex_ok :: "zend_env \<Rightarrow> zend_execute_data \<Rightarrow> bool" where
  "ex_ok Z (Ex f t op n sl rv prev) \<longleftrightarrow>
     (case f of None \<Rightarrow> False | Some f \<Rightarrow> func_ok Z f) \<and> (\<forall>i. zval_ok (sl i)) \<and> n < 2 ^ 15 \<and>
     (case prev of None \<Rightarrow> True | Some p \<Rightarrow> ex_ok Z p)"

definition env_ok :: "zend_env \<Rightarrow> bool" where
  "env_ok Z \<longleftrightarrow> name_ok (ze_php_version Z) \<and> name_ok (ze_sapi_name Z) \<and> opt_ok (ze_path_translated Z) \<and>
     opt_ok (ze_request_method Z) \<and> opt_ok (ze_request_uri Z) \<and>
     length (arr (ze_argv Z)) = nat (sint (ze_argc Z)) \<and> length (arr (ze_argv Z)) < 2 ^ 15 \<and> list_all opt_ok (arr (ze_argv Z)) \<and>
     (\<forall>c f. name_ok (ze_resolve_method_name Z c f))"

lemma ex_ok_prev: "ex_ok Z ex \<Longrightarrow> ex_prev ex = Some p \<Longrightarrow> ex_ok Z p"
  by (cases ex) auto

lemma ex_ok_func:
  assumes "ex_ok Z ex"
  obtains zf where "ex_func ex = Some zf" and "func_ok Z zf"
  using assms by (cases ex) (auto split: option.splits)

lemma ex_ok_args: "ex_ok Z ex \<Longrightarrow> zval_ok (ex_slot ex i) \<and> ex_num_args ex < 2 ^ 15"
  by (cases ex) auto

lemma name_cap: "name_ok s \<Longrightarrow> length s \<le> sds_cap"
  by (simp add: name_ok_def sds_cap_def)

lemma cstr_short: "length (cstr s) \<le> length s"
  using strlen_le [of s] by (simp add: strlen_def)

text \<open>Strings and frames small enough that the packed frame fits in a message length.\<close>

definition sds_small :: "sds \<Rightarrow> bool" where
  "sds_small s = (case s of None \<Rightarrow> True | Some s \<Rightarrow> sds_wf s \<and> length (sds_str s) \<le> 2 ^ 15)"

definition frame_small :: "pt_frame_t \<Rightarrow> bool" where
  "frame_small f \<longleftrightarrow> sds_small (fr_filename f) \<and> sds_small (fr_class f) \<and> sds_small (fr_function f) \<and>
     sds_small (fr_retval f) \<and> list_all sds_small (arr (fr_args f)) \<and>
     args_ok (unat (fr_arg_count f)) (fr_args f) \<and> length (arr (fr_args f)) < 2 ^ 15"

lemma sds_small_ok: "sds_small s \<Longrightarrow> sds_ok s"
  by (simp add: sds_small_def sds_ok_def split: option.splits)

lemma frame_small_ok: "frame_small f \<Longrightarrow> frame_ok f"
  by (auto simp: frame_small_def frame_ok_def list_all_iff intro: sds_small_ok)

lemma length_enc_small: "sds_small s \<Longrightarrow> length (enc_str (map_option sds_str s)) \<le> 2 ^ 15 + 4"
  by (simp add: sds_small_def length_enc_str split: option.splits)

lemma length_enc_smalls:
  "list_all sds_small ss \<Longrightarrow>
   length (concat (map (\<lambda>s. enc_str (map_option sds_str s)) ss)) \<le> length ss * (2 ^ 15 + 4)"
proof (induction ss)
  case (Cons s ss)
  with length_enc_small [of s] show ?case by simp
qed simp

lemma length_enc_frame_small:
  assumes "frame_small f"
  shows "length (enc_frame f) < 2 ^ 31"
proof -
  have "length (arr (fr_args f)) * (2 ^ 15 + 4) \<le> 2 ^ 15 * (2 ^ 15 + 4)"
    using assms by (intro mult_le_mono1) (simp add: frame_small_def)
  with assms length_enc_smalls [of "arr (fr_args f)"] length_enc_small [of "fr_filename f"]
    length_enc_small [of "fr_class f"] length_enc_small [of "fr_function f"] length_enc_small [of "fr_retval f"]
  show ?thesis by (simp add: frame_small_def enc_frame_def)
qed

lemma makes_ok: "makes r t \<Longrightarrow> length t \<le> 2 ^ 15 \<Longrightarrow> \<exists>s. r = Some s \<and> sds_small s"
  by (auto simp: makes_def sds_small_def)

lemma length_zval_text: "zval_ok v \<Longrightarrow> length (zval_text Z v) \<le> 2 ^ 15"
proof (induction v)
  case (IS_LONG n)
  then show ?case using length_dec_long [of n] by simp
next
  case (IS_DOUBLE d)
  then show ?case using cstr_short [of "take 255 (ze_fmt_double Z d)"] by simp
next
  case (IS_STRING s)
  have "length (repr (take 32 s)) \<le> 130" using length_repr [of "take 32 s"] by simp
  then show ?case by (cases "32 < length s") simp_all
next
  case (IS_ARRAY n)
  then show ?case using length_dec_sint [of n] by simp
next
  case (IS_OBJECT c h)
  then show ?case using length_dec_sint [of h] cstr_short [of c] by (simp add: name_ok_def)
next
  case (IS_RESOURCE t h)
  then show ?case
    using length_dec_sint [of h] cstr_short [of "the t"] by (cases t) (simp_all add: opt_ok_def name_ok_def)
qed auto

lemma sdsnew_name_ok:
  assumes "roomy E" and "name_ok s"
  shows "\<exists>r. sdsnew E (Some s) = Some r \<and> sds_small r"
  using makes_ok [OF makes_sdsnew [OF assms(1) name_cap [OF assms(2)]]] cstr_short [of s] assms(2)
  by (simp add: name_ok_def)

lemma sdsnew_zstr_ok:
  "roomy E \<Longrightarrow> opt_ok s \<Longrightarrow> s \<noteq> None \<Longrightarrow> \<exists>r. sdsnew_zstr E s = Some r \<and> sds_small r"
  by (auto simp: sdsnew_zstr_def opt_ok_def intro!: sdsnew_name_ok split: option.splits)

lemma frame_class_ok:
  assumes "roomy E" and "func_ok Z zf"
  shows "\<exists>bits cls warn. frame_class E ex zf = Some (bits, cls, warn) \<and> sds_small cls \<and>
    warn = (ex_this ex \<noteq> None \<and> zf_scope zf = None)"
proof (cases "zf_scope zf")
  case None
  then show ?thesis by (auto simp: frame_class_def sds_small_def)
next
  case (Some c)
  with assms obtain r where "sdsnew_zstr E (cl_name c) = Some r" "sds_small r"
    using sdsnew_zstr_ok [OF assms(1), of "cl_name c"] by (auto simp: func_ok_def class_ok_def)
  with Some show ?thesis by (auto simp: frame_class_def)
qed

lemma frame_function_ok:
  assumes ok: "roomy E" "env_ok Z" "func_ok Z zf" and name: "zf_function_name zf = Some name"
  shows "\<exists>r. frame_function E Z ex zf name = Some r \<and> sds_small r"
proof (cases "strcmp_eq name ''{closure}'' \<or> strcmp_eq name ''__lambda_func''")
  case True
  then obtain fname where fname: "zf_filename zf = Some fname" "name_ok fname"
    using ok(3) name by (auto simp: func_ok_def opt_ok_def split: option.splits)
  let ?c = "''{closure:'' @ cstr fname @ '':'' @ dec_int (sint (zf_line_start zf)) @ ''-'' @
    dec_int (sint (zf_line_end zf)) @ ''}''"
  have len: "length ?c \<le> 2 ^ 15" "length (''{lambda:'' @ cstr fname @ ''}'') \<le> 2 ^ 15"
    using fname(2) cstr_short [of fname] length_dec_sint [of "zf_line_start zf"] length_dec_sint [of "zf_line_end zf"]
    by (simp_all add: name_ok_def)
  have fmt: "\<exists>r. sds_fmt E s = Some r \<and> sds_small r" if "length s \<le> 2 ^ 15" for s
    using makes_ok [OF makes_fmt [OF ok(1), of s]] that cstr_short [of s] by (simp add: sds_cap_def)
  have "\<exists>r. sds_fmt E ?c = Some r \<and> sds_small r" and
    "\<exists>r. sds_fmt E (''{lambda:'' @ cstr fname @ ''}'') = Some r \<and> sds_small r"
    using fmt [OF len(1)] fmt [OF len(2)] by simp_all
  with True fname show ?thesis by (auto simp: frame_function_def)
next
  case False
  from sdsnew_name_ok [OF ok(1)] False ok name show ?thesis
    by (auto simp: frame_function_def func_ok_def opt_ok_def env_ok_def split: option.split)
qed

lemma frame_arg_values_ok:
  assumes "ex_ok Z ex"
  shows "list_all zval_ok (frame_arg_values ex zf)" and "length (frame_arg_values ex zf) = ex_num_args ex"
  using ex_ok_args [OF assms] by (auto simp: frame_arg_values_def list_all_iff Let_def)

lemma repr_args_ok:
  "roomy E \<Longrightarrow> list_all zval_ok vs \<Longrightarrow>
   \<exists>ss. repr_args E Z vs = Some ss \<and> list_all sds_small ss \<and> length ss = length vs"
proof (induction vs)
  case (Cons v vs)
  with makes_ok [OF repr_zval_spec [of E v Z] length_zval_text] show ?case by auto
qed simp

lemma frame_args_ok:
  assumes "roomy E" and "ex_ok Z ex"
  shows "\<exists>count args. frame_args E Z ex zf = Some (count, args) \<and> list_all sds_small (arr args) \<and>
    args_ok (unat count) args \<and> length (arr args) < 2 ^ 15"
proof -
  obtain ss where ss: "repr_args E Z (frame_arg_values ex zf) = Some ss" "list_all sds_small ss"
    "length ss = ex_num_args ex"
    using repr_args_ok [OF assms(1) frame_arg_values_ok(1) [OF assms(2)], of Z zf]
    by (auto simp: frame_arg_values_ok(2) [OF assms(2)])
  moreover have "unat (word_of_nat (ex_num_args ex) :: u32) = ex_num_args ex"
    using ex_ok_args [OF assms(2), of 0] by (simp add: unat_of_nat)
  ultimately show ?thesis
    using assms(1) ex_ok_args [OF assms(2), of 0] by (auto simp: frame_args_def calloc_array_def arr_def args_ok_def)
qed

lemma frame_named_ok:
  assumes "roomy E" and "env_ok Z" and "ex_ok Z ex" and "func_ok Z zf" and "zf_function_name zf = Some name"
    and "frame_small f"
  shows "\<exists>f' warn. frame_named E Z ex zf name f = Some (f', warn) \<and> frame_small f' \<and>
    fr_type f' = fr_type f \<and> fr_level f' = fr_level f \<and> fr_retval f' = fr_retval f"
  using frame_class_ok [OF assms(1,4), of ex] frame_function_ok [OF assms(1,2,4,5), of ex]
    frame_args_ok [OF assms(1,3), of zf] assms(6)
  by (auto simp: frame_named_def frame_small_def)

lemma special_name_ok: "special_function ev = (bits, name, add) \<Longrightarrow> name_ok name"
  by (auto simp: special_function_def name_ok_def split: option.splits zend_ev.splits)

lemma frame_special_ok:
  assumes ok: "roomy E" "func_ok Z zf" and name: "zf_function_name zf = None" and f: "frame_small f"
  shows "\<exists>f'. frame_special E caller zf f = Some f' \<and> frame_small f' \<and>
    fr_type f' = fr_type f \<and> fr_level f' = fr_level f \<and> fr_retval f' = fr_retval f"
proof -
  obtain fname where fname: "zf_filename zf = Some fname" "name_ok fname"
    using ok(2) name by (auto simp: func_ok_def opt_ok_def split: option.splits)
  define ev where "ev = (case caller of None \<Rightarrow> None | Some c \<Rightarrow> map_option op_extended_value (ex_opline c))"
  obtain bits nm add where sp: "special_function ev = (bits, nm, add)" by (cases "special_function ev")
  obtain r where r: "sdsnew E (Some nm) = Some r" "sds_small r"
    using sdsnew_name_ok [OF ok(1) special_name_ok [OF sp]] by blast
  have cap: "4 * strlen fname + 2 \<le> 2 ^ 15"
    using fname(2) strlen_le [of fname] by (simp add: name_ok_def)
  then have "length (repr (take (strlen fname) fname)) \<le> 2 ^ 15"
    using length_repr [of "cstr fname"] by (simp add: strlen_def [symmetric])
  then obtain q where q: "sds_quote E fname (strlen fname) = Some q" "sds_small q"
    using makes_ok [OF makes_quote [OF ok(1) strlen_le [of fname]]] cap by (auto simp: sds_cap_def)
  show ?thesis
    using r q f fname sp ok(1)
    by (cases add) (auto simp: frame_special_def ev_def [symmetric] frame_small_def calloc_array_def arr_def
        args_ok_def Let_def)
qed

lemma frame_filename_ok:
  assumes "roomy E" and "ex_ok Z c"
  shows "\<exists>r. frame_filename E (Some c) None = Some r \<and> sds_small r"
proof -
  have "\<exists>r. sdsnew_zstr E (zf_filename f) = Some r \<and> sds_small r" if "func_ok Z f" "ZEND_USER_CODE (zf_type f)" for f
    using that by (intro sdsnew_zstr_ok assms) (auto simp: func_ok_def)
  moreover have "func_ok Z f \<and> ZEND_USER_CODE (zf_type f)" if "user_func (Some x) = Some f" "ex_ok Z x" for f x
    using that by (cases x) (auto simp: user_func_def split: option.splits if_splits)
  moreover have "ex_ok Z x" if "prev_of (Some c) = Some x" for x
    using that assms(2) ex_ok_prev by (auto simp: prev_of_def)
  moreover have "user_func None = None" by (simp add: user_func_def)
  ultimately show ?thesis
    using assms(2) by (cases "prev_of (Some c)") (auto simp: frame_filename_def sds_small_def split: option.split)
qed

lemma skip_ok:
  assumes "ex_ok Z c"
  shows "\<exists>c'. skip_internal_handler (skip_no_opcodes (Some c)) = Some c' \<and> ex_ok Z c'"
proof -
  have "\<exists>c'. skip_no_opcodes (Some c) = Some c' \<and> ex_ok Z c'" if "ex_ok Z c" for c
    using that ex_ok_prev [OF that] by (auto simp: skip_no_opcodes_def)
  moreover have "\<exists>c'. skip_internal_handler (Some c) = Some c' \<and> ex_ok Z c'" if "ex_ok Z c" for c
    using that ex_ok_prev [OF that] by (auto simp: skip_internal_handler_def)
  ultimately show ?thesis using assms by metis
qed

lemma frame_build_ok:
  assumes "roomy E" and "env_ok Z" and "ex_ok Z ex" and "ex_ok Z caller"
  shows "\<exists>f warn. frame_build E Z level internal type (Some caller) ex None = Some (f, warn) \<and> frame_small f \<and>
    fr_type f = type \<and> fr_level f = word_of_int level \<and> fr_retval f = None"
proof -
  obtain zf where zf: "ex_func ex = Some zf" "func_ok Z zf" using assms(3) by (rule ex_ok_func)
  let ?f = "zero_frame\<lparr>fr_type := type, fr_functype := (if internal then PT_FUNC_INTERNAL else 0x00),
    fr_level := word_of_int level\<rparr>"
  have "frame_small ?f" by (simp add: zero_frame_def frame_small_def sds_small_def arr_def args_ok_def)
  then obtain f warn where f: "(case zf_function_name zf of
      Some name \<Rightarrow> frame_named E Z ex zf name ?f
    | None \<Rightarrow> map_option (\<lambda>f. (f, False)) (frame_special E (Some caller) zf ?f)) = Some (f, warn)"
    "frame_small f" "fr_type f = type" "fr_level f = word_of_int level" "fr_retval f = None"
    using frame_named_ok [OF assms(1-3) zf(2), of _ ?f] frame_special_ok [OF assms(1) zf(2), of ?f]
    by (cases "zf_function_name zf") (fastforce simp: zero_frame_def)+
  obtain c where c: "skip_internal_handler (skip_no_opcodes (Some caller)) = Some c" "ex_ok Z c"
    using skip_ok [OF assms(4)] by blast
  obtain r where "frame_filename E (Some c) None = Some r" "sds_small r"
    using frame_filename_ok [OF assms(1) c(2)] by blast
  with f c zf show ?thesis
    by (auto simp: frame_build_def obtain_zend_function_def frame_small_def)
qed

lemma opt_str_ok: "opt_ok s \<Longrightarrow> str_ok s"
  using cstr_short [of "the s"] by (cases s) (auto simp: opt_ok_def name_ok_def str_ok_def short_def)

lemma request_build_ok: "env_ok Z \<Longrightarrow> request_ok (request_build Z type)"
  by (auto simp: env_ok_def request_build_def request_ok_def args_ok_def list_all_iff opt_ok_def
      intro!: opt_str_ok)

lemma stack_frames_ok:
  assumes "roomy E" and "env_ok Z" and "case ex of None \<Rightarrow> True | Some c \<Rightarrow> ex_ok Z c"
  shows "\<exists>fs. stack_frames E Z level internal ex = Some fs \<and> list_all frame_ok fs \<and> length fs = stack_depth ex \<and>
    list_all (\<lambda>f. fr_type f = PT_FRAME_STACK \<and> fr_level f = 1) fs"
  using assms(3)
proof (induction ex rule: stack_depth.induct)
  case (2 f t op n sl rv prev)
  let ?ex = "Ex f t op n sl rv prev"
  have ok: "ex_ok Z ?ex" using "2.prems" by simp
  then have "case prev of None \<Rightarrow> True | Some c \<Rightarrow> ex_ok Z c" by simp
  from "2.IH" [OF this] obtain fs where fs: "stack_frames E Z level internal prev = Some fs"
    "list_all frame_ok fs" "length fs = stack_depth prev"
    "list_all (\<lambda>f. fr_type f = PT_FRAME_STACK \<and> fr_level f = 1) fs" by blast
  obtain fr warn where fr: "frame_build E Z level internal PT_FRAME_STACK (Some ?ex) ?ex None = Some (fr, warn)"
    "frame_small fr" "fr_type fr = PT_FRAME_STACK"
    using frame_build_ok [OF assms(1,2) ok ok, of level internal PT_FRAME_STACK] by auto
  have "frame_ok (fr\<lparr>fr_level := 1\<rparr>)" using frame_small_ok [OF fr(2)] by (simp add: frame_ok_def)
  with fs fr show ?case by simp
qed simp

lemma status_build_ok:
  assumes "roomy E" and "env_ok Z" and "case ex of None \<Rightarrow> True | Some c \<Rightarrow> ex_ok Z c"
    and "stack_depth ex < 2 ^ 32"
  shows "\<exists>s. status_build E Z level internal ex = Some s \<and> status_ok s \<and>
    unat (st_frame_count s) = stack_depth ex \<and>
    list_all (\<lambda>f. fr_type f = PT_FRAME_STACK \<and> fr_level f = 1) (arr (st_frames s))"
proof -
  obtain fs where fs: "stack_frames E Z level internal ex = Some fs" "list_all frame_ok fs"
    "length fs = stack_depth ex" "list_all (\<lambda>f. fr_type f = PT_FRAME_STACK \<and> fr_level f = 1) fs"
    using stack_frames_ok [OF assms(1-3)] by blast
  have v: "name_ok (ze_php_version Z)" using assms(2) by (simp add: env_ok_def)
  then have version: "sdsnew E (Some (ze_php_version Z)) = Some (Some (mk_sds (cstr (ze_php_version Z))))"
    using assms(1) strlen_le [of "ze_php_version Z"] by (intro sdsnew_str) (simp_all add: name_ok_def)
  have count: "unat (word_of_nat (stack_depth ex) :: u32) = stack_depth ex"
    using assms(4) by (simp add: unat_of_nat)
  have ver_ok: "str_ok (Some (cstr (ze_php_version Z) @ [NUL]))"
    using v cstr_short [of "ze_php_version Z"] by (simp add: str_ok_def short_def name_ok_def)
  show ?thesis
    using fs version count ver_ok assms(1) request_build_ok [OF assms(2), of PT_FRAME_STACK]
    by (auto simp: status_build_def calloc_array_def status_ok_def arr_def args_ok_def mk_sds_def)
qed

section \<open>How long a status gets\<close>

text \<open>The number of calls and arguments on the stack.\<close>

fun stack_args :: "zend_execute_data option \<Rightarrow> nat" where
  "stack_args None = 0"
| "stack_args (Some (Ex f t op n sl rv prev)) = Suc n + stack_args prev"

lemma stack_depth_args: "stack_depth ex \<le> stack_args ex"
  by (induction ex rule: stack_depth.induct) auto

lemma length_enc_frame_le:
  assumes "frame_small f" and "length (arr (fr_args f)) \<le> Suc n"
  shows "length (enc_frame f) \<le> 6 * Suc n * (2 ^ 15 + 4)"
proof -
  have "length (arr (fr_args f)) * (2 ^ 15 + 4) \<le> Suc n * (2 ^ 15 + 4)" using assms(2) by (rule mult_le_mono1)
  with assms length_enc_smalls [of "arr (fr_args f)"] length_enc_small [of "fr_filename f"]
    length_enc_small [of "fr_class f"] length_enc_small [of "fr_function f"] length_enc_small [of "fr_retval f"]
  show ?thesis by (simp add: frame_small_def enc_frame_def)
qed

lemma repr_args_length: "repr_args E Z vs = Some ss \<Longrightarrow> length ss = length vs"
  by (induction vs arbitrary: ss) (auto simp: bind_eq_Some_conv)

lemma frame_build_args:
  assumes "ex_ok Z ex" and "frame_build E Z level internal type caller ex op_array = Some (f, warn)"
  shows "length (arr (fr_args f)) \<le> Suc (ex_num_args ex)"
proof -
  have "length (arr (fr_args f')) \<le> Suc (ex_num_args ex)"
    if "frame_named E Z ex zf name g = Some (f', w)" for zf name g f' w
    using that by (auto simp: frame_named_def frame_args_def bind_eq_Some_conv calloc_array_def arr_def
        frame_arg_values_ok(2) [OF assms(1)] dest!: repr_args_length split: if_splits)
  moreover have "length (arr (fr_args f')) \<le> 1"
    if "frame_special E caller zf g = Some f'" "fr_args g = None" for zf g f'
    using that by (auto simp: frame_special_def Let_def bind_eq_Some_conv calloc_array_def arr_def
        split: if_splits prod.splits)
  ultimately show ?thesis
    using assms(2) by (fastforce simp: frame_build_def bind_eq_Some_conv zero_frame_def Let_def split: option.splits)
qed

lemma length_stack_frames:
  assumes "roomy E" and "env_ok Z" and "case ex of None \<Rightarrow> True | Some c \<Rightarrow> ex_ok Z c"
    and "stack_frames E Z level internal ex = Some fs"
  shows "length (concat (map enc_frame fs)) \<le> 6 * stack_args ex * (2 ^ 15 + 4)"
  using assms(3,4)
proof (induction ex arbitrary: fs rule: stack_args.induct)
  case (2 f t op n sl rv prev)
  let ?ex = "Ex f t op n sl rv prev"
  have ok: "ex_ok Z ?ex" using "2.prems" by simp
  obtain fr warn where fr: "frame_build E Z level internal PT_FRAME_STACK (Some ?ex) ?ex None = Some (fr, warn)"
    "frame_small fr" using frame_build_ok [OF assms(1,2) ok ok, of level internal PT_FRAME_STACK] by auto
  obtain gs where gs: "stack_frames E Z level internal prev = Some gs" "fs = fr\<lparr>fr_level := 1\<rparr> # gs"
    using "2.prems"(2) fr(1) by (auto simp: bind_eq_Some_conv)
  have "length (enc_frame (fr\<lparr>fr_level := 1\<rparr>)) \<le> 6 * Suc n * (2 ^ 15 + 4)"
    using length_enc_frame_le [OF fr(2), of n] frame_build_args [OF ok fr(1)] by (simp add: enc_frame_def)
  moreover have "length (concat (map enc_frame gs)) \<le> 6 * stack_args prev * (2 ^ 15 + 4)"
    using "2.IH" [OF _ gs(1)] ok by simp
  ultimately show ?case by (simp add: gs(2) algebra_simps)
qed simp

lemma length_enc_opt: "opt_ok s \<Longrightarrow> length (enc_str (map_option cstr s)) \<le> 2 ^ 12 + 4"
  using cstr_short [of "the s"] by (cases s) (auto simp: opt_ok_def name_ok_def length_enc_str)

lemma length_enc_opts:
  "list_all opt_ok ss \<Longrightarrow> length (concat (map (\<lambda>s. enc_str (map_option cstr s)) ss)) \<le> length ss * (2 ^ 12 + 4)"
proof (induction ss)
  case (Cons s ss)
  with length_enc_opt [of s] show ?case by simp
qed simp

lemma length_enc_request:
  assumes "env_ok Z"
  shows "length (enc_request (request_build Z type)) \<le> 2 ^ 28"
proof -
  have "length (arr (ze_argv Z)) * (2 ^ 12 + 4) \<le> 2 ^ 15 * (2 ^ 12 + 4)"
    using assms by (intro mult_le_mono1) (simp add: env_ok_def)
  with assms length_enc_opts [of "arr (ze_argv Z)"] length_enc_opt [of "Some (ze_sapi_name Z)"]
    length_enc_opt [of "ze_path_translated Z"] length_enc_opt [of "ze_request_method Z"]
    length_enc_opt [of "ze_request_uri Z"]
  show ?thesis by (simp add: env_ok_def opt_ok_def request_build_def enc_request_def)
qed

lemma length_enc_status:
  assumes "roomy E" and "env_ok Z" and "case ex of None \<Rightarrow> True | Some c \<Rightarrow> ex_ok Z c"
    and "stack_args ex \<le> 2 ^ 13" and "status_build E Z level internal ex = Some s"
  shows "length (enc_status s) < 2 ^ 31"
proof -
  have v: "name_ok (ze_php_version Z)" using assms(2) by (simp add: env_ok_def)
  then have version: "sdsnew E (Some (ze_php_version Z)) = Some (Some (mk_sds (cstr (ze_php_version Z))))"
    using assms(1) strlen_le [of "ze_php_version Z"] by (intro sdsnew_str) (simp_all add: name_ok_def)
  obtain fs where fs: "stack_frames E Z level internal ex = Some fs" "arr (st_frames s) = fs \<or> arr (st_frames s) = []"
    "st_request s = request_build Z PT_FRAME_STACK" "st_php_version s = Some (mk_sds (cstr (ze_php_version Z)))"
    using assms(5) version
    by (auto simp: status_build_def bind_eq_Some_conv calloc_array_def arr_def split: if_splits)
  have "6 * stack_args ex * (2 ^ 15 + 4) \<le> 6 * 2 ^ 13 * (2 ^ 15 + 4)"
    using assms(4) by (intro mult_le_mono1 mult_le_mono2)
  then have "length (concat (map enc_frame (arr (st_frames s)))) \<le> 6 * 2 ^ 13 * (2 ^ 15 + 4)"
    using fs(2) length_stack_frames [OF assms(1-3) fs(1)] by auto
  moreover have "length (cstr (ze_php_version Z)) \<le> 2 ^ 12"
    using v cstr_short [of "ze_php_version Z"] by (simp add: name_ok_def)
  ultimately show ?thesis
    using length_enc_request [OF assms(2), of PT_FRAME_STACK]
    by (simp add: enc_status_def fs length_enc_str mk_sds_def)
qed

section \<open>Properties of what is reported\<close>

text \<open>An engine and a stack of two calls for the witnesses.\<close>

definition sample_env :: zend_env where
  "sample_env = \<lparr>ze_php_version = ''7.1.0'', ze_sapi_name = ''cli'', ze_fmt_double = (\<lambda>_. ''0.5''),
     ze_resolve_method_name = (\<lambda>_ _. ''m''), ze_memory_usage = (\<lambda>_. 1), ze_memory_peak_usage = (\<lambda>_. 2),
     ze_path_translated = Some ''a.php'', ze_global_request_time = 5, ze_request_method = None,
     ze_request_uri = None, ze_argc = 1, ze_argv = Some [Some ''a.php'']\<rparr>"

definition sample_main :: zend_execute_data where
  "sample_main = Ex (Some \<lparr>zf_type = ZEND_USER_FUNCTION, zf_function_name = None, zf_scope = None,
      zf_filename = Some ''a.php'', zf_line_start = 1, zf_line_end = 9, zf_num_args = 0, zf_last_var = 0,
      zf_T = 0, zf_opcodes = Some \<lparr>op_opcode = ZEND_DO_UCALL, op_lineno = 3, op_extended_value = Other_Ev 0\<rparr>\<rparr>)
    None (Some \<lparr>op_opcode = ZEND_DO_UCALL, op_lineno = 3, op_extended_value = Other_Ev 0\<rparr>) 0
    (\<lambda>_. IS_UNDEF) False None"

definition sample_call :: zend_execute_data where
  "sample_call = Ex (Some \<lparr>zf_type = ZEND_USER_FUNCTION, zf_function_name = Some ''f'', zf_scope = None,
      zf_filename = Some ''a.php'', zf_line_start = 5, zf_line_end = 7, zf_num_args = 1, zf_last_var = 1,
      zf_T = 2, zf_opcodes = None\<rparr>)
    None None 2 (\<lambda>i. if i = 0 then IS_LONG 4 else IS_STRING ''s'') False (Some sample_main)"

lemma sample_engine_ok [simp]: "env_ok sample_env" "ex_ok sample_env sample_main" "ex_ok sample_env sample_call"
proof -
  show "env_ok sample_env"
    by (simp add: env_ok_def sample_env_def name_ok_def opt_ok_def arr_def)
  show m: "ex_ok sample_env sample_main"
    by (simp add: sample_main_def func_ok_def opt_ok_def name_ok_def)
  show "ex_ok sample_env sample_call"
    using m by (simp add: sample_call_def func_ok_def opt_ok_def name_ok_def)
qed

text \<open>
  C29: Every value has a representation, and it is the expected text: literals for the constants,
  decimal digits, the class and the handle of an object, and for a string its first 32 bytes quoted
  so that \<open>sdssplitargs\<close> reads them back, with an ellipsis exactly when the string was cut.
\<close>

theorem repr_zval_text:
  assumes "roomy E" and "zval_ok v"
  shows "\<exists>s. repr_zval E Z 32 v = Some (Some s) \<and> sds_wf s \<and> sds_str s = zval_text Z v \<and>
    (case v of
       IS_STRING bs \<Rightarrow> \<exists>q. sds_str s = q @ (if 32 < length bs then ''...'' else []) \<and>
         sdssplitargs q = Some [take 32 bs]
     | _ \<Rightarrow> True)"
proof -
  obtain s where s: "repr_zval E Z 32 v = Some (Some s)" "sds_wf s" "sds_str s = zval_text Z v"
    using repr_zval_spec [OF assms, of Z] by (rule makesE)
  moreover have "\<exists>q. zval_text Z (IS_STRING bs) = q @ (if 32 < length bs then ''...'' else []) \<and>
      sdssplitargs q = Some [take 32 bs]" for bs
    using sdssplitargs_repr [of "take 32 bs"] by auto
  ultimately show ?thesis by (intro exI [of _ s]) (auto simp: sdssplitargs_repr split: zval.split)
qed

theorem repr_zval_text_witness:
  "\<exists>s. repr_zval full_env sample_env 32 (IS_REFERENCE (IS_STRING (replicate 40 CHR ''x''))) = Some (Some s) \<and>
     sds_wf s \<and> sds_str s = repr (replicate 32 CHR ''x'') @ ''...''"
  using repr_zval_text [of full_env "IS_REFERENCE (IS_STRING (replicate 40 CHR ''x''))" sample_env] by auto





end
