(* ===== verification/Trace_Filter.thy ===== *)
theory Trace_Filter
  imports Wire
begin

text \<open>
  The filter module (\<open>common/trace_filter.h\<close>, \<open>common/trace_filter.c\<close>): the filter structure,
  the names of its types, its construction and destruction, and its packed form.
\<close>

section \<open>The filter\<close>

definition MAX_FILTER_LENGTH :: nat where "MAX_FILTER_LENGTH = 256"

definition PT_FILTER_EMPTY :: u8 where "PT_FILTER_EMPTY = push_bit 0 1"
definition PT_FILTER_URL :: u8 where "PT_FILTER_URL = push_bit 1 1"
definition PT_FILTER_FUNCTION_NAME :: u8 where "PT_FILTER_FUNCTION_NAME = push_bit 2 1"
definition PT_FILTER_CLASS_NAME :: u8 where "PT_FILTER_CLASS_NAME = push_bit 3 1"

record pt_filter_t =
  ft_type :: u8
  ft_content :: sds

text \<open>\<open>sizeof(pt_filter_t)\<close>: one byte, seven bytes of padding and a pointer.\<close>

definition PT_FILTER_SIZE :: nat where
  "PT_FILTER_SIZE = 16"

definition filter_name_map_type :: "(bytes \<times> u8) list" where
  "filter_name_map_type =
     [(''url'', PT_FILTER_URL), (''function'', PT_FILTER_FUNCTION_NAME), (''class'', PT_FILTER_CLASS_NAME)]"

fun search_loop :: "(bytes \<times> u8) list \<Rightarrow> bytes \<Rightarrow> u8 \<Rightarrow> u8" where
  "search_loop [] type_name filter_type = filter_type"
| "search_loop ((name, t) # rest) type_name filter_type =
     (if strcmp_eq name type_name then t else search_loop rest type_name filter_type)"

text \<open>The new value of \<open>*filter_type\<close>; \<open>strcmp\<close> of a \<open>NULL\<close> name is undefined.\<close>

definition pt_filter_search_filter_type :: "bytes option \<Rightarrow> u8 \<Rightarrow> u8 option" where
  "pt_filter_search_filter_type type_name filter_type =
     (case type_name of
        None \<Rightarrow> None
      | Some s \<Rightarrow> if cstr s = [] then Some filter_type
                  else Some (search_loop filter_name_map_type s filter_type))"

definition pt_filter_pack_filter_msg :: "pt_filter_t \<Rightarrow> cursor \<Rightarrow> cursor option" where
  "pt_filter_pack_filter_msg f buf = do {
     buf \<leftarrow> PACK (ft_type f) buf;
     PACK_SDS (ft_content f) buf
   }"

definition pt_filter_unpack_filter_msg :: "mem_env \<Rightarrow> bytes \<Rightarrow> (pt_filter_t \<times> bytes) option" where
  "pt_filter_unpack_filter_msg E buf = do {
     (type, buf) \<leftarrow> UNPACK buf;
     (content, buf) \<leftarrow> UNPACK_SDS E buf;
     Some (\<lparr>ft_type = type, ft_content = content\<rparr>, buf)
   }"

definition pt_filter_ctr :: "mem_env \<Rightarrow> pt_filter_t \<Rightarrow> pt_filter_t option" where
  "pt_filter_ctr E f =
     (let f = f\<lparr>ft_type := PT_FILTER_EMPTY\<rparr> in
      if ft_content f = None then do { c \<leftarrow> sdsempty E; Some (f\<lparr>ft_content := c\<rparr>) } else Some f)"

definition pt_filter_dtr :: "pt_filter_t \<Rightarrow> pt_filter_t" where
  "pt_filter_dtr f = f\<lparr>ft_content := None, ft_type := PT_FILTER_EMPTY\<rparr>"

section \<open>The filter is a wire type\<close>

definition enc_filter :: "pt_filter_t \<Rightarrow> bytes" where
  "enc_filter f = enc_int (ft_type f) @ enc_str (map_option sds_str (ft_content f))"

definition filter_len :: "pt_filter_t \<Rightarrow> nat option" where
  "filter_len f = Some (1 + LEN_SDS (ft_content f))"

definition img_filter :: "pt_filter_t \<Rightarrow> pt_filter_t" where
  "img_filter f = f\<lparr>ft_content := img_sds (ft_content f)\<rparr>"

interpretation filter_wire: wire_type pt_filter_pack_filter_msg filter_len enc_filter
  "pt_filter_unpack_filter_msg E" "\<lambda>f. sds_ok (ft_content f) \<and> roomy E" img_filter for E
proof unfold_locales
  fix f :: pt_filter_t and c r
  assume wf: "sds_ok (ft_content f) \<and> roomy E"
  show "pt_filter_pack_filter_msg f c = poke (enc_filter f) c"
    using wf by (simp add: pt_filter_pack_filter_msg_def enc_filter_def sds_wire.pk_enc [of _ E] mem_simps)
  show "filter_len f = Some (length (enc_filter f))"
    using wf sds_wire.sz_enc [of "ft_content f" E] by (simp add: filter_len_def enc_filter_def)
  show "pt_filter_unpack_filter_msg E (enc_filter f @ r) = Some (img_filter f, r)"
    using wf by (simp add: pt_filter_unpack_filter_msg_def enc_filter_def img_filter_def sds_wire.dec_enc)
next
  show "extensible (pt_filter_unpack_filter_msg E)"
    unfolding pt_filter_unpack_filter_msg_def [abs_def] by (intro ext_intros)
qed

lemma length_enc_filter:
  "sds_ok (ft_content f) \<Longrightarrow>
   length (enc_filter f) = 5 + (case ft_content f of None \<Rightarrow> 0 | Some s \<Rightarrow> length (sds_str s))"
  by (auto simp: enc_filter_def length_enc_str split: option.split)

section \<open>Properties of the filter\<close>

text \<open>
  A filter packed with the room its type byte and content need is unpacked to the same type and
  content, and nothing outside that room changes.
\<close>

lemma filter_roundtrip:
  assumes "sds_ok (ft_content f)" and "roomy E" and "p + 1 + LEN_SDS (ft_content f) \<le> length b"
  shows "\<exists>b'. pt_filter_pack_filter_msg f (b, p) = Some (b', p + 1 + LEN_SDS (ft_content f)) \<and>
    length b' = length b \<and> take p b' = take p b \<and>
    pt_filter_unpack_filter_msg E (drop p b') =
      Some (f\<lparr>ft_content := img_sds (ft_content f)\<rparr>, drop (p + 1 + LEN_SDS (ft_content f)) b)"
  using filter_wire.pack_room [of f E "1 + LEN_SDS (ft_content f)" p b] assms
  by (auto simp: filter_len_def img_filter_def add.assoc)

text \<open>
  \<open>pt_filter_search_filter_type\<close> maps the names of the table to their types and leaves the type
  alone for every other name; it only reads the name up to its NUL.
\<close>

lemma filter_search_functional:
  "pt_filter_search_filter_type (Some s) t = Some
     (if cstr s = ''url'' then PT_FILTER_URL
      else if cstr s = ''function'' then PT_FILTER_FUNCTION_NAME
      else if cstr s = ''class'' then PT_FILTER_CLASS_NAME
      else t)"
  by (auto simp: pt_filter_search_filter_type_def filter_name_map_type_def strcmp_eq_def)

end
