(* ===== verification/Trace_Comm.thy ===== *)
theory Trace_Comm
  imports Trace_Prelude Wire
begin

text \<open>
  The communication module (\<open>common/trace_comm.h\<close>, \<open>common/trace_comm.c\<close>): the growing message
  buffer, messages, sending and receiving them over a stream socket.

  A stream socket delivers the bytes of its peer in pieces of any size. Its incoming side is the
  list of what happens next: a piece arrives, nothing has arrived yet when a non-blocking call
  asks, or the call fails; the end of the list is the end of the stream. The outgoing side is the
  list of the bytes sent, with a list that says which of the next calls fail.
\<close>

section \<open>Sockets\<close>

datatype sock_ev = Chunk bytes | Idle | Fail

datatype recv_result = Again | Error | Data bytes

text \<open>\<open>recv\<close> of at most \<open>n\<close> bytes; \<open>nb\<close> is \<open>MSG_DONTWAIT\<close>. \<open>Data []\<close> is the result 0.\<close>

fun sock_recv :: "bool \<Rightarrow> nat \<Rightarrow> sock_ev list \<Rightarrow> recv_result \<times> sock_ev list" where
  "sock_recv nb n [] = (Data [], [])"
| "sock_recv nb n (Idle # es) = (if nb then (Again, es) else sock_recv nb n es)"
| "sock_recv nb n (Fail # es) = (Error, es)"
| "sock_recv nb n (Chunk bs # es) =
     (if bs = [] then sock_recv nb n es
      else (Data (take n bs), if length bs \<le> n then es else Chunk (drop n bs) # es))"

record sock =
  sk_in :: "sock_ev list"
  sk_out :: bytes
  sk_fails :: "bool list"

definition sock_send :: "bytes \<Rightarrow> sock \<Rightarrow> bool \<times> sock" where
  "sock_send bs k =
     (case sk_fails k of
        [] \<Rightarrow> (True, k\<lparr>sk_out := sk_out k @ bs\<rparr>)
      | f # fs \<Rightarrow> if f then (False, k\<lparr>sk_fails := fs\<rparr>)
                  else (True, k\<lparr>sk_out := sk_out k @ bs, sk_fails := fs\<rparr>))"

section \<open>The message buffer\<close>

record pt_comm_buffer_t =
  bf_data :: "bytes option"
  bf_size :: nat

text \<open>The static buffer at the start of the program.\<close>

definition bufst :: pt_comm_buffer_t where
  "bufst = \<lparr>bf_data = None, bf_size = 0\<rparr>"

definition buf_prepare :: "mem_env \<Rightarrow> nat \<Rightarrow> pt_comm_buffer_t \<Rightarrow> int \<times> pt_comm_buffer_t" where
  "buf_prepare E require buf =
     (if bf_size buf \<ge> require then (0, buf)
      else
        let sz = (require * 2) mod 2 ^ 64;
            sz = (if sz < 4096 then 4096 else sz);
            data = (if alloc_ok E sz then
                      Some (case bf_data buf of
                              None \<Rightarrow> fresh E sz
                            | Some d \<Rightarrow> realloc_bytes E sz d)
                    else None);
            buf = \<lparr>bf_data = data, bf_size = sz\<rparr>
        in if data = None then (-1, buf) else (0, buf))"

section \<open>Messages\<close>

text \<open>The header: three 32-bit integers before the data.\<close>

definition PT_COMM_FILENAME :: bytes where "PT_COMM_FILENAME = ''phptrace.sock''"
definition PT_MSG_HEADER_SIZE :: nat where "PT_MSG_HEADER_SIZE = 12"
definition PT_MSG_SIZE_MIN :: int where "PT_MSG_SIZE_MIN = 0"
definition PT_MSG_SIZE_MAX :: int where "PT_MSG_SIZE_MAX = 1024 * 1024"
definition PT_COMM_MAXRECV :: nat where "PT_COMM_MAXRECV = 10"

definition PT_MSG_EMPTY :: u32 where "PT_MSG_EMPTY = 0"
definition PT_MSG_PEERDOWN :: u32 where "PT_MSG_PEERDOWN = 1"
definition PT_MSG_ERR_SOCK :: u32 where "PT_MSG_ERR_SOCK = 2"
definition PT_MSG_ERR_BUF :: u32 where "PT_MSG_ERR_BUF = 3"
definition PT_MSG_INVALID :: u32 where "PT_MSG_INVALID = 4"
definition PT_MSG_USER :: u32 where "PT_MSG_USER = 0x80000000"
definition PT_MSG_DO_TRACE :: u32 where "PT_MSG_DO_TRACE = 0x80000001"
definition PT_MSG_DO_STATUS :: u32 where "PT_MSG_DO_STATUS = 0x80000002"
definition PT_MSG_DO_FILTER :: u32 where "PT_MSG_DO_FILTER = 0x80000003"
definition PT_MSG_FRAME :: u32 where "PT_MSG_FRAME = 0x80000004"
definition PT_MSG_REQ :: u32 where "PT_MSG_REQ = 0x80000005"
definition PT_MSG_STATUS :: u32 where "PT_MSG_STATUS = 0x80000006"

lemmas msg_codes =
  PT_MSG_EMPTY_def PT_MSG_PEERDOWN_def PT_MSG_ERR_SOCK_def PT_MSG_ERR_BUF_def PT_MSG_INVALID_def
  PT_MSG_USER_def PT_MSG_DO_TRACE_def PT_MSG_DO_STATUS_def PT_MSG_DO_FILTER_def PT_MSG_FRAME_def
  PT_MSG_REQ_def PT_MSG_STATUS_def

text \<open>The fields of a message at the start of a block of memory.\<close>

definition get_int32 :: "nat \<Rightarrow> bytes \<Rightarrow> u32" where
  "get_int32 off b = word_of_nat (le_value (take 4 (drop off b)))"

definition msg_len :: "bytes \<Rightarrow> u32" where "msg_len = get_int32 0"
definition msg_type :: "bytes \<Rightarrow> u32" where "msg_type = get_int32 4"
definition msg_pid :: "bytes \<Rightarrow> u32" where "msg_pid = get_int32 8"
definition msg_data :: "bytes \<Rightarrow> bytes" where "msg_data b = drop PT_MSG_HEADER_SIZE b"

definition put_at :: "nat \<Rightarrow> bytes \<Rightarrow> bytes \<Rightarrow> bytes option" where
  "put_at off bs b = map_option fst (poke bs (b, off))"

definition with_data :: "pt_comm_buffer_t \<Rightarrow> (bytes \<Rightarrow> bytes option) \<Rightarrow> pt_comm_buffer_t option" where
  "with_data buf f = do { d \<leftarrow> bf_data buf; d \<leftarrow> f d; Some (buf\<lparr>bf_data := Some d\<rparr>) }"

text \<open>
  The loop of \<open>pt_comm_recv_msg\<close> over the body, with the iterations left and the bytes received so
  far. The code is \<open>None\<close> when the loop ends without an early return.
\<close>

fun recv_body :: "nat \<Rightarrow> nat \<Rightarrow> nat \<Rightarrow> bytes \<Rightarrow> sock \<Rightarrow> (u32 option \<times> nat \<times> bytes \<times> sock) option" where
  "recv_body 0 len recvlen d k = Some (None, recvlen, d, k)"
| "recv_body (Suc i) len recvlen d k =
     (case sock_recv False (len - recvlen) (sk_in k) of (r, es) \<Rightarrow>
        let k = k\<lparr>sk_in := es\<rparr> in
        case r of
          Again \<Rightarrow> Some (Some PT_MSG_ERR_SOCK, recvlen, d, k)
        | Error \<Rightarrow> Some (Some PT_MSG_ERR_SOCK, recvlen, d, k)
        | Data bs \<Rightarrow>
            if bs = [] then Some (Some PT_MSG_PEERDOWN, recvlen, d, k)
            else do {
              d \<leftarrow> put_at (PT_MSG_HEADER_SIZE + recvlen) bs d;
              let recvlen = recvlen + length bs;
              if recvlen = len then Some (None, recvlen, d, k)
              else recv_body i len recvlen d k
            })"

text \<open>The check after the loop and the result.\<close>

fun recv_done :: "nat \<Rightarrow> pt_comm_buffer_t \<Rightarrow> u32 option \<times> nat \<times> bytes \<times> sock \<Rightarrow>
  u32 \<times> sock \<times> pt_comm_buffer_t" where
  "recv_done len buf (Some c, recvlen, msg, k) = (c, k, buf\<lparr>bf_data := Some msg\<rparr>)"
| "recv_done len buf (None, recvlen, msg, k) =
     (if recvlen \<noteq> len then PT_MSG_INVALID else msg_type msg, k, buf\<lparr>bf_data := Some msg\<rparr>)"

text \<open>From the checks of the length in a received header to the end of the function.\<close>

definition recv_after_header ::
  "mem_env \<Rightarrow> sock \<Rightarrow> pt_comm_buffer_t \<Rightarrow> bytes \<Rightarrow> (u32 \<times> sock \<times> pt_comm_buffer_t) option" where
  "recv_after_header E k buf msg =
     (let len = sint (msg_len msg) in
      if len > PT_MSG_SIZE_MAX \<or> len < PT_MSG_SIZE_MIN then Some (PT_MSG_INVALID, k, buf)
      else if len = 0 then Some (msg_type msg, k, buf)
      else case buf_prepare E (PT_MSG_HEADER_SIZE + nat len) buf of (rc, buf) \<Rightarrow>
        if rc = -1 then Some (PT_MSG_ERR_BUF, k, buf)
        else do {
          msg \<leftarrow> bf_data buf;
          r \<leftarrow> recv_body PT_COMM_MAXRECV (nat len) 0 msg k;
          Some (recv_done (nat len) buf r)
        })"

text \<open>
  \<open>*msg_ptr\<close> is the data of the buffer afterwards. A \<open>recv\<close> into a \<open>NULL\<close> buffer fails
  (\<open>EFAULT\<close>) and takes nothing from the stream.
\<close>

definition pt_comm_recv_msg ::
  "mem_env \<Rightarrow> sock \<Rightarrow> pt_comm_buffer_t \<Rightarrow> (u32 \<times> sock \<times> pt_comm_buffer_t) option" where
  "pt_comm_recv_msg E k buf =
     (case buf_prepare E PT_MSG_HEADER_SIZE buf of (rc, buf) \<Rightarrow>
      if rc = -1 then Some (PT_MSG_ERR_BUF, k, buf)
      else case sock_recv True PT_MSG_HEADER_SIZE (sk_in k) of (r, es) \<Rightarrow>
        case r of
          Again \<Rightarrow> Some (PT_MSG_EMPTY, k\<lparr>sk_in := es\<rparr>, buf)
        | Error \<Rightarrow> Some (PT_MSG_ERR_SOCK, k\<lparr>sk_in := es\<rparr>, buf)
        | Data h \<Rightarrow>
            if h = [] then Some (PT_MSG_PEERDOWN, k\<lparr>sk_in := es\<rparr>, buf)
            else if bf_data buf = None then Some (PT_MSG_ERR_SOCK, k, buf)
            else do {
              buf \<leftarrow> with_data buf (put_at 0 h);
              msg \<leftarrow> bf_data buf;
              if length h \<noteq> PT_MSG_HEADER_SIZE then Some (PT_MSG_INVALID, k\<lparr>sk_in := es\<rparr>, buf)
              else recv_after_header E (k\<lparr>sk_in := es\<rparr>) buf msg
            })"

definition pt_comm_build_msg ::
  "mem_env \<Rightarrow> nat \<Rightarrow> u32 \<Rightarrow> pt_comm_buffer_t \<Rightarrow> (int \<times> pt_comm_buffer_t) option" where
  "pt_comm_build_msg E sz type buf =
     (case buf_prepare E ((PT_MSG_HEADER_SIZE + sz) mod 2 ^ 64) buf of (rc, buf) \<Rightarrow>
      if rc = -1 then Some (-1, buf)
      else do {
        buf \<leftarrow> with_data buf (put_at 0 (enc_int (word_of_nat sz :: u32)));
        buf \<leftarrow> with_data buf (put_at 4 (enc_int type));
        Some (0, buf)
      })"

text \<open>\<open>send\<close> of a negative length is a request for an impossible amount of memory.\<close>

definition pt_comm_send_msg :: "sock \<Rightarrow> bytes \<Rightarrow> (int \<times> sock) option" where
  "pt_comm_send_msg k msg = do {
     (h, _) \<leftarrow> peek PT_MSG_HEADER_SIZE msg;
     case sock_send h k of (ok, k) \<Rightarrow>
       if \<not> ok then Some (-1, k)
       else if msg_len msg = 0 then Some (0, k)
       else do {
         (b, _) \<leftarrow> peek (to_size (sint (msg_len msg))) (msg_data msg);
         case sock_send b k of (ok, k) \<Rightarrow> if \<not> ok then Some (-1, k) else Some (0, k)
       }
   }"

definition pt_comm_send_type ::
  "mem_env \<Rightarrow> u32 \<Rightarrow> sock \<Rightarrow> pt_comm_buffer_t \<Rightarrow> (int \<times> sock \<times> pt_comm_buffer_t) option" where
  "pt_comm_send_type E type k buf = do {
     (rc, buf) \<leftarrow> pt_comm_build_msg E 0 type buf;
     if rc = -1 then Some (-1, k, buf)
     else do {
       msg \<leftarrow> bf_data buf;
       (rc, k) \<leftarrow> pt_comm_send_msg k msg;
       Some (rc, k, buf)
     }
   }"

section \<open>The buffer\<close>

definition buf_ok :: "pt_comm_buffer_t \<Rightarrow> bool" where
  "buf_ok buf = (case bf_data buf of None \<Rightarrow> bf_size buf = 0 | Some d \<Rightarrow> length d = bf_size buf)"

lemma buf_ok_bufst [simp]: "buf_ok bufst"
  by (simp add: buf_ok_def bufst_def)

lemma buf_prepare_spec:
  assumes "buf_ok buf" and "roomy E" and "0 < n" and "n < 2 ^ 63"
  shows "\<exists>d. buf_prepare E n buf = (0, \<lparr>bf_data = Some d, bf_size = length d\<rparr>) \<and> n \<le> length d \<and>
    (\<forall>d0. bf_data buf = Some d0 \<longrightarrow> take (length d0) d = d0)"
proof (cases "bf_size buf \<ge> n")
  case True
  with assms obtain d where "bf_data buf = Some d" "length d = bf_size buf"
    by (auto simp: buf_ok_def split: option.splits)
  then have "buf = \<lparr>bf_data = Some d, bf_size = length d\<rparr>" by simp
  with True show ?thesis by (simp add: buf_prepare_def)
next
  case False
  define sz where "sz = (if n * 2 < 4096 then 4096 else n * 2)"
  have wrap: "(n * 2) mod 2 ^ 64 = n * 2" using assms by simp
  have len: "length d0 \<le> sz" if "bf_data buf = Some d0" for d0
    using that assms(1) False by (auto simp: buf_ok_def sz_def)
  let ?d = "case bf_data buf of None \<Rightarrow> fresh E sz | Some d \<Rightarrow> realloc_bytes E sz d"
  have "buf_prepare E n buf = (0, \<lparr>bf_data = Some ?d, bf_size = length ?d\<rparr>)"
    using False assms wrap unfolding buf_prepare_def sz_def [symmetric] wrap Let_def
    by (auto split: option.split)
  moreover have "n \<le> length ?d" by (simp add: sz_def split: option.split)
  moreover have "take (length d0) ?d = d0" if "bf_data buf = Some d0" for d0
    using that len [OF that] by simp
  ultimately show ?thesis by blast
qed

lemma put_at_room:
  "off + length bs \<le> length b \<Longrightarrow> put_at off bs b = Some (take off b @ bs @ drop (off + length bs) b)"
  by (simp add: put_at_def poke_room)

lemma put_at_append:
  assumes "put_at off xs b = Some b1" and "off + length xs \<le> length b"
  shows "put_at (off + length xs) ys b1 = put_at off (xs @ ys) b"
proof -
  have "poke xs (b, off) = Some (b1, off + length xs)"
    using assms by (simp add: put_at_def poke_room)
  then show ?thesis using poke_append [of xs "(b, off)" ys] by (simp add: put_at_def)
qed

lemma length_put_at: "put_at off bs b = Some b1 \<Longrightarrow> length b1 = length b"
  by (auto simp: put_at_def poke_def split: if_splits)

section \<open>Pieces of the stream\<close>

text \<open>What is left of a list of pieces after some bytes, and how many pieces those bytes are in.\<close>

fun eat :: "nat \<Rightarrow> bytes list \<Rightarrow> bytes list" where
  "eat n [] = []"
| "eat n (c # cs) =
     (if n = 0 then c # cs else if length c \<le> n then eat (n - length c) cs else drop n c # cs)"

fun hops :: "nat \<Rightarrow> bytes list \<Rightarrow> nat" where
  "hops n [] = 0"
| "hops n (c # cs) =
     (if n = 0 then 0 else if length c < n then Suc (hops (n - length c) cs) else 1)"

definition pieces :: "bytes list \<Rightarrow> bool" where
  "pieces cs \<longleftrightarrow> list_all (\<lambda>c. c \<noteq> []) cs"

lemma eat_0 [simp]: "eat 0 cs = cs"
  by (cases cs) auto

lemma concat_eat [simp]: "concat (eat n cs) = drop n (concat cs)"
  by (induction n cs rule: eat.induct) auto

lemma pieces_eat [simp]: "pieces cs \<Longrightarrow> pieces (eat n cs)"
  by (induction n cs rule: eat.induct) (auto simp: pieces_def)

lemma eat_eat: "pieces cs \<Longrightarrow> m + n \<le> length (concat cs) \<Longrightarrow> eat n (eat m cs) = eat (m + n) cs"
  by (induction m cs rule: eat.induct) (auto simp: pieces_def add.commute)

lemma recv_body_complete:
  assumes "pieces cs" and "0 < n" and "n \<le> length (concat cs)" and "hops n cs \<le> i"
    and "PT_MSG_HEADER_SIZE + recvlen + n \<le> length d" and "sk_in k = map Chunk cs @ rest"
  shows "\<exists>d'. put_at (PT_MSG_HEADER_SIZE + recvlen) (take n (concat cs)) d = Some d' \<and>
    recv_body i (recvlen + n) recvlen d k =
      Some (None, recvlen + n, d', k\<lparr>sk_in := map Chunk (eat n cs) @ rest\<rparr>)"
  using assms
proof (induction i arbitrary: cs n recvlen d k)
  case 0
  then obtain c cs' where "cs = c # cs'" by (cases cs) auto
  with 0 show ?case by (auto split: if_splits)
next
  case (Suc i)
  then obtain c cs' where cs: "cs = c # cs'" "c \<noteq> []" "pieces cs'" by (cases cs) (auto simp: pieces_def)
  let ?h = "PT_MSG_HEADER_SIZE"
  show ?case
  proof (cases "length c < n")
    case False
    obtain d1 where d1: "put_at (?h + recvlen) (take n c) d = Some d1"
      using Suc.prems by (simp add: put_at_room)
    with False Suc.prems cs show ?thesis by simp
  next
    case True
    obtain d1 where d1: "put_at (?h + recvlen) c d = Some d1"
      using Suc.prems True by (simp add: put_at_room)
    let ?k = "k\<lparr>sk_in := map Chunk cs' @ rest\<rparr>"
    have "\<exists>d'. put_at (?h + (recvlen + length c)) (take (n - length c) (concat cs')) d1 = Some d' \<and>
      recv_body i (recvlen + length c + (n - length c)) (recvlen + length c) d1 ?k =
        Some (None, recvlen + length c + (n - length c), d', ?k\<lparr>sk_in := map Chunk (eat (n - length c) cs') @ rest\<rparr>)"
      using Suc.prems True cs length_put_at [OF d1] by (intro Suc.IH) auto
    moreover have "put_at (?h + (recvlen + length c)) (take (n - length c) (concat cs')) d1 =
      put_at (?h + recvlen) (c @ take (n - length c) (concat cs')) d"
      using put_at_append [OF d1] Suc.prems True by (simp add: add.assoc)
    ultimately show ?thesis using True Suc.prems cs d1 by auto
  qed
qed

text \<open>A body in more pieces than the loop has iterations is not received whole.\<close>

lemma recv_body_incomplete:
  assumes "pieces cs" and "n \<le> length (concat cs)" and "i < hops n cs"
    and "PT_MSG_HEADER_SIZE + recvlen + n \<le> length d" and "sk_in k = map Chunk cs @ rest"
  shows "\<exists>m d' k'. recv_body i (recvlen + n) recvlen d k = Some (None, recvlen + m, d', k') \<and>
    m < n \<and> length d' = length d"
  using assms
proof (induction i arbitrary: cs n recvlen d k)
  case 0
  then have "0 < n" by (cases n; cases cs) auto
  then show ?case by (intro exI [of _ 0]) auto
next
  case (Suc i)
  then obtain c cs' where cs: "cs = c # cs'" "c \<noteq> []" "pieces cs'" by (cases cs) (auto simp: pieces_def)
  have long: "length c < n" and hops: "i < hops (n - length c) cs'"
    using Suc.prems cs by (auto split: if_splits)
  let ?r = "recvlen + length c"
  obtain d1 where d1: "put_at (PT_MSG_HEADER_SIZE + recvlen) c d = Some d1"
    using Suc.prems long by (simp add: put_at_room)
  have "\<exists>m d' k'. recv_body i (?r + (n - length c)) ?r d1 (k\<lparr>sk_in := map Chunk cs' @ rest\<rparr>) =
      Some (None, ?r + m, d', k') \<and> m < n - length c \<and> length d' = length d1"
    using Suc.prems long hops cs length_put_at [OF d1] by (intro Suc.IH) auto
  then obtain m d' k' where IH: "recv_body i (recvlen + n) ?r d1 (k\<lparr>sk_in := map Chunk cs' @ rest\<rparr>) =
      Some (None, ?r + m, d', k')" "m < n - length c" "length d' = length d1"
    using long by auto
  then show ?case
    using Suc.prems long cs d1 length_put_at [OF d1]
    by (intro exI [of _ "length c + m"] exI [of _ d'] exI [of _ k']) (simp add: add.assoc)
qed

section \<open>Messages on the wire\<close>

definition enc_header :: "u32 \<Rightarrow> u32 \<Rightarrow> u32 \<Rightarrow> bytes" where
  "enc_header len type pid = enc_int len @ enc_int type @ enc_int pid"

definition enc_msg :: "u32 \<Rightarrow> u32 \<Rightarrow> bytes \<Rightarrow> bytes" where
  "enc_msg type pid body = enc_header (word_of_nat (length body)) type pid @ body"

lemma length_enc_header [simp]: "length (enc_header l t p) = PT_MSG_HEADER_SIZE"
  by (simp add: enc_header_def PT_MSG_HEADER_SIZE_def)

lemma enc_header_not_Nil [simp]: "enc_header l t p \<noteq> []"
  by (metis length_0_conv length_enc_header PT_MSG_HEADER_SIZE_def zero_neq_numeral)

lemma length_enc_msg [simp]: "length (enc_msg t p body) = PT_MSG_HEADER_SIZE + length body"
  by (simp add: enc_msg_def)

lemma get_int32_enc:
  assumes "length pre = off"
  shows "get_int32 off (pre @ enc_int (w :: u32) @ r) = w"
proof -
  have "word_of_nat (le_value (enc_int w)) = w"
    using le_bytes_unat [of 4 w] by (simp add: enc_int_def)
  with assms show ?thesis by (simp add: get_int32_def)
qed

lemma header_fields [simp]:
  "msg_len (enc_header l t p @ r) = l" "msg_type (enc_header l t p @ r) = t"
  "msg_pid (enc_header l t p @ r) = p" "msg_data (enc_header l t p @ r) = r"
proof -
  show "msg_len (enc_header l t p @ r) = l"
    using get_int32_enc [of "[]" 0 l] by (simp add: msg_len_def enc_header_def)
  show "msg_type (enc_header l t p @ r) = t"
    using get_int32_enc [of "enc_int l" 4 t] by (simp add: msg_type_def enc_header_def)
  show "msg_pid (enc_header l t p @ r) = p"
    using get_int32_enc [of "enc_int l @ enc_int t" 8 p] by (simp add: msg_pid_def enc_header_def)
  show "msg_data (enc_header l t p @ r) = r"
    by (simp add: msg_data_def)
qed

text \<open>The first part of \<open>pt_comm_recv_msg\<close>: a header that arrives in one piece is read whole.\<close>

lemma recv_header:
  assumes "pieces (c # cs)" and "PT_MSG_HEADER_SIZE \<le> length c" and "length h = PT_MSG_HEADER_SIZE"
    and "concat (c # cs) = h @ r"
  shows "sock_recv True PT_MSG_HEADER_SIZE (map Chunk (c # cs) @ rest) =
      (Data h, map Chunk (eat PT_MSG_HEADER_SIZE (c # cs)) @ rest)"
proof -
  have "take PT_MSG_HEADER_SIZE c = h"
    using assms by (metis append_eq_append_conv_if concat.simps(2) length_take min.absorb2 take_all_iff
        append_eq_conv_conj take_append diff_is_0_eq take_0 append_Nil2)
  with assms show ?thesis by (auto simp: pieces_def PT_MSG_HEADER_SIZE_def)
qed

lemma sint_of_len:
  assumes "n < 2 ^ 31"
  shows "sint (word_of_nat n :: u32) = int n"
proof -
  have "sint (word_of_nat n :: u32) = signed_take_bit 31 (int n)"
    by (simp add: signed_of_nat)
  also have "\<dots> = int n"
    using assms by (simp add: signed_take_bit_int_eq_self)
  finally show ?thesis .
qed

abbreviation data_buf :: "bytes \<Rightarrow> pt_comm_buffer_t" where
  "data_buf d \<equiv> \<lparr>bf_data = Some d, bf_size = length d\<rparr>"

lemma buf_ok_data [simp]: "buf_ok (data_buf d)"
  by (simp add: buf_ok_def)

lemma recv_msg_header:
  assumes ok: "buf_ok buf" "roomy E" and c: "pieces (c # cs)" "PT_MSG_HEADER_SIZE \<le> length c"
    and bytes: "concat (c # cs) = enc_header len t pid @ r"
    and k: "sk_in k = map Chunk (c # cs) @ rest"
  shows "\<exists>d. pt_comm_recv_msg E k buf =
    recv_after_header E (k\<lparr>sk_in := map Chunk (eat PT_MSG_HEADER_SIZE (c # cs)) @ rest\<rparr>)
      (data_buf (enc_header len t pid @ d)) (enc_header len t pid @ d)"
proof -
  let ?h = "enc_header len t pid"
  obtain d0 where d0: "buf_prepare E PT_MSG_HEADER_SIZE buf = (0, data_buf d0)"
    "PT_MSG_HEADER_SIZE \<le> length d0"
    using buf_prepare_spec [OF ok, of PT_MSG_HEADER_SIZE] by (auto simp: PT_MSG_HEADER_SIZE_def)
  let ?d = "?h @ drop PT_MSG_HEADER_SIZE d0"
  have put: "put_at 0 ?h d0 = Some ?d" using d0 by (simp add: put_at_room)
  have ne: "?h \<noteq> []" by simp
  note hdr = recv_header [OF c length_enc_header bytes, of rest]
  show ?thesis
    by (rule exI [of _ "drop PT_MSG_HEADER_SIZE d0"]) (use d0 put ne hdr k in
        \<open>simp add: pt_comm_recv_msg_def with_data_def del: eat.simps concat.simps list.map\<close>)
qed

lemma recv_after_header_body:
  assumes "roomy E" and "length body \<le> 1024 * 1024" and "body \<noteq> []"
  shows "\<exists>d. PT_MSG_HEADER_SIZE + length body \<le> length (enc_header (word_of_nat (length body)) t pid @ d) \<and>
    recv_after_header E k (data_buf (enc_header (word_of_nat (length body)) t pid @ d0))
      (enc_header (word_of_nat (length body)) t pid @ d0) =
    do {
      r \<leftarrow> recv_body PT_COMM_MAXRECV (length body) 0 (enc_header (word_of_nat (length body)) t pid @ d) k;
      Some (recv_done (length body) (data_buf (enc_header (word_of_nat (length body)) t pid @ d)) r)
    }"
proof -
  let ?h = "enc_header (word_of_nat (length body)) t pid"
  have len: "sint (word_of_nat (length body) :: u32) = int (length body)"
    using assms by (intro sint_of_len) simp
  obtain d1 where d1: "buf_prepare E (PT_MSG_HEADER_SIZE + length body) (data_buf (?h @ d0)) = (0, data_buf d1)"
    "PT_MSG_HEADER_SIZE + length body \<le> length d1" "take (length (?h @ d0)) d1 = ?h @ d0"
    using buf_prepare_spec [OF buf_ok_data assms(1), of "PT_MSG_HEADER_SIZE + length body" "?h @ d0"] assms(2)
    by (auto simp: PT_MSG_HEADER_SIZE_def)
  then have "d1 = ?h @ (d0 @ drop (length (?h @ d0)) d1)"
    by (metis append_assoc append_take_drop_id)
  then obtain d where d: "d1 = ?h @ d" by blast
  show ?thesis
    by (rule exI [of _ d]) (use assms d1 d len in
        \<open>simp add: recv_after_header_def PT_MSG_SIZE_MAX_def PT_MSG_SIZE_MIN_def Let_def\<close>)
qed

lemma recv_msg_complete:
  assumes ok: "buf_ok buf" "roomy E" and c: "pieces (c # cs)" "PT_MSG_HEADER_SIZE \<le> length c"
    and bytes: "concat (c # cs) = enc_msg t pid body @ extra"
    and len: "length body \<le> 1024 * 1024"
    and hops: "hops (length body) (eat PT_MSG_HEADER_SIZE (c # cs)) \<le> PT_COMM_MAXRECV"
    and k: "sk_in k = map Chunk (c # cs) @ rest"
  shows "\<exists>d. pt_comm_recv_msg E k buf =
      Some (t, k\<lparr>sk_in := map Chunk (eat (PT_MSG_HEADER_SIZE + length body) (c # cs)) @ rest\<rparr>,
            data_buf (enc_msg t pid body @ d))"
proof -
  let ?n = "length body" and ?cs = "eat PT_MSG_HEADER_SIZE (c # cs)"
  let ?h = "enc_header (word_of_nat ?n) t pid" and ?k = "k\<lparr>sk_in := map Chunk ?cs @ rest\<rparr>"
  have b: "concat (c # cs) = ?h @ body @ extra" using bytes by (simp add: enc_msg_def)
  obtain d0 where d0: "pt_comm_recv_msg E k buf = recv_after_header E ?k (data_buf (?h @ d0)) (?h @ d0)"
    using recv_msg_header [OF ok c b k] by blast
  show ?thesis
  proof (cases "body = []")
    case True
    then show ?thesis
      using d0 by (auto simp: recv_after_header_def enc_msg_def PT_MSG_SIZE_MAX_def PT_MSG_SIZE_MIN_def
          simp del: eat.simps)
  next
    case False
    obtain d where d: "PT_MSG_HEADER_SIZE + ?n \<le> length (?h @ d)"
      "recv_after_header E ?k (data_buf (?h @ d0)) (?h @ d0) = do {
         r \<leftarrow> recv_body PT_COMM_MAXRECV ?n 0 (?h @ d) ?k;
         Some (recv_done ?n (data_buf (?h @ d)) r) }"
      using recv_after_header_body [OF ok(2) len False] by blast
    have avail: "concat ?cs = body @ extra" using b by (simp del: eat.simps concat.simps)
    have "pieces ?cs" using c(1) by (rule pieces_eat)
    from recv_body_complete [OF this, of ?n PT_COMM_MAXRECV 0 "?h @ d" ?k rest, unfolded avail] hops False d(1)
    have body: "put_at PT_MSG_HEADER_SIZE body (?h @ d) = Some (?h @ body @ drop ?n d)"
      "recv_body PT_COMM_MAXRECV ?n 0 (?h @ d) ?k =
        Some (None, ?n, ?h @ body @ drop ?n d, ?k\<lparr>sk_in := map Chunk (eat ?n ?cs) @ rest\<rparr>)"
      by (simp_all add: put_at_room del: eat.simps concat.simps)
    moreover have "eat ?n ?cs = eat (PT_MSG_HEADER_SIZE + ?n) (c # cs)"
      using c b by (intro eat_eat) simp_all
    ultimately show ?thesis
      using d0 d by (intro exI [of _ "drop ?n d"]) (simp add: enc_msg_def del: eat.simps)
  qed
qed

lemma recv_msg_fragmented:
  assumes ok: "buf_ok buf" "roomy E" and c: "pieces (c # cs)" "PT_MSG_HEADER_SIZE \<le> length c"
    and bytes: "concat (c # cs) = enc_msg t pid body @ extra"
    and len: "length body \<le> 1024 * 1024"
    and hops: "PT_COMM_MAXRECV < hops (length body) (eat PT_MSG_HEADER_SIZE (c # cs))"
    and k: "sk_in k = map Chunk (c # cs) @ rest"
  shows "\<exists>k' buf'. pt_comm_recv_msg E k buf = Some (PT_MSG_INVALID, k', buf')"
proof -
  let ?n = "length body" and ?cs = "eat PT_MSG_HEADER_SIZE (c # cs)"
  let ?h = "enc_header (word_of_nat ?n) t pid" and ?k = "k\<lparr>sk_in := map Chunk ?cs @ rest\<rparr>"
  have b: "concat (c # cs) = ?h @ body @ extra" using bytes by (simp add: enc_msg_def)
  obtain d0 where d0: "pt_comm_recv_msg E k buf = recv_after_header E ?k (data_buf (?h @ d0)) (?h @ d0)"
    using recv_msg_header [OF ok c b k] by blast
  have "body \<noteq> []" using hops by (cases "eat PT_MSG_HEADER_SIZE (c # cs)") auto
  then obtain d where d: "PT_MSG_HEADER_SIZE + ?n \<le> length (?h @ d)"
    "recv_after_header E ?k (data_buf (?h @ d0)) (?h @ d0) = do {
       r \<leftarrow> recv_body PT_COMM_MAXRECV ?n 0 (?h @ d) ?k;
       Some (recv_done ?n (data_buf (?h @ d)) r) }"
    using recv_after_header_body [OF ok(2) len] by blast
  have "pieces ?cs" using c(1) by (rule pieces_eat)
  moreover have "?n \<le> length (concat ?cs)" using b by (simp del: eat.simps concat.simps)
  ultimately obtain m d' k' where "recv_body PT_COMM_MAXRECV ?n 0 (?h @ d) ?k = Some (None, m, d', k')"
    "m < ?n"
    using recv_body_incomplete [of ?cs ?n PT_COMM_MAXRECV 0 "?h @ d" ?k rest] hops d(1) by auto
  then show ?thesis using d0 d by (simp del: eat.simps)
qed

lemma recv_msg_bad_length:
  assumes ok: "buf_ok buf" "roomy E" and c: "pieces (c # cs)" "PT_MSG_HEADER_SIZE \<le> length c"
    and bytes: "concat (c # cs) = enc_header len t pid @ r"
    and bad: "1024 * 1024 < sint len \<or> sint len < 0"
    and k: "sk_in k = map Chunk (c # cs) @ rest"
  shows "\<exists>buf'. pt_comm_recv_msg E k buf =
      Some (PT_MSG_INVALID, k\<lparr>sk_in := map Chunk (eat PT_MSG_HEADER_SIZE (c # cs)) @ rest\<rparr>, buf')"
proof -
  from recv_msg_header [OF ok c bytes k] obtain d where
    "pt_comm_recv_msg E k buf =
     recv_after_header E (k\<lparr>sk_in := map Chunk (eat PT_MSG_HEADER_SIZE (c # cs)) @ rest\<rparr>)
       (data_buf (enc_header len t pid @ d)) (enc_header len t pid @ d)" by blast
  then show ?thesis
    using bad by (auto simp: recv_after_header_def PT_MSG_SIZE_MAX_def PT_MSG_SIZE_MIN_def
        simp del: eat.simps)
qed

section \<open>Safety and progress of receiving\<close>

text \<open>The amount of what is still to happen on a stream.\<close>

fun ev_size :: "sock_ev \<Rightarrow> nat" where
  "ev_size (Chunk bs) = Suc (length bs)"
| "ev_size Idle = 1"
| "ev_size Fail = 1"

definition pending :: "sock \<Rightarrow> nat" where
  "pending k = sum_list (map ev_size (sk_in k))"

lemma sock_recv_bound: "sock_recv nb n es = (Data bs, es') \<Longrightarrow> length bs \<le> n"
  by (induction nb n es rule: sock_recv.induct) (auto split: if_splits)

lemma sock_recv_pending:
  "sock_recv nb n es = (r, es') \<Longrightarrow> sum_list (map ev_size es') \<le> sum_list (map ev_size es)"
  by (induction nb n es rule: sock_recv.induct) (auto split: if_splits)

lemma sock_recv_progress:
  "sock_recv nb n es = (r, es') \<Longrightarrow> r \<noteq> Data [] \<Longrightarrow> 0 < n \<Longrightarrow>
   sum_list (map ev_size es') < sum_list (map ev_size es)"
  by (induction nb n es rule: sock_recv.induct) (auto split: if_splits)

lemma recv_body_safe:
  assumes "recvlen \<le> len" and "PT_MSG_HEADER_SIZE + len \<le> length d"
  shows "\<exists>ret recvlen' d' k'. recv_body i len recvlen d k = Some (ret, recvlen', d', k') \<and>
    length d' = length d \<and> pending k' \<le> pending k"
  using assms
proof (induction i arbitrary: recvlen d k)
  case 0
  then show ?case by simp
next
  case (Suc i)
  obtain r es where r: "sock_recv False (len - recvlen) (sk_in k) = (r, es)" by force
  let ?k = "k\<lparr>sk_in := es\<rparr>"
  have pend: "pending ?k \<le> pending k" using sock_recv_pending [OF r] by (simp add: pending_def)
  show ?case
  proof (cases "\<exists>bs. r = Data bs \<and> bs \<noteq> []")
    case False
    with r pend show ?thesis by (cases r) (auto simp: Let_def)
  next
    case True
    then obtain bs where bs: "r = Data bs" "bs \<noteq> []" by blast
    with r have "length bs \<le> len - recvlen" by (auto dest: sock_recv_bound)
    with Suc.prems obtain d1 where d1: "put_at (PT_MSG_HEADER_SIZE + recvlen) bs d = Some d1"
      "recvlen + length bs \<le> len" by (simp add: put_at_room)
    have "\<exists>ret rl d' k'. recv_body i len (recvlen + length bs) d1 ?k = Some (ret, rl, d', k') \<and>
      length d' = length d1 \<and> pending k' \<le> pending ?k"
      using Suc.prems d1 length_put_at [OF d1(1)] by (intro Suc.IH) auto
    with r bs d1 pend length_put_at [OF d1(1)] show ?thesis by (auto simp: Let_def)
  qed
qed

lemma recv_after_header_safe:
  assumes ok: "roomy E" and d: "PT_MSG_HEADER_SIZE \<le> length d"
  shows "\<exists>c k' buf'. recv_after_header E k (data_buf d) d = Some (c, k', buf') \<and> buf_ok buf' \<and>
    pending k' \<le> pending k"
proof (cases "0 < sint (msg_len d) \<and> sint (msg_len d) \<le> PT_MSG_SIZE_MAX")
  case False
  then show ?thesis by (auto simp: recv_after_header_def Let_def PT_MSG_SIZE_MIN_def)
next
  case True
  let ?n = "nat (sint (msg_len d))"
  have small: "PT_MSG_HEADER_SIZE + ?n < 2 ^ 63"
    using True by (simp add: PT_MSG_HEADER_SIZE_def PT_MSG_SIZE_MAX_def nat_less_iff)
  obtain d1 where d1: "buf_prepare E (PT_MSG_HEADER_SIZE + ?n) (data_buf d) = (0, data_buf d1)"
    "PT_MSG_HEADER_SIZE + ?n \<le> length d1"
    using buf_prepare_spec [OF buf_ok_data ok, of "PT_MSG_HEADER_SIZE + ?n" d] small
    by (auto simp: PT_MSG_HEADER_SIZE_def)
  obtain ret rl d' k' where body: "recv_body PT_COMM_MAXRECV ?n 0 d1 k = Some (ret, rl, d', k')"
    "length d' = length d1" "pending k' \<le> pending k"
    using recv_body_safe [of 0 ?n d1 PT_COMM_MAXRECV k] d1 by auto
  have "recv_after_header E k (data_buf d) d = Some (recv_done ?n (data_buf d1) (ret, rl, d', k'))"
    using True d1 body by (simp add: recv_after_header_def PT_MSG_SIZE_MIN_def)
  with body show ?thesis by (cases ret) (auto simp: buf_ok_def)
qed

lemma recv_msg_safe:
  assumes "buf_ok buf" and "roomy E"
  shows "\<exists>c k' buf'. pt_comm_recv_msg E k buf = Some (c, k', buf') \<and> buf_ok buf' \<and>
    (c \<noteq> PT_MSG_PEERDOWN \<longrightarrow> pending k' < pending k)"
proof -
  obtain d0 where d0: "buf_prepare E PT_MSG_HEADER_SIZE buf = (0, data_buf d0)"
    "PT_MSG_HEADER_SIZE \<le> length d0"
    using buf_prepare_spec [OF assms, of PT_MSG_HEADER_SIZE] by (auto simp: PT_MSG_HEADER_SIZE_def)
  obtain r es where r: "sock_recv True PT_MSG_HEADER_SIZE (sk_in k) = (r, es)" by force
  let ?k = "k\<lparr>sk_in := es\<rparr>"
  have pend: "r \<noteq> Data [] \<Longrightarrow> pending ?k < pending k"
    using sock_recv_progress [OF r] by (simp add: pending_def PT_MSG_HEADER_SIZE_def)
  show ?thesis
  proof (cases "\<exists>h. r = Data h \<and> h \<noteq> []")
    case False
    with d0 r pend show ?thesis
      by (auto simp: pt_comm_recv_msg_def split: recv_result.split)
  next
    case True
    then obtain h where h: "r = Data h" "h \<noteq> []" by blast
    with r have "length h \<le> PT_MSG_HEADER_SIZE" by (auto dest: sock_recv_bound)
    with d0 obtain d where d: "put_at 0 h d0 = Some d" "length d = length d0" by (simp add: put_at_room)
    have recv: "pt_comm_recv_msg E k buf =
      (if length h \<noteq> PT_MSG_HEADER_SIZE then Some (PT_MSG_INVALID, ?k, data_buf d)
       else recv_after_header E ?k (data_buf d) d)"
      using d0 r h d by (simp add: pt_comm_recv_msg_def with_data_def)
    obtain c k' buf' where "recv_after_header E ?k (data_buf d) d = Some (c, k', buf')" "buf_ok buf'"
      "pending k' \<le> pending ?k"
      using recv_after_header_safe [OF assms(2), of d ?k] d0 d by auto
    with recv pend h show ?thesis by fastforce
  qed
qed

section \<open>Building and sending\<close>

lemma le_bytes_le_value: "length bs = k \<Longrightarrow> le_bytes k (le_value bs) = bs"
proof (induction bs arbitrary: k)
  case Nil
  then show ?case by simp
next
  case (Cons c bs)
  then show ?case
    using of_char_bound [of c] by auto
qed

lemma enc_get_int32:
  assumes "off + 4 \<le> length d"
  shows "enc_int (get_int32 off d) = take 4 (drop off d)"
proof -
  let ?bs = "take 4 (drop off d)"
  have len: "length ?bs = 4" using assms by simp
  then have "le_value ?bs < 2 ^ 32" using le_value_bound [of ?bs] by simp
  then have "unat (get_int32 off d) = le_value ?bs" by (simp add: get_int32_def unat_of_nat)
  then show ?thesis using le_bytes_le_value [OF len] by (simp add: enc_int_def)
qed

text \<open>Every block that is long enough is a header and data.\<close>

lemma header_split:
  assumes "PT_MSG_HEADER_SIZE \<le> length d"
  shows "d = enc_header (msg_len d) (msg_type d) (msg_pid d) @ msg_data d"
proof -
  have "take 4 d @ take 4 (drop 4 d) @ take 4 (drop 8 d) @ drop 12 d = d"
    using append_take_drop_id [of 4 d] append_take_drop_id [of 4 "drop 4 d"]
      append_take_drop_id [of 4 "drop 8 d"] by (simp del: append_take_drop_id)
  then show ?thesis
    using assms by (simp add: enc_header_def msg_len_def msg_type_def msg_pid_def msg_data_def
        enc_get_int32 PT_MSG_HEADER_SIZE_def)
qed

lemma build_msg_spec:
  assumes "buf_ok buf" and "roomy E" and "sz < 2 ^ 31"
  shows "\<exists>pid d. pt_comm_build_msg E sz type buf =
      Some (0, data_buf (enc_header (word_of_nat sz) type pid @ d)) \<and> sz \<le> length d"
proof -
  let ?h = PT_MSG_HEADER_SIZE
  obtain d0 where d0: "buf_prepare E (?h + sz) buf = (0, data_buf d0)" "?h + sz \<le> length d0"
    using buf_prepare_spec [OF assms(1,2), of "?h + sz"] assms(3) by (auto simp: PT_MSG_HEADER_SIZE_def)
  have split: "d0 = enc_int (msg_len d0) @ enc_int (msg_type d0) @ enc_int (msg_pid d0) @ msg_data d0"
    using header_split [of d0] d0 by (simp add: enc_header_def)
  let ?d = "enc_int (word_of_nat sz :: u32) @ enc_int type @ enc_int (msg_pid d0) @ msg_data d0"
  have "put_at 0 (enc_int (word_of_nat sz :: u32)) d0 =
      Some (enc_int (word_of_nat sz :: u32) @ enc_int (msg_type d0) @ enc_int (msg_pid d0) @ msg_data d0)"
    by (subst split) (simp add: put_at_room)
  moreover have "put_at 4 (enc_int type) (enc_int (word_of_nat sz :: u32) @ enc_int (msg_type d0) @
      enc_int (msg_pid d0) @ msg_data d0) = Some ?d"
    by (simp add: put_at_room)
  moreover have "length d0 = length ?d" by (subst split) simp
  moreover have "sz \<le> length (msg_data d0)" using d0 by (simp add: msg_data_def)
  ultimately have "pt_comm_build_msg E sz type buf = Some (0, data_buf ?d)"
    using d0 assms(3) by (simp add: pt_comm_build_msg_def with_data_def PT_MSG_HEADER_SIZE_def)
  then show ?thesis
    using \<open>sz \<le> length (msg_data d0)\<close> by (auto simp: enc_header_def)
qed

lemma send_msg_spec:
  assumes "length body < 2 ^ 31" and "sk_fails k = []"
  shows "pt_comm_send_msg k (enc_msg t pid body @ r) =
    Some (0, k\<lparr>sk_out := sk_out k @ enc_msg t pid body\<rparr>)"
proof -
  let ?h = "enc_header (word_of_nat (length body)) t pid"
  have len: "to_size (sint (word_of_nat (length body) :: u32)) = length body"
    using assms by (simp add: sint_of_len int_simps)
  have zero: "(word_of_nat (length body) :: u32) = 0 \<longleftrightarrow> body = []"
    using assms by (simp add: unat_of_nat del: word_of_nat_eq_0_iff flip: unat_eq_0)
  have "peek PT_MSG_HEADER_SIZE (?h @ body @ r) = Some (?h, body @ r)" by simp
  then show ?thesis
    using assms by (auto simp: pt_comm_send_msg_def enc_msg_def sock_send_def zero len
        simp del: word_of_nat_eq_0_iff)
qed

lemma put_body:
  assumes "length body \<le> length d"
  shows "put_at PT_MSG_HEADER_SIZE body (enc_header l t pid @ d) =
    Some (enc_header l t pid @ body @ drop (length body) d)"
  using assms by (simp add: put_at_room)

section \<open>Properties of the communication\<close>

text \<open>
  C7: A message built with \<open>pt_comm_build_msg\<close>, filled and sent with \<open>pt_comm_send_msg\<close> is what the
  peer receives: however the stream cuts the bytes into pieces, as long as the header is in one piece
  and the body in at most ten, \<open>pt_comm_recv_msg\<close> returns its type, its length and its body, and
  leaves the bytes behind it in the stream.
\<close>

theorem comm_roundtrip:
  assumes "buf_ok sb" and "roomy E" and "length body \<le> 1024 * 1024" and "sk_fails k = []"
  shows "\<exists>buf d k1 wire. pt_comm_build_msg E (length body) t sb = Some (0, buf) \<and>
    Option.bind (bf_data buf) (put_at PT_MSG_HEADER_SIZE body) = Some d \<and>
    pt_comm_send_msg k d = Some (0, k1) \<and> sk_out k1 = sk_out k @ wire \<and>
    length wire = PT_MSG_HEADER_SIZE + length body \<and>
    (\<forall>c cs extra r rb. buf_ok rb \<and> pieces (c # cs) \<and> PT_MSG_HEADER_SIZE \<le> length c \<and>
       concat (c # cs) = wire @ extra \<and> sk_in r = map Chunk (c # cs) \<and>
       hops (length body) (eat PT_MSG_HEADER_SIZE (c # cs)) \<le> PT_COMM_MAXRECV \<longrightarrow>
       (\<exists>rest m. pt_comm_recv_msg E r rb = Some (t, r\<lparr>sk_in := map Chunk rest\<rparr>, data_buf m) \<and>
          msg_type m = t \<and> sint (msg_len m) = int (length body) \<and>
          take (length body) (msg_data m) = body \<and> concat rest = extra))"
proof -
  obtain pid d where build: "pt_comm_build_msg E (length body) t sb =
      Some (0, data_buf (enc_header (word_of_nat (length body)) t pid @ d))" "length body \<le> length d"
    using build_msg_spec [OF assms(1,2), of "length body" t] assms(3) by auto
  let ?m = "enc_msg t pid body" and ?k = "k\<lparr>sk_out := sk_out k @ enc_msg t pid body\<rparr>"
  have send: "pt_comm_send_msg k (?m @ drop (length body) d) = Some (0, ?k)"
    using assms by (intro send_msg_spec) simp_all
  have recv: "\<exists>rest m. pt_comm_recv_msg E r rb = Some (t, r\<lparr>sk_in := map Chunk rest\<rparr>, data_buf m) \<and>
      msg_type m = t \<and> sint (msg_len m) = int (length body) \<and>
      take (length body) (msg_data m) = body \<and> concat rest = extra"
    if c: "buf_ok rb" "pieces (c # cs)" "PT_MSG_HEADER_SIZE \<le> length c" "concat (c # cs) = ?m @ extra"
      "sk_in r = map Chunk (c # cs)" "hops (length body) (eat PT_MSG_HEADER_SIZE (c # cs)) \<le> PT_COMM_MAXRECV"
    for c cs extra and r :: sock and rb
  proof -
    let ?rest = "eat (PT_MSG_HEADER_SIZE + length body) (c # cs)"
    obtain d' where "pt_comm_recv_msg E r rb =
        Some (t, r\<lparr>sk_in := map Chunk ?rest\<rparr>, data_buf (?m @ d'))"
      using recv_msg_complete [OF c(1) assms(2) c(2-4) assms(3) c(6), of r "[]"] c(5) by auto
    moreover have "concat ?rest = extra" using c(4) by (simp del: eat.simps concat.simps)
    moreover have "sint (msg_len (?m @ d')) = int (length body)"
      using assms(3) by (simp add: enc_msg_def sint_of_len)
    moreover have "msg_type (?m @ d') = t" and "take (length body) (msg_data (?m @ d')) = body"
      by (simp_all add: enc_msg_def)
    ultimately show ?thesis by blast
  qed
  have "Option.bind (bf_data (data_buf (enc_header (word_of_nat (length body)) t pid @ d)))
      (put_at PT_MSG_HEADER_SIZE body) = Some (?m @ drop (length body) d)"
    using put_body [OF build(2)] by (simp add: enc_msg_def)
  moreover have "sk_out ?k = sk_out k @ ?m" by simp
  moreover have "length ?m = PT_MSG_HEADER_SIZE + length body" by simp
  ultimately show ?thesis using build(1) send recv by blast
qed

theorem comm_roundtrip_witness:
  "\<exists>buf d k1 wire r m. pt_comm_build_msg full_env 3 PT_MSG_FRAME bufst = Some (0, buf) \<and>
    Option.bind (bf_data buf) (put_at PT_MSG_HEADER_SIZE ''abc'') = Some d \<and>
    pt_comm_send_msg \<lparr>sk_in = [], sk_out = [], sk_fails = []\<rparr> d = Some (0, k1) \<and> sk_out k1 = wire \<and>
    pt_comm_recv_msg full_env \<lparr>sk_in = [Chunk wire], sk_out = [], sk_fails = []\<rparr> bufst =
      Some (PT_MSG_FRAME, r, data_buf m) \<and> take 3 (msg_data m) = ''abc''"
  using comm_roundtrip [of bufst full_env "''abc''" "\<lparr>sk_in = [], sk_out = [], sk_fails = []\<rparr>" PT_MSG_FRAME]
  apply (elim exE conjE meta_impE, simp, simp, simp, simp)
  subgoal for buf d k1 wire
    apply (drule spec [of _ wire], drule spec [of _ "[]"], drule spec [of _ "[]"],
        drule spec [of _ "\<lparr>sk_in = [Chunk wire], sk_out = [], sk_fails = []\<rparr>"], drule spec [of _ bufst])
    apply (erule impE)
     apply (simp add: pieces_def PT_COMM_MAXRECV_def PT_MSG_HEADER_SIZE_def)
     apply force
    apply (auto simp: numeral_3_eq_3)
    done
  done

text \<open>
  C9: Receiving is memory safe on every stream, hostile ones included: whatever pieces, failures and
  ends the stream holds, \<open>pt_comm_recv_msg\<close> returns, never writes outside its buffer, keeps the
  recorded size of the buffer true, and uses up a part of the stream unless the peer is gone.
\<close>

theorem recv_memory_safe:
  assumes "buf_ok buf" and "roomy E"
  shows "\<exists>c k' buf'. pt_comm_recv_msg E k buf = Some (c, k', buf') \<and> buf_ok buf' \<and>
    (c = PT_MSG_PEERDOWN \<or> pending k' < pending k)"
  using recv_msg_safe [OF assms, of k] by blast

theorem recv_memory_safe_witness:
  "\<exists>c k' buf'. pt_comm_recv_msg full_env \<lparr>sk_in = [Idle], sk_out = [], sk_fails = []\<rparr> bufst =
      Some (c, k', buf') \<and> buf_ok buf' \<and>
    (c = PT_MSG_PEERDOWN \<or> pending k' < pending \<lparr>sk_in = [Idle], sk_out = [], sk_fails = []\<rparr>)"
  using recv_memory_safe [of bufst full_env "\<lparr>sk_in = [Idle], sk_out = [], sk_fails = []\<rparr>"] by simp

text \<open>
  C24: A header whose length is negative or above one megabyte is refused with \<open>PT_MSG_INVALID\<close>
  before anything of the body is read.
\<close>

theorem recv_refuses_bad_length:
  assumes "buf_ok buf" and "roomy E" and "1024 * 1024 < sint len \<or> sint len < 0"
    and "sk_in k = Chunk (enc_header len t pid @ body) # rest"
  shows "\<exists>buf'. pt_comm_recv_msg E k buf =
    Some (PT_MSG_INVALID, k\<lparr>sk_in := (if body = [] then [] else [Chunk body]) @ rest\<rparr>, buf')"
proof -
  have p: "pieces [enc_header len t pid @ body]" "PT_MSG_HEADER_SIZE \<le> length (enc_header len t pid @ body)"
    using length_enc_header [of len t pid] by (auto simp: pieces_def PT_MSG_HEADER_SIZE_def
        simp del: length_enc_header)
  from recv_msg_bad_length [OF assms(1,2) p, of len t pid body k rest] assms(3,4) show ?thesis
    by (auto simp: PT_MSG_HEADER_SIZE_def)
qed

theorem recv_refuses_bad_length_witness:
  "\<exists>buf'. pt_comm_recv_msg full_env \<lparr>sk_in = [Chunk (enc_header 0xFFFFFFFF PT_MSG_REQ 1 @ ''x'')],
       sk_out = [], sk_fails = []\<rparr> bufst =
     Some (PT_MSG_INVALID, \<lparr>sk_in = [Chunk ''x''], sk_out = [], sk_fails = []\<rparr>, buf')"
  using recv_refuses_bad_length [of bufst full_env "0xFFFFFFFF" "\<lparr>sk_in = [Chunk (enc_header 0xFFFFFFFF PT_MSG_REQ 1 @ ''x'')],
       sk_out = [], sk_fails = []\<rparr>" PT_MSG_REQ 1 "''x''" "[]"] by simp

text \<open>
  A valid message whose body the stream delivers in more than ten pieces is given up as
  \<open>PT_MSG_INVALID\<close>, although all of its bytes arrive.
\<close>

lemma recv_gives_up_fragmented:
  assumes "buf_ok buf" and "roomy E" and "pieces cs" and "concat cs = body"
    and "length body \<le> 1024 * 1024" and "PT_COMM_MAXRECV < length cs"
    and "sk_in k = Chunk (enc_header (word_of_nat (length body)) t pid) # map Chunk cs"
  shows "\<exists>k' buf'. pt_comm_recv_msg E k buf = Some (PT_MSG_INVALID, k', buf')"
proof -
  let ?h = "enc_header (word_of_nat (length body)) t pid"
  have ne: "?h \<noteq> []" by simp
  have hops: "hops (length (concat cs)) cs = length cs" if "pieces cs" for cs
    using that
  proof (induction cs)
    case (Cons c cs)
    then show ?case by (cases cs) (auto simp: pieces_def)
  qed simp
  have "eat PT_MSG_HEADER_SIZE (?h # cs) = cs" by (simp add: PT_MSG_HEADER_SIZE_def)
  moreover have "hops (length body) cs = length cs" using hops assms(3,4) by blast
  ultimately show ?thesis
    using recv_msg_fragmented [OF assms(1,2), of ?h cs t pid body "[]" k "[]"] assms ne
    by (auto simp: pieces_def enc_msg_def simp del: eat.simps)
qed

text \<open>
  \<open>buf_prepare\<close> records the new size before it knows that the allocation succeeded. After one
  failed growth the buffer claims room it does not have, and every later message that fits in the
  claimed room is written through a \<open>NULL\<close> pointer.
\<close>

lemma failed_growth_poisons_buffer:
  assumes "bf_size buf < n" and "n < 2 ^ 63" and "\<not> alloc_ok E (max 4096 (n * 2))"
    and "PT_MSG_HEADER_SIZE + m \<le> max 4096 (n * 2)"
  shows "\<exists>buf'. buf_prepare E n buf = (-1, buf') \<and> buf_prepare E' (PT_MSG_HEADER_SIZE + m) buf' = (0, buf') \<and>
    pt_comm_build_msg E' m type buf' = None"
proof -
  define sz where "sz = max 4096 (n * 2)"
  have eq: "(if (n * 2) mod 2 ^ 64 < 4096 then 4096 else (n * 2) mod 2 ^ 64) = sz"
    using assms(2) by (simp add: sz_def max_def)
  have "buf_prepare E n buf = (-1, \<lparr>bf_data = None, bf_size = sz\<rparr>)"
    using assms(1,3) unfolding buf_prepare_def Let_def eq by (simp add: sz_def)
  moreover have "buf_prepare E' (PT_MSG_HEADER_SIZE + m) \<lparr>bf_data = None, bf_size = sz\<rparr> =
      (0, \<lparr>bf_data = None, bf_size = sz\<rparr>)"
    using assms(4) by (simp add: buf_prepare_def sz_def)
  moreover have "PT_MSG_HEADER_SIZE + m < 2 ^ 64" using assms(2,4) by (simp add: max_def split: if_splits)
  ultimately show ?thesis by (simp add: pt_comm_build_msg_def with_data_def)
qed

lemma failed_growth_poisons_buffer_witness:
  "\<exists>buf'. buf_prepare \<lparr>alloc_ok = (\<lambda>n. n < 100), junk = (\<lambda>_. NUL)\<rparr> 12 bufst = (-1, buf') \<and>
     buf_prepare full_env 12 buf' = (0, buf') \<and>
     pt_comm_build_msg full_env 0 PT_MSG_REQ buf' = None"
  using failed_growth_poisons_buffer [of bufst 12 "\<lparr>alloc_ok = (\<lambda>n. n < 100), junk = (\<lambda>_. NUL)\<rparr>" 0
      full_env PT_MSG_REQ]
  by (simp add: bufst_def PT_MSG_HEADER_SIZE_def)

end
