(* ===== verification/Trace_Conn.thy ===== *)
theory Trace_Conn
  imports Trace_Comm
begin

text \<open>
  Connections (\<open>pt_comm_connect\<close>, \<open>pt_comm_listen\<close>, \<open>pt_comm_accept\<close>, \<open>pt_comm_close\<close> of
  \<open>common/trace_comm.c\<close>) over a table of open descriptors, and the message functions of
  \<open>Trace_Comm\<close> on a descriptor.

  What the system answers to the coming attempts to connect is a list; an answer depends on the
  address. A descriptor that \<open>socket\<close> returns is one that is not in use.
\<close>

section \<open>The table of descriptors\<close>

datatype dial = No_Socket | Refused | Accepted sock

record net =
  nt_fds :: "int \<Rightarrow> sock option"
  nt_next :: int
  nt_dials :: "(bytes \<Rightarrow> dial) list"
  nt_accepts :: "sock option list"
  nt_paths :: "bytes \<Rightarrow> bool"

definition net_ok :: "net \<Rightarrow> bool" where
  "net_ok w \<longleftrightarrow> 0 \<le> nt_next w \<and> (\<forall>fd. nt_next w \<le> fd \<or> fd < 0 \<longrightarrow> nt_fds w fd = None)"

text \<open>A socket that nothing is connected to: \<open>recv\<close> and \<open>send\<close> fail.\<close>

definition dead_sock :: sock where
  "dead_sock = \<lparr>sk_in = [Fail], sk_out = [], sk_fails = [True]\<rparr>"

definition fd_open :: "sock \<Rightarrow> net \<Rightarrow> int \<times> net" where
  "fd_open k w = (nt_next w, w\<lparr>nt_fds := (nt_fds w)(nt_next w \<mapsto> k), nt_next := nt_next w + 1\<rparr>)"

definition fd_close :: "int \<Rightarrow> net \<Rightarrow> int \<times> net" where
  "fd_close fd w = (if nt_fds w fd = None then (-1, w) else (0, w\<lparr>nt_fds := (nt_fds w)(fd := None)\<rparr>))"

section \<open>The operations\<close>

text \<open>\<open>strncpy\<close> into \<open>sun_path\<close>, 108 bytes of which the last stays NUL.\<close>

definition sun_path :: "bytes \<Rightarrow> bytes" where
  "sun_path addrstr = take 107 (cstr addrstr)"

definition next_dial :: "bytes \<Rightarrow> net \<Rightarrow> dial \<times> net" where
  "next_dial path w = (case nt_dials w of [] \<Rightarrow> (Refused, w) | d # ds \<Rightarrow> (d path, w\<lparr>nt_dials := ds\<rparr>))"

definition pt_comm_connect :: "bytes \<Rightarrow> net \<Rightarrow> int \<times> net" where
  "pt_comm_connect addrstr w =
     (case next_dial (sun_path addrstr) w of (d, w) \<Rightarrow>
        case d of
          No_Socket \<Rightarrow> (-1, w)
        | Refused \<Rightarrow> (case fd_open dead_sock w of (fd, w) \<Rightarrow> (-1, w))
        | Accepted k \<Rightarrow> fd_open k w)"

text \<open>The answers of the system to the calls of \<open>pt_comm_listen\<close>.\<close>

datatype unlink_result = Unlinked | No_Entry | Unlink_Error

record listen_env =
  ln_socket :: bool
  ln_unlink :: "bytes \<Rightarrow> unlink_result"
  ln_bind :: bool
  ln_listen :: bool

definition pt_comm_listen :: "listen_env \<Rightarrow> bytes \<Rightarrow> net \<Rightarrow> int \<times> net" where
  "pt_comm_listen L addrstr w =
     (if \<not> ln_socket L then (-1, w)
      else case fd_open dead_sock w of (fd, w) \<Rightarrow>
        let path = sun_path addrstr in
        if ln_unlink L path = Unlink_Error then (-1, w)
        else let w = w\<lparr>nt_paths := (nt_paths w)(path := False)\<rparr> in
          if \<not> ln_bind L then (-1, w)
          else let w = w\<lparr>nt_paths := (nt_paths w)(path := True)\<rparr> in
            if \<not> ln_listen L then (-1, w) else (fd, w))"

definition pt_comm_accept :: "int \<Rightarrow> net \<Rightarrow> int \<times> net" where
  "pt_comm_accept fd w =
     (if nt_fds w fd = None then (-1, w)
      else case nt_accepts w of
        [] \<Rightarrow> (-1, w)
      | None # as \<Rightarrow> (-1, w\<lparr>nt_accepts := as\<rparr>)
      | Some k # as \<Rightarrow> fd_open k (w\<lparr>nt_accepts := as\<rparr>))"

definition pt_comm_close :: "int \<Rightarrow> bytes option \<Rightarrow> net \<Rightarrow> int \<times> net" where
  "pt_comm_close fd addrstr w =
     (let w = (case addrstr of None \<Rightarrow> w | Some a \<Rightarrow> w\<lparr>nt_paths := (nt_paths w)(cstr a := False)\<rparr>)
      in fd_close fd w)"

text \<open>The message functions on a descriptor; one that is not open makes \<open>recv\<close> and \<open>send\<close> fail.\<close>

definition fd_recv_msg ::
  "mem_env \<Rightarrow> int \<Rightarrow> net \<Rightarrow> pt_comm_buffer_t \<Rightarrow> (u32 \<times> net \<times> pt_comm_buffer_t) option" where
  "fd_recv_msg E fd w buf =
     (case nt_fds w fd of
        None \<Rightarrow> do { (c, _, buf) \<leftarrow> pt_comm_recv_msg E dead_sock buf; Some (c, w, buf) }
      | Some k \<Rightarrow> do {
          (c, k, buf) \<leftarrow> pt_comm_recv_msg E k buf;
          Some (c, w\<lparr>nt_fds := (nt_fds w)(fd \<mapsto> k)\<rparr>, buf)
        })"

definition fd_send_msg :: "int \<Rightarrow> bytes \<Rightarrow> net \<Rightarrow> (int \<times> net) option" where
  "fd_send_msg fd msg w =
     (case nt_fds w fd of
        None \<Rightarrow> do { (rc, _) \<leftarrow> pt_comm_send_msg dead_sock msg; Some (rc, w) }
      | Some k \<Rightarrow> do {
          (rc, k) \<leftarrow> pt_comm_send_msg k msg;
          Some (rc, w\<lparr>nt_fds := (nt_fds w)(fd \<mapsto> k)\<rparr>)
        })"

section \<open>What the operations keep\<close>

lemma fd_open_ok: "net_ok w \<Longrightarrow> fd_open k w = (fd, w') \<Longrightarrow> net_ok w' \<and> 0 \<le> fd \<and> nt_fds w fd = None"
  by (auto simp: fd_open_def net_ok_def)

lemma fd_close_ok: "net_ok w \<Longrightarrow> net_ok (snd (fd_close fd w))"
  by (auto simp: fd_close_def net_ok_def)

lemma next_dial_ok:
  "next_dial path w = (d, w') \<Longrightarrow> nt_fds w' = nt_fds w \<and> nt_next w' = nt_next w \<and> (net_ok w' \<longleftrightarrow> net_ok w)"
  by (auto simp: next_dial_def net_ok_def split: list.splits)

lemma connect_ok:
  assumes "net_ok w" and "pt_comm_connect addr w = (fd, w')"
  shows "net_ok w'" and "fd = -1 \<or> (0 \<le> fd \<and> nt_fds w fd = None \<and> nt_fds w' fd \<noteq> None)"
    and "nt_fds w f \<noteq> None \<Longrightarrow> nt_fds w' f = nt_fds w f"
proof -
  obtain d w1 where d: "next_dial (sun_path addr) w = (d, w1)" by force
  note same = next_dial_ok [OF d]
  have "net_ok w' \<and> (fd = -1 \<or> (0 \<le> fd \<and> nt_fds w fd = None \<and> nt_fds w' fd \<noteq> None)) \<and>
    (nt_fds w f \<noteq> None \<longrightarrow> nt_fds w' f = nt_fds w f)"
    using assms d same by (cases d) (auto simp: pt_comm_connect_def fd_open_def net_ok_def)
  then show "net_ok w'" and "fd = -1 \<or> (0 \<le> fd \<and> nt_fds w fd = None \<and> nt_fds w' fd \<noteq> None)"
    and "nt_fds w f \<noteq> None \<Longrightarrow> nt_fds w' f = nt_fds w f" by auto
qed

lemma dead_recv:
  assumes "buf_ok buf" and "roomy E"
  shows "\<exists>k' buf'. pt_comm_recv_msg E dead_sock buf = Some (PT_MSG_ERR_SOCK, k', buf') \<and> buf_ok buf'"
proof -
  obtain d where "buf_prepare E PT_MSG_HEADER_SIZE buf = (0, data_buf d)"
    using buf_prepare_spec [OF assms, of PT_MSG_HEADER_SIZE] by (auto simp: PT_MSG_HEADER_SIZE_def)
  then show ?thesis by (simp add: pt_comm_recv_msg_def dead_sock_def)
qed

text \<open>How much is still to come on a descriptor.\<close>

definition fd_pending :: "int \<Rightarrow> net \<Rightarrow> nat" where
  "fd_pending fd w = (case nt_fds w fd of None \<Rightarrow> 0 | Some k \<Rightarrow> pending k)"

lemma fd_recv_safe:
  assumes "buf_ok buf" and "roomy E" and "net_ok w"
  shows "\<exists>c w' buf'. fd_recv_msg E fd w buf = Some (c, w', buf') \<and> buf_ok buf' \<and> net_ok w' \<and>
    (nt_fds w' fd = None \<longleftrightarrow> nt_fds w fd = None) \<and> (\<forall>f. f \<noteq> fd \<longrightarrow> nt_fds w' f = nt_fds w f) \<and>
    nt_dials w' = nt_dials w \<and>
    (c = PT_MSG_PEERDOWN \<or> c = PT_MSG_ERR_SOCK \<or> fd_pending fd w' < fd_pending fd w)"
proof (cases "nt_fds w fd")
  case None
  with dead_recv [OF assms(1,2)] assms(3) show ?thesis by (auto simp: fd_recv_msg_def)
next
  case (Some k)
  from recv_msg_safe [OF assms(1,2), of k] obtain c k' buf' where
    "pt_comm_recv_msg E k buf = Some (c, k', buf')" "buf_ok buf'"
    "c \<noteq> PT_MSG_PEERDOWN \<longrightarrow> pending k' < pending k" by blast
  with Some assms(3) show ?thesis
    by (fastforce simp: fd_recv_msg_def fd_pending_def net_ok_def)
qed

lemma sock_send_in [simp]: "sk_in (snd (sock_send bs k)) = sk_in k"
  by (auto simp: sock_send_def split: list.splits)

lemma send_msg_pending: "pt_comm_send_msg k msg = Some (rc, k') \<Longrightarrow> sk_in k' = sk_in k"
  by (auto simp: pt_comm_send_msg_def bind_eq_Some_conv case_prod_beta split: if_splits)

lemma fd_send_keeps:
  assumes "fd_send_msg fd msg w = Some (rc, w')"
  shows "fd_pending f w' = fd_pending f w" and "nt_fds w' f = None \<longleftrightarrow> nt_fds w f = None"
    and "net_ok w' \<longleftrightarrow> net_ok w" and "nt_dials w' = nt_dials w"
proof -
  consider "w' = w" | k k' where "nt_fds w fd = Some k" "w' = w\<lparr>nt_fds := (nt_fds w)(fd \<mapsto> k')\<rparr>" "sk_in k' = sk_in k"
    using assms by (auto simp: fd_send_msg_def bind_eq_Some_conv dest!: send_msg_pending split: option.splits)
  then have "fd_pending f w' = fd_pending f w \<and> (nt_fds w' f = None \<longleftrightarrow> nt_fds w f = None) \<and>
    (net_ok w' \<longleftrightarrow> net_ok w) \<and> nt_dials w' = nt_dials w"
  proof cases
    case 2
    have "(nt_fds w' g = None) = (nt_fds w g = None)" for g using 2 by simp
    with 2 show ?thesis by (simp add: fd_pending_def pending_def net_ok_def)
  qed simp
  then show "fd_pending f w' = fd_pending f w" and "nt_fds w' f = None \<longleftrightarrow> nt_fds w f = None"
    and "net_ok w' \<longleftrightarrow> net_ok w" and "nt_dials w' = nt_dials w" by auto
qed

section \<open>Properties of connections\<close>

text \<open>
  Connecting gives either a new descriptor, connected and different from every open one, or -1.
  No descriptor that was open is touched. When the system refuses the connection the socket that was
  created for it stays open: the call returns -1 and leaves a descriptor behind that nothing names.
\<close>

lemma connect_outcomes:
  assumes "net_ok w"
  shows "case pt_comm_connect addr w of (fd, w') \<Rightarrow>
    net_ok w' \<and> (\<forall>f. nt_fds w f \<noteq> None \<longrightarrow> nt_fds w' f = nt_fds w f) \<and>
    (case fst (next_dial (sun_path addr) w) of
       No_Socket \<Rightarrow> fd = -1 \<and> nt_fds w' = nt_fds w
     | Refused \<Rightarrow> fd = -1 \<and> (\<exists>leaked. nt_fds w leaked = None \<and> nt_fds w' leaked \<noteq> None)
     | Accepted k \<Rightarrow> 0 \<le> fd \<and> nt_fds w fd = None \<and> nt_fds w' fd = Some k)"
proof (cases "pt_comm_connect addr w")
  case (Pair fd w')
  obtain d w1 where d: "next_dial (sun_path addr) w = (d, w1)" by force
  have "case d of No_Socket \<Rightarrow> fd = -1 \<and> nt_fds w' = nt_fds w
     | Refused \<Rightarrow> fd = -1 \<and> (\<exists>leaked. nt_fds w leaked = None \<and> nt_fds w' leaked \<noteq> None)
     | Accepted k \<Rightarrow> 0 \<le> fd \<and> nt_fds w fd = None \<and> nt_fds w' fd = Some k"
    using Pair d assms next_dial_ok [OF d]
    by (cases d) (auto simp: pt_comm_connect_def fd_open_def net_ok_def intro!: exI [of _ "nt_next w"])
  with Pair d connect_ok [OF assms Pair] show ?thesis by auto
qed

definition empty_net :: "(bytes \<Rightarrow> dial) list \<Rightarrow> net" where
  "empty_net ds = \<lparr>nt_fds = (\<lambda>_. None), nt_next = 3, nt_dials = ds, nt_accepts = [], nt_paths = (\<lambda>_. False)\<rparr>"

lemma net_ok_empty [simp]: "net_ok (empty_net ds)"
  by (simp add: net_ok_def empty_net_def)

text \<open>
  A server that binds an address longer than 107 bytes listens on its first 107 bytes, and the
  descriptor is closed and the socket file removed at the end only for addresses that fit: closing
  with the address that was given to \<open>pt_comm_listen\<close> removes the file exactly when the address was
  not cut.
\<close>

lemma listen_close_file:
  assumes "net_ok w" and "pt_comm_listen L addr w = (fd, w1)" and "fd \<noteq> -1"
    and "pt_comm_close fd (Some addr) w1 = (rc, w2)"
  shows "rc = 0 \<and> nt_fds w2 fd = None \<and> nt_paths w1 (sun_path addr) \<and>
    (nt_paths w2 (sun_path addr) \<longleftrightarrow> 107 < strlen addr)"
proof -
  have w1: "nt_paths w1 (sun_path addr)" "nt_fds w1 fd \<noteq> None"
    using assms(2,3) by (auto simp: pt_comm_listen_def fd_open_def Let_def split: if_splits)
  have "sun_path addr = cstr addr \<longleftrightarrow> strlen addr \<le> 107"
    by (auto simp: sun_path_def strlen_def)
  with w1 assms(4) show ?thesis
    by (auto simp: pt_comm_close_def fd_close_def Let_def split: if_splits)
qed

end
