(* ===== verification/Trace_Stream.thy ===== *)
theory Trace_Stream
  imports Trace_Conn
begin

text \<open>
  Streams of whole messages, as both ends of a connection see them: the pieces in which a message is
  delivered, and a peer that keeps the protocol. What can be received from such a peer is proved once,
  in a locale over the messages of one direction; the commands for the extension and the data for the
  tool are its two instances.
\<close>

section \<open>Delivery of one message\<close>

text \<open>The pieces in which the stream delivers a message: the header in one, the body in at most ten.\<close>

definition delivers :: "bytes list \<Rightarrow> bytes \<Rightarrow> bool" where
  "delivers cs m \<longleftrightarrow> pieces cs \<and> cs \<noteq> [] \<and> PT_MSG_HEADER_SIZE \<le> length (hd cs) \<and> concat cs = m \<and>
     hops (length m - PT_MSG_HEADER_SIZE) (eat PT_MSG_HEADER_SIZE cs) \<le> PT_COMM_MAXRECV"

lemma eat_all: "pieces cs \<Longrightarrow> eat (length (concat cs)) (cs @ tail) = tail"
proof (induction cs)
  case (Cons c cs)
  then show ?case by (auto simp: pieces_def)
qed simp

lemma eat_part: "pieces cs \<Longrightarrow> n \<le> length (concat cs) \<Longrightarrow> eat n (cs @ tail) = eat n cs @ tail"
  by (induction n cs rule: eat.induct) (auto simp: pieces_def)

lemma hops_part: "n \<le> length (concat cs) \<Longrightarrow> hops n (cs @ tail) = hops n cs"
proof (induction n cs rule: hops.induct)
  case (1 n)
  then show ?case by (cases tail) auto
qed auto

lemma delivers_whole: "delivers [enc_msg t pid body] (enc_msg t pid body)"
proof -
  have "hops n (if xs = [] then [] else [xs]) \<le> 1" for n :: nat and xs :: bytes by simp
  then show ?thesis by (auto simp: delivers_def pieces_def enc_msg_def PT_COMM_MAXRECV_def)
qed

lemma pieces_append: "pieces (a @ b) \<longleftrightarrow> pieces a \<and> pieces b"
  by (simp add: pieces_def)

lemma recv_delivered:
  assumes "buf_ok buf" and "roomy E" and d: "delivers cs (enc_msg t pid body)" and "pieces tail"
    and "length body \<le> 1024 * 1024" and "sk_in k = map Chunk (cs @ tail) @ rest"
  shows "\<exists>d. pt_comm_recv_msg E k buf = Some (t, k\<lparr>sk_in := map Chunk tail @ rest\<rparr>, data_buf (enc_msg t pid body @ d))"
proof -
  obtain c cs' where cs: "cs = c # cs'" using d by (cases cs) (auto simp: delivers_def)
  have len: "length (concat cs) = PT_MSG_HEADER_SIZE + length body" using d by (simp add: delivers_def)
  have p: "pieces (c # (cs' @ tail))" "PT_MSG_HEADER_SIZE \<le> length c"
    using d assms(4) cs by (auto simp: delivers_def pieces_def)
  have bytes: "concat (c # (cs' @ tail)) = enc_msg t pid body @ concat tail"
    using d cs by (simp add: delivers_def)
  have cs': "c # (cs' @ tail) = cs @ tail" using cs by simp
  have hops: "hops (length body) (eat PT_MSG_HEADER_SIZE (c # (cs' @ tail))) \<le> PT_COMM_MAXRECV"
    using d len by (simp add: cs' eat_part delivers_def hops_part)
  have eat: "eat (PT_MSG_HEADER_SIZE + length body) (c # (cs' @ tail)) = tail"
    using eat_all [of cs tail] d len by (simp add: cs' delivers_def)
  have "sk_in k = map Chunk (c # (cs' @ tail)) @ rest" using assms(6) cs by simp
  from recv_msg_complete [OF assms(1,2) p bytes assms(5) hops this] show ?thesis unfolding eat .
qed

section \<open>Sending\<close>

lemma send_msg_total:
  assumes "length body < 2 ^ 31"
  shows "\<exists>rc k'. pt_comm_send_msg k (enc_msg t pid body @ r) = Some (rc, k')"
proof -
  let ?h = "enc_header (word_of_nat (length body)) t pid"
  have len: "to_size (sint (word_of_nat (length body) :: u32)) = length body"
    using assms by (simp add: sint_of_len int_simps)
  have "peek PT_MSG_HEADER_SIZE (?h @ body @ r) = Some (?h, body @ r)" by simp
  then show ?thesis
    by (auto simp: pt_comm_send_msg_def enc_msg_def len case_prod_beta)
qed

lemma fd_send_total:
  assumes "length body < 2 ^ 31"
  shows "\<exists>rc w'. fd_send_msg fd (enc_msg t pid body @ r) w = Some (rc, w')"
  using send_msg_total [OF assms, of "case nt_fds w fd of None \<Rightarrow> dead_sock | Some k \<Rightarrow> k" t pid r]
  by (cases "nt_fds w fd") (auto simp: fd_send_msg_def)

text \<open>What receiving and sending leave alone: which descriptors are open, and what comes after them.\<close>

definition same_shape :: "net \<Rightarrow> net \<Rightarrow> bool" where
  "same_shape w w' \<longleftrightarrow> (\<forall>f. nt_fds w' f = None \<longleftrightarrow> nt_fds w f = None) \<and> nt_next w' = nt_next w \<and>
     nt_accepts w' = nt_accepts w \<and> nt_dials w' = nt_dials w \<and> nt_paths w' = nt_paths w"

lemma same_shape_refl [simp]: "same_shape w w"
  by (simp add: same_shape_def)

lemma same_shape_trans [trans]: "same_shape a b \<Longrightarrow> same_shape b c \<Longrightarrow> same_shape a c"
  by (simp add: same_shape_def)

lemma same_shape_ok: "same_shape w w' \<Longrightarrow> net_ok w \<Longrightarrow> net_ok w'"
  by (simp add: same_shape_def net_ok_def)

lemma same_shape_upd: "nt_fds w fd = Some k \<Longrightarrow> same_shape w (w\<lparr>nt_fds := (nt_fds w)(fd \<mapsto> k')\<rparr>)"
  by (auto simp: same_shape_def)

lemma fd_send_shape: "fd_send_msg fd m w = Some (rc, w') \<Longrightarrow> same_shape w w'"
  by (auto simp: fd_send_msg_def bind_eq_Some_conv same_shape_upd split: option.splits)

lemma fd_recv_shape: "fd_recv_msg E fd w buf = Some (c, w', buf') \<Longrightarrow> same_shape w w'"
  by (auto simp: fd_recv_msg_def bind_eq_Some_conv same_shape_upd split: option.splits)

section \<open>A peer that keeps the protocol\<close>

text \<open>
  What a peer may do at any time: send a message, stay silent, make a call fail, and, at the end of the
  stream, go away.
\<close>

inductive polite :: "('m \<Rightarrow> u32) \<Rightarrow> ('m \<Rightarrow> bytes) \<Rightarrow> ('m \<Rightarrow> bool) \<Rightarrow> sock_ev list \<Rightarrow> bool" for mtype body ok where
  polite_Nil: "polite mtype body ok []"
| polite_Idle: "polite mtype body ok es \<Longrightarrow> polite mtype body ok (Idle # es)"
| polite_Fail: "polite mtype body ok es \<Longrightarrow> polite mtype body ok (Fail # es)"
| polite_Msg: "ok m \<Longrightarrow> delivers cs (enc_msg (mtype m) pid (body m)) \<Longrightarrow> polite mtype body ok es \<Longrightarrow>
    polite mtype body ok (map Chunk cs @ es)"

lemmas polite_intros [intro] = polite_Nil polite_Idle polite_Fail

lemma polite_dead [simp]: "polite mtype body ok [Fail]"
  by blast

definition polite_net :: "('m \<Rightarrow> u32) \<Rightarrow> ('m \<Rightarrow> bytes) \<Rightarrow> ('m \<Rightarrow> bool) \<Rightarrow> net \<Rightarrow> bool" where
  "polite_net mtype body ok w \<longleftrightarrow> (\<forall>fd k. nt_fds w fd = Some k \<longrightarrow> polite mtype body ok (sk_in k)) \<and>
     (\<forall>d\<in>set (nt_dials w). \<forall>p k. d p = Accepted k \<longrightarrow> polite mtype body ok (sk_in k)) \<and>
     (\<forall>k. Some k \<in> set (nt_accepts w) \<longrightarrow> polite mtype body ok (sk_in k))"

text \<open>What \<open>pt_comm_recv_msg\<close> can report that is not a message.\<close>

definition recv_code :: "u32 \<Rightarrow> bool" where
  "recv_code c \<longleftrightarrow> c = PT_MSG_EMPTY \<or> c = PT_MSG_PEERDOWN \<or> c = PT_MSG_ERR_SOCK \<or> c = PT_MSG_ERR_BUF \<or> c = PT_MSG_INVALID"

lemma recv_nothing:
  assumes "buf_ok buf" and "roomy E"
    and "(es = [] \<and> c = PT_MSG_PEERDOWN \<and> rest = []) \<or> (es = Idle # rest \<and> c = PT_MSG_EMPTY) \<or>
      (es = Fail # rest \<and> c = PT_MSG_ERR_SOCK)" and "sk_in k = es"
  shows "\<exists>d. pt_comm_recv_msg E k buf = Some (c, k\<lparr>sk_in := rest\<rparr>, data_buf d)"
proof -
  obtain d where d: "buf_prepare E PT_MSG_HEADER_SIZE buf = (0, data_buf d)"
    using buf_prepare_spec [OF assms(1,2), of PT_MSG_HEADER_SIZE] by (auto simp: PT_MSG_HEADER_SIZE_def)
  with assms(3,4) show ?thesis by (auto simp: pt_comm_recv_msg_def)
qed

text \<open>The messages of one direction: their types are not the codes of failures, their bodies fit.\<close>

locale protocol =
  fixes mtype :: "'m \<Rightarrow> u32" and body :: "'m \<Rightarrow> bytes" and ok :: "'m \<Rightarrow> bool"
  assumes mtype_user: "\<not> recv_code (mtype m)"
    and body_fits: "ok m \<Longrightarrow> length (body m) \<le> 1024 * 1024"
begin

lemma recv_polite:
  assumes "buf_ok buf" and "roomy E" and "polite mtype body ok (sk_in k)"
  shows "\<exists>c es d. pt_comm_recv_msg E k buf = Some (c, k\<lparr>sk_in := es\<rparr>, data_buf d) \<and> polite mtype body ok es \<and>
    (c = PT_MSG_PEERDOWN \<or> c = PT_MSG_EMPTY \<or> c = PT_MSG_ERR_SOCK \<or>
     (\<exists>m pid r. ok m \<and> c = mtype m \<and> d = enc_msg (mtype m) pid (body m) @ r))"
  using assms(3)
proof (cases rule: polite.cases)
  case polite_Nil
  then show ?thesis using recv_nothing [OF assms(1,2), of "[]" PT_MSG_PEERDOWN "[]" k] by (auto intro: polite.intros)
next
  case (polite_Idle es)
  then show ?thesis using recv_nothing [OF assms(1,2), of "Idle # es" PT_MSG_EMPTY es k] by auto
next
  case (polite_Fail es)
  then show ?thesis using recv_nothing [OF assms(1,2), of "Fail # es" PT_MSG_ERR_SOCK es k] by auto
next
  case (polite_Msg m cs pid es)
  have "pieces []" by (simp add: pieces_def)
  with recv_delivered [OF assms(1,2) polite_Msg(3) _ body_fits [OF polite_Msg(2)], of "[]" k es] polite_Msg(1)
  obtain d where "pt_comm_recv_msg E k buf = Some (mtype m, k\<lparr>sk_in := es\<rparr>, data_buf (enc_msg (mtype m) pid (body m) @ d))"
    by auto
  with polite_Msg(2,4) show ?thesis by blast
qed

lemma fd_recv_polite:
  assumes "buf_ok buf" and "roomy E" and "net_ok w" and "polite_net mtype body ok w"
  shows "\<exists>c w' d. fd_recv_msg E fd w buf = Some (c, w', data_buf d) \<and> net_ok w' \<and> polite_net mtype body ok w' \<and>
    same_shape w w' \<and>
    (c = PT_MSG_PEERDOWN \<or> c = PT_MSG_EMPTY \<or> c = PT_MSG_ERR_SOCK \<or>
     (\<exists>m pid r. ok m \<and> c = mtype m \<and> d = enc_msg (mtype m) pid (body m) @ r))"
proof (cases "nt_fds w fd")
  case None
  obtain d where "pt_comm_recv_msg E dead_sock buf = Some (PT_MSG_ERR_SOCK, dead_sock\<lparr>sk_in := []\<rparr>, data_buf d)"
    using recv_nothing [OF assms(1,2), of "[Fail]" PT_MSG_ERR_SOCK "[]" dead_sock] by (auto simp: dead_sock_def)
  with None assms show ?thesis by (auto simp: fd_recv_msg_def)
next
  case (Some k)
  have "polite mtype body ok (sk_in k)" using assms(4) Some by (simp add: polite_net_def)
  from recv_polite [OF assms(1,2) this] obtain c es d where
    r: "pt_comm_recv_msg E k buf = Some (c, k\<lparr>sk_in := es\<rparr>, data_buf d)" "polite mtype body ok es"
      "c = PT_MSG_PEERDOWN \<or> c = PT_MSG_EMPTY \<or> c = PT_MSG_ERR_SOCK \<or>
       (\<exists>m pid r. ok m \<and> c = mtype m \<and> d = enc_msg (mtype m) pid (body m) @ r)" by blast
  let ?w = "w\<lparr>nt_fds := (nt_fds w)(fd \<mapsto> k\<lparr>sk_in := es\<rparr>)\<rparr>"
  have "net_ok ?w" using assms(3) Some by (auto simp: net_ok_def)
  moreover have "polite_net mtype body ok ?w" using assms(4) r(2) by (simp add: polite_net_def)
  ultimately show ?thesis using r Some by (auto simp: fd_recv_msg_def same_shape_upd)
qed

lemma connect_polite: "polite_net mtype body ok w \<Longrightarrow> pt_comm_connect addr w = (fd, w') \<Longrightarrow> polite_net mtype body ok w'"
  by (auto simp: pt_comm_connect_def next_dial_def fd_open_def polite_net_def dead_sock_def
      split: list.splits dial.splits if_splits)

lemma accept_polite: "polite_net mtype body ok w \<Longrightarrow> pt_comm_accept fd w = (cfd, w') \<Longrightarrow> polite_net mtype body ok w'"
  by (auto simp: pt_comm_accept_def fd_open_def polite_net_def split: list.splits option.splits if_splits)

lemma close_polite: "polite_net mtype body ok w \<Longrightarrow> polite_net mtype body ok (snd (pt_comm_close fd None w))"
  by (auto simp: pt_comm_close_def fd_close_def polite_net_def Let_def split: if_splits)

lemma send_polite: "polite_net mtype body ok w \<Longrightarrow> fd_send_msg fd m w = Some (rc, w') \<Longrightarrow> polite_net mtype body ok w'"
  by (auto simp: fd_send_msg_def polite_net_def bind_eq_Some_conv dest!: send_msg_pending split: option.splits if_splits)

end

end
