(* ===== verification/Trace_Ctrl.thy ===== *)
theory Trace_Ctrl
  imports Trace_Prelude
begin

unbundle bit_operations_syntax

text \<open>
  The control file (\<open>common/trace_mmap.c\<close>, \<open>common/trace_ctrl.c\<close>): one byte for every process
  id, mapped shared by every traced process and by the command line tool. The tool sets the bit of
  a process to make it connect; the process clears it when the connection is lost.

  The files are part of the state, so a mapping is the name of its file and its size: every process
  that maps a file reads and writes the same bytes. An access outside the mapping or behind the end
  of the file is undefined (a fault).
\<close>

section \<open>Files and mappings\<close>

record shm_file =
  fl_size :: nat
  fl_byte :: "nat \<Rightarrow> u8"

type_synonym files = "bytes \<Rightarrow> shm_file option"

text \<open>What the system calls answer: whether each of them succeeds.\<close>

record sys_env =
  sy_open :: bool
  sy_fstat :: bool
  sy_ftruncate :: bool
  sy_mmap :: bool
  sy_munmap :: bool

record pt_segment_t =
  seg_size :: nat
  seg_addr :: "bytes option"

definition reset_with_retval :: "int \<Rightarrow> int \<times> pt_segment_t" where
  "reset_with_retval retval = (retval, \<lparr>seg_size = 0, seg_addr = None\<rparr>)"

text \<open>
  \<open>mmap\<close> of a file; the descriptor is the file it was opened on, \<open>None\<close> the descriptor -1, which
  \<open>mmap\<close> refuses because the mapping is not anonymous, as it refuses a mapping of size 0.
\<close>

definition pt_mmap_open_fd :: "sys_env \<Rightarrow> files \<Rightarrow> bytes option \<Rightarrow> nat \<Rightarrow> int \<times> pt_segment_t" where
  "pt_mmap_open_fd Y fs fd sz =
     (case fd of
        None \<Rightarrow> reset_with_retval (-1)
      | Some name \<Rightarrow>
          if \<not> sy_fstat Y then reset_with_retval (-1)
          else case fs name of
            None \<Rightarrow> reset_with_retval (-1)
          | Some f \<Rightarrow>
              if 0 < sz \<and> fl_size f < sz then reset_with_retval (-1)
              else let sz = (if sz = 0 then fl_size f else sz) in
                if \<not> sy_mmap Y \<or> sz = 0 then reset_with_retval (-1)
                else (0, \<lparr>seg_size = sz, seg_addr = Some name\<rparr>))"

definition pt_mmap_open :: "sys_env \<Rightarrow> files \<Rightarrow> bytes \<Rightarrow> nat \<Rightarrow> int \<times> pt_segment_t" where
  "pt_mmap_open Y fs name sz =
     (if \<not> sy_open Y \<or> fs name = None then reset_with_retval (-1)
      else case pt_mmap_open_fd Y fs (Some name) sz of (rc, seg) \<Rightarrow>
        if rc < 0 then (-1, seg) else (0, seg))"

text \<open>\<open>ftruncate\<close>: bytes behind the old end read as zero.\<close>

definition ftruncate :: "shm_file \<Rightarrow> nat \<Rightarrow> shm_file" where
  "ftruncate f sz = \<lparr>fl_size = sz, fl_byte = (\<lambda>i. if i < fl_size f \<and> i < sz then fl_byte f i else 0)\<rparr>"

definition empty_file :: shm_file where
  "empty_file = \<lparr>fl_size = 0, fl_byte = (\<lambda>_. 0)\<rparr>"

definition pt_mmap_create :: "sys_env \<Rightarrow> files \<Rightarrow> bytes \<Rightarrow> nat \<Rightarrow> int \<times> pt_segment_t \<times> files" where
  "pt_mmap_create Y fs name sz =
     (if \<not> sy_open Y then case reset_with_retval (-1) of (rc, seg) \<Rightarrow> (rc, seg, fs)
      else
        let f = (case fs name of None \<Rightarrow> empty_file | Some f \<Rightarrow> f) in
        if \<not> sy_ftruncate Y then case reset_with_retval (-1) of (rc, seg) \<Rightarrow> (rc, seg, fs(name := None))
        else
          let fs = fs(name \<mapsto> ftruncate f sz) in
          case pt_mmap_open_fd Y fs (Some name) sz of (rc, seg) \<Rightarrow>
            if rc < 0 then (-1, seg, fs(name := None)) else (0, seg, fs))"

definition pt_mmap_close :: "sys_env \<Rightarrow> pt_segment_t \<Rightarrow> int \<times> pt_segment_t" where
  "pt_mmap_close Y seg = (if \<not> sy_munmap Y then (-1, seg) else reset_with_retval 0)"

text \<open>A read and a write through the mapping.\<close>

definition seg_read :: "files \<Rightarrow> pt_segment_t \<Rightarrow> nat \<Rightarrow> u8 option" where
  "seg_read fs seg i = do {
     name \<leftarrow> seg_addr seg;
     f \<leftarrow> fs name;
     if i < seg_size seg \<and> i < fl_size f then Some (fl_byte f i) else None
   }"

definition seg_write :: "files \<Rightarrow> pt_segment_t \<Rightarrow> nat \<Rightarrow> u8 \<Rightarrow> files option" where
  "seg_write fs seg i v = do {
     name \<leftarrow> seg_addr seg;
     f \<leftarrow> fs name;
     if i < seg_size seg \<and> i < fl_size f
     then Some (fs(name \<mapsto> f\<lparr>fl_byte := (fl_byte f)(i := v)\<rparr>)) else None
   }"

section \<open>The control module\<close>

definition PT_CTRL_FILENAME :: bytes where "PT_CTRL_FILENAME = ''phptrace.ctrl''"
definition PT_PID_MAX :: nat where "PT_PID_MAX = 4194304"
definition PT_CTRL_SIZE :: nat where "PT_CTRL_SIZE = PT_PID_MAX + 1"
definition PT_CTRL_CLEAR :: u8 where "PT_CTRL_CLEAR = 0x00"
definition PT_CTRL_ACTIVE :: u8 where "PT_CTRL_ACTIVE = 0x01"

definition pt_ctrl_open :: "sys_env \<Rightarrow> files \<Rightarrow> bytes \<Rightarrow> int \<times> pt_segment_t" where
  "pt_ctrl_open Y fs name = pt_mmap_open Y fs name PT_CTRL_SIZE"

definition pt_ctrl_create :: "sys_env \<Rightarrow> files \<Rightarrow> bytes \<Rightarrow> int \<times> pt_segment_t \<times> files" where
  "pt_ctrl_create Y fs name = pt_mmap_create Y fs name PT_CTRL_SIZE"

definition pt_ctrl_close :: "sys_env \<Rightarrow> pt_segment_t \<Rightarrow> int \<times> pt_segment_t" where
  "pt_ctrl_close Y seg = pt_mmap_close Y seg"

definition pt_ctrl_set_all :: "pt_segment_t \<Rightarrow> u8 \<Rightarrow> files \<Rightarrow> files option" where
  "pt_ctrl_set_all seg val fs =
     (if seg_size seg = 0 then Some fs
      else do {
        name \<leftarrow> seg_addr seg;
        f \<leftarrow> fs name;
        if seg_size seg \<le> fl_size f
        then Some (fs(name \<mapsto> f\<lparr>fl_byte := (\<lambda>i. if i < seg_size seg then val else fl_byte f i)\<rparr>))
        else None
      })"

definition pt_ctrl_clear_all :: "pt_segment_t \<Rightarrow> files \<Rightarrow> files option" where
  "pt_ctrl_clear_all seg fs = pt_ctrl_set_all seg PT_CTRL_CLEAR fs"

text \<open>\<open>pt_ctrl_pid\<close> is the byte at the address plus the process id; a negative id is before it.\<close>

definition pt_ctrl_pid :: "files \<Rightarrow> pt_segment_t \<Rightarrow> int \<Rightarrow> u8 option" where
  "pt_ctrl_pid fs seg pid = (if pid < 0 then None else seg_read fs seg (nat pid))"

definition pt_ctrl_is_active :: "pt_segment_t \<Rightarrow> int \<Rightarrow> files \<Rightarrow> bool option" where
  "pt_ctrl_is_active seg pid fs = map_option (\<lambda>b. b AND PT_CTRL_ACTIVE \<noteq> 0) (pt_ctrl_pid fs seg pid)"

definition pt_ctrl_set_active :: "pt_segment_t \<Rightarrow> int \<Rightarrow> files \<Rightarrow> files option" where
  "pt_ctrl_set_active seg pid fs = do {
     b \<leftarrow> pt_ctrl_pid fs seg pid;
     seg_write fs seg (nat pid) (b OR PT_CTRL_ACTIVE)
   }"

definition pt_ctrl_set_inactive :: "pt_segment_t \<Rightarrow> int \<Rightarrow> files \<Rightarrow> files option" where
  "pt_ctrl_set_inactive seg pid fs = do {
     b \<leftarrow> pt_ctrl_pid fs seg pid;
     seg_write fs seg (nat pid) (b AND NOT PT_CTRL_ACTIVE)
   }"

section \<open>The contract of a table of flags\<close>

text \<open>
  What the tool and the traced process rely on: a flag can be read for every valid index, setting
  and clearing one never fails there, changes that flag and no other.
\<close>

locale flag_table =
  fixes inv :: "'s \<Rightarrow> bool"
    and valid :: "'i \<Rightarrow> bool"
    and get :: "'i \<Rightarrow> 's \<Rightarrow> bool option"
    and put :: "bool \<Rightarrow> 'i \<Rightarrow> 's \<Rightarrow> 's option"
  assumes get_total: "inv s \<Longrightarrow> valid i \<Longrightarrow> \<exists>b. get i s = Some b"
    and put_total: "inv s \<Longrightarrow> valid i \<Longrightarrow> \<exists>s'. put b i s = Some s' \<and> inv s'"
    and get_put: "inv s \<Longrightarrow> valid i \<Longrightarrow> put b i s = Some s' \<Longrightarrow> get i s' = Some b"
    and get_put_other: "inv s \<Longrightarrow> valid i \<Longrightarrow> valid j \<Longrightarrow> i \<noteq> j \<Longrightarrow> put b i s = Some s' \<Longrightarrow>
      get j s' = get j s"

text \<open>A sequence of writes of flags by any of the processes.\<close>

fun put_seq :: "(bool \<Rightarrow> 'i \<Rightarrow> 's \<Rightarrow> 's option) \<Rightarrow> ('i \<times> bool) list \<Rightarrow> 's \<Rightarrow> 's option" where
  "put_seq put [] s = Some s"
| "put_seq put ((i, b) # ws) s = do { s \<leftarrow> put b i s; put_seq put ws s }"

text \<open>The value of the last write of an index, or the old value.\<close>

fun last_write :: "'i \<Rightarrow> bool option \<Rightarrow> ('i \<times> bool) list \<Rightarrow> bool option" where
  "last_write i old [] = old"
| "last_write i old ((j, b) # ws) = last_write i (if i = j then Some b else old) ws"

context flag_table
begin

lemma put_seq_last:
  assumes "inv s" and "list_all (valid \<circ> fst) ws" and "valid i"
  shows "\<exists>s'. put_seq put ws s = Some s' \<and> inv s' \<and> get i s' = last_write i (get i s) ws"
  using assms
proof (induction ws arbitrary: s)
  case Nil
  then show ?case by simp
next
  case (Cons w ws)
  obtain j b where w: "w = (j, b)" by force
  with Cons.prems obtain s1 where s1: "put b j s = Some s1" "inv s1"
    using put_total [of s j b] by auto
  have "get i s1 = (if i = j then Some b else get i s)"
    using s1 Cons.prems w get_put [of s j b s1] get_put_other [of s j i b s1] by auto
  with Cons.IH [OF s1(2)] Cons.prems s1 w show ?case by auto
qed

end

section \<open>The control file keeps the contract\<close>

text \<open>A mapped control file, and the ids it has room for.\<close>

definition ctrl_ok :: "pt_segment_t \<Rightarrow> files \<Rightarrow> bool" where
  "ctrl_ok seg fs \<longleftrightarrow> seg_size seg = PT_CTRL_SIZE \<and>
     (case seg_addr seg of None \<Rightarrow> False
      | Some name \<Rightarrow> case fs name of None \<Rightarrow> False | Some f \<Rightarrow> PT_CTRL_SIZE \<le> fl_size f)"

definition pid_ok :: "int \<Rightarrow> bool" where
  "pid_ok pid \<longleftrightarrow> 0 \<le> pid \<and> pid \<le> int PT_PID_MAX"

definition ctrl_put :: "pt_segment_t \<Rightarrow> bool \<Rightarrow> int \<Rightarrow> files \<Rightarrow> files option" where
  "ctrl_put seg b pid fs = (if b then pt_ctrl_set_active seg pid fs else pt_ctrl_set_inactive seg pid fs)"

lemma ctrl_okE:
  assumes "ctrl_ok seg fs"
  obtains name f where "seg_addr seg = Some name" and "fs name = Some f" and "PT_CTRL_SIZE \<le> fl_size f"
    and "seg_size seg = PT_CTRL_SIZE"
  using assms by (auto simp: ctrl_ok_def split: option.splits)

lemma flag_bits:
  "((b :: u8) OR PT_CTRL_ACTIVE) AND PT_CTRL_ACTIVE \<noteq> 0"
  "((b :: u8) AND NOT PT_CTRL_ACTIVE) AND PT_CTRL_ACTIVE = 0"
  "PT_CTRL_ACTIVE \<noteq> 0"
proof -
  show "PT_CTRL_ACTIVE \<noteq> 0" by (simp add: PT_CTRL_ACTIVE_def)
  show "(b OR PT_CTRL_ACTIVE) AND PT_CTRL_ACTIVE \<noteq> 0"
    by (simp add: PT_CTRL_ACTIVE_def bit.conj_disj_distrib2)
  show "(b AND NOT PT_CTRL_ACTIVE) AND PT_CTRL_ACTIVE = 0"
    by (simp add: and.assoc)
qed

lemma ctrl_get:
  assumes "ctrl_ok seg fs" and "pid_ok pid"
  shows "\<exists>b. pt_ctrl_is_active seg pid fs = Some b"
proof -
  have "nat pid < PT_CTRL_SIZE" using assms(2) by (auto simp: pid_ok_def PT_CTRL_SIZE_def)
  with assms show ?thesis
    by (auto elim!: ctrl_okE simp: pt_ctrl_is_active_def pt_ctrl_pid_def seg_read_def pid_ok_def)
qed

lemma ctrl_put_spec:
  assumes "ctrl_ok seg fs" and "pid_ok pid"
  shows "\<exists>fs'. ctrl_put seg b pid fs = Some fs' \<and> ctrl_ok seg fs' \<and>
    (\<forall>q. pid_ok q \<longrightarrow> pt_ctrl_is_active seg q fs' =
      (if q = pid then Some b else pt_ctrl_is_active seg q fs))"
proof -
  obtain name f where f: "seg_addr seg = Some name" "fs name = Some f" "PT_CTRL_SIZE \<le> fl_size f"
    "seg_size seg = PT_CTRL_SIZE" using assms(1) by (rule ctrl_okE)
  have in_range: "nat q < PT_CTRL_SIZE \<and> nat q < fl_size f \<and> \<not> q < 0" if "pid_ok q" for q
    using that f(3) by (auto simp: pid_ok_def PT_CTRL_SIZE_def)
  let ?v = "if b then fl_byte f (nat pid) OR PT_CTRL_ACTIVE else fl_byte f (nat pid) AND NOT PT_CTRL_ACTIVE"
  let ?fs = "fs(name \<mapsto> f\<lparr>fl_byte := (fl_byte f)(nat pid := ?v)\<rparr>)"
  have "ctrl_put seg b pid fs = Some ?fs"
    using f in_range [OF assms(2)]
    by (simp add: ctrl_put_def pt_ctrl_set_active_def pt_ctrl_set_inactive_def pt_ctrl_pid_def
        seg_read_def seg_write_def)
  moreover have "ctrl_ok seg ?fs" using f by (simp add: ctrl_ok_def)
  moreover have "pt_ctrl_is_active seg q ?fs = (if q = pid then Some b else pt_ctrl_is_active seg q fs)"
    if "pid_ok q" for q
    using f in_range [OF that] in_range [OF assms(2)]
    by (auto simp: pt_ctrl_is_active_def pt_ctrl_pid_def seg_read_def flag_bits)
  ultimately show ?thesis by blast
qed

interpretation ctrl_flags: flag_table "ctrl_ok seg" pid_ok "pt_ctrl_is_active seg" "ctrl_put seg" for seg
proof unfold_locales
  fix fs pid b fs' q
  assume ok: "ctrl_ok seg fs" "pid_ok pid"
  show "\<exists>b. pt_ctrl_is_active seg pid fs = Some b" by (rule ctrl_get [OF ok])
  show "\<exists>s'. ctrl_put seg b pid fs = Some s' \<and> ctrl_ok seg s'" using ctrl_put_spec [OF ok] by blast
  show "pt_ctrl_is_active seg pid fs' = Some b" if "ctrl_put seg b pid fs = Some fs'"
    using ctrl_put_spec [OF ok, of b] that ok by auto
  show "pt_ctrl_is_active seg q fs' = pt_ctrl_is_active seg q fs"
    if "pid_ok q" "pid \<noteq> q" "ctrl_put seg b pid fs = Some fs'"
    using ctrl_put_spec [OF ok, of b] that by auto
qed

text \<open>Writing all flags.\<close>

lemma ctrl_set_all_spec:
  assumes "ctrl_ok seg fs"
  shows "\<exists>fs'. pt_ctrl_set_all seg v fs = Some fs' \<and> ctrl_ok seg fs' \<and>
    (\<forall>p. pid_ok p \<longrightarrow> pt_ctrl_is_active seg p fs' = Some (v AND PT_CTRL_ACTIVE \<noteq> 0))"
proof -
  obtain name f where f: "seg_addr seg = Some name" "fs name = Some f" "PT_CTRL_SIZE \<le> fl_size f" "seg_size seg = PT_CTRL_SIZE"
    using assms by (rule ctrl_okE)
  have in_range: "nat q < PT_CTRL_SIZE \<and> nat q < fl_size f \<and> \<not> q < 0" if "pid_ok q" for q
    using that f(3) by (auto simp: pid_ok_def PT_CTRL_SIZE_def)
  have "PT_CTRL_SIZE \<noteq> 0" by (simp add: PT_CTRL_SIZE_def)
  with f in_range show ?thesis
    by (auto simp: pt_ctrl_set_all_def ctrl_ok_def pt_ctrl_is_active_def pt_ctrl_pid_def seg_read_def)
qed

section \<open>Creating, opening and closing\<close>

lemma ctrl_create_ok:
  assumes "pt_ctrl_create Y fs name = (0, seg, fs')"
  shows "seg = \<lparr>seg_size = PT_CTRL_SIZE, seg_addr = Some name\<rparr>" and "ctrl_ok seg fs'"
    and "fs' = fs(name \<mapsto> ftruncate (case fs name of None \<Rightarrow> empty_file | Some f \<Rightarrow> f) PT_CTRL_SIZE)"
  using assms
  by (auto simp: pt_ctrl_create_def pt_mmap_create_def pt_mmap_open_fd_def reset_with_retval_def
      ftruncate_def ctrl_ok_def Let_def split: if_splits option.splits prod.splits)

lemma ctrl_open_same:
  assumes "ctrl_ok \<lparr>seg_size = PT_CTRL_SIZE, seg_addr = Some name\<rparr> fs" and "sy_open Y" "sy_fstat Y" "sy_mmap Y"
  shows "pt_ctrl_open Y fs name = (0, \<lparr>seg_size = PT_CTRL_SIZE, seg_addr = Some name\<rparr>)"
  using assms by (auto simp: pt_ctrl_open_def pt_mmap_open_def pt_mmap_open_fd_def ctrl_ok_def
      PT_CTRL_SIZE_def Let_def split: option.splits)

lemma ctrl_put_other_file:
  "ctrl_put seg b pid fs = Some fs' \<Longrightarrow> seg_addr seg \<noteq> Some other \<Longrightarrow> fs' other = fs other"
  by (auto simp: ctrl_put_def pt_ctrl_set_active_def pt_ctrl_set_inactive_def seg_write_def
      bind_eq_Some_conv split: if_splits)

text \<open>A system whose calls all succeed, for the witnesses.\<close>

definition sys_ok :: sys_env where
  "sys_ok = \<lparr>sy_open = True, sy_fstat = True, sy_ftruncate = True, sy_mmap = True, sy_munmap = True\<rparr>"

lemma ctrl_create_sys_ok:
  "pt_ctrl_create sys_ok (\<lambda>_. None) name = (0, \<lparr>seg_size = PT_CTRL_SIZE, seg_addr = Some name\<rparr>,
     [name \<mapsto> ftruncate empty_file PT_CTRL_SIZE])"
  by (simp add: sys_ok_def pt_ctrl_create_def pt_mmap_create_def pt_mmap_open_fd_def ftruncate_def
      PT_CTRL_SIZE_def)

section \<open>Properties of the control file\<close>

text \<open>
  C30: Once a traced process has created the control file, a tool that opens it gets a mapping of the
  same bytes, and after any sequence of switching processes on and off, by whichever side, the flag
  of a process id up to \<open>PT_PID_MAX\<close> is the last one written for that id and no other id disturbs it.
\<close>

theorem ctrl_last_write_wins:
  assumes "pt_ctrl_create Y fs name = (0, seg, fs0)" and "list_all (pid_ok \<circ> fst) ws" and "pid_ok pid"
  shows "\<exists>fs'. put_seq (ctrl_put seg) ws fs0 = Some fs' \<and>
    pt_ctrl_is_active seg pid fs' = last_write pid (pt_ctrl_is_active seg pid fs0) ws \<and>
    pt_ctrl_is_active seg pid fs' \<noteq> None \<and> pt_ctrl_open sys_ok fs' name = (0, seg)"
proof -
  note c = ctrl_create_ok [OF assms(1)]
  obtain fs' where fs': "put_seq (ctrl_put seg) ws fs0 = Some fs'" "ctrl_ok seg fs'"
    "pt_ctrl_is_active seg pid fs' = last_write pid (pt_ctrl_is_active seg pid fs0) ws"
    using ctrl_flags.put_seq_last [OF c(2) assms(2,3)] by blast
  moreover have "pt_ctrl_open sys_ok fs' name = (0, seg)"
    using ctrl_open_same [of name fs' sys_ok] fs'(2) c(1) by (simp add: sys_ok_def)
  ultimately show ?thesis using ctrl_get [OF fs'(2) assms(3)] by auto
qed

theorem ctrl_last_write_wins_witness:
  "\<exists>fs'. put_seq (ctrl_put \<lparr>seg_size = PT_CTRL_SIZE, seg_addr = Some ''/tmp/phptrace.ctrl''\<rparr>)
      [(7, True), (4194304, True), (7, False)] [''/tmp/phptrace.ctrl'' \<mapsto> ftruncate empty_file PT_CTRL_SIZE] = Some fs' \<and>
    pt_ctrl_is_active \<lparr>seg_size = PT_CTRL_SIZE, seg_addr = Some ''/tmp/phptrace.ctrl''\<rparr> 4194304 fs' = Some True"
  using ctrl_last_write_wins [OF ctrl_create_sys_ok, of "[(7, True), (4194304, True), (7, False)]" 4194304
      "''/tmp/phptrace.ctrl''"]
  by (simp add: pid_ok_def PT_PID_MAX_def) blast

text \<open>
  Creating the control file never clears it: the flags of an older, large enough file stay as
  they were, so a process id that was left switched on is still on after a restart. A file that was
  missing starts with every flag off. When creation fails the mapping is reset and its return value
  is -1.
\<close>

lemma ctrl_create_keeps_flags:
  "case pt_ctrl_create Y fs name of (rc, seg, fs') \<Rightarrow>
     if rc = 0 then
       (\<forall>pid. 0 \<le> pid \<and> pid \<le> int PT_PID_MAX \<longrightarrow>
          pt_ctrl_is_active seg pid fs' =
            (case fs name of
               None \<Rightarrow> Some False
             | Some f \<Rightarrow> Some (int (fl_size f) > pid \<and> fl_byte f (nat pid) AND PT_CTRL_ACTIVE \<noteq> 0)))
     else rc = -1 \<and> seg = \<lparr>seg_size = 0, seg_addr = None\<rparr> \<and> (\<forall>n. n \<noteq> name \<longrightarrow> fs' n = fs n)"
proof (cases "pt_ctrl_create Y fs name")
  case (fields rc seg fs')
  show ?thesis
  proof (cases "rc = 0")
    case True
    note c = ctrl_create_ok [OF fields [unfolded True]]
    have "pt_ctrl_is_active seg pid fs' = (case fs name of None \<Rightarrow> Some False
        | Some f \<Rightarrow> Some (int (fl_size f) > pid \<and> fl_byte f (nat pid) AND PT_CTRL_ACTIVE \<noteq> 0))"
      if "0 \<le> pid" "pid \<le> int PT_PID_MAX" for pid
    proof -
      have r: "nat pid < PT_CTRL_SIZE" "(nat pid < m) = (pid < int m)" for m
        using that by (auto simp: PT_CTRL_SIZE_def)
      show ?thesis
        using that r c by (auto simp: pt_ctrl_is_active_def pt_ctrl_pid_def seg_read_def
            ftruncate_def empty_file_def split: option.split)
    qed
    with fields True show ?thesis by simp
  next
    case False
    with fields show ?thesis
      by (auto simp: pt_ctrl_create_def pt_mmap_create_def pt_mmap_open_fd_def reset_with_retval_def
          Let_def split: if_splits option.splits prod.splits)
  qed
qed

text \<open>
  The macros that read and write a flag check nothing: for every id outside the range of the
  file, negative ones included, each of them is an access outside the mapping.
\<close>

lemma ctrl_access_iff_in_range:
  assumes "ctrl_ok seg fs"
  shows "(pt_ctrl_is_active seg pid fs \<noteq> None \<longleftrightarrow> 0 \<le> pid \<and> pid \<le> 4194304) \<and>
    (pt_ctrl_set_active seg pid fs \<noteq> None \<longleftrightarrow> 0 \<le> pid \<and> pid \<le> 4194304) \<and>
    (pt_ctrl_set_inactive seg pid fs \<noteq> None \<longleftrightarrow> 0 \<le> pid \<and> pid \<le> 4194304)"
proof -
  obtain name f where f: "seg_addr seg = Some name" "fs name = Some f" "PT_CTRL_SIZE \<le> fl_size f"
    "seg_size seg = PT_CTRL_SIZE" using assms by (rule ctrl_okE)
  have "seg_read fs seg (nat pid) \<noteq> None \<longleftrightarrow> pid \<le> 4194304" "(nat pid < PT_CTRL_SIZE) = (pid \<le> 4194304)"
    if "0 \<le> pid" using that f by (auto simp: seg_read_def PT_CTRL_SIZE_def PT_PID_MAX_def)
  with f show ?thesis
    by (cases "pid < 0") (auto simp: pt_ctrl_is_active_def pt_ctrl_set_active_def pt_ctrl_set_inactive_def
        pt_ctrl_pid_def seg_read_def seg_write_def)
qed

end
