(* ===== verification/Ext_Trace.thy ===== *)
theory Ext_Trace
  imports Ext_Frame Trace_Filter Trace_Stream Trace_Ctrl
begin

unbundle bit_operations_syntax

text \<open>
  The state machine of the extension (\<open>extension/trace.c\<close>, PHP 7.1 and later): the module globals,
  sending frames, requests and statuses, filtering, commands from the tool and errors of the
  connection. The executor that is wrapped around every call of the engine is in \<open>Ext_Exec\<close>.

  The state holds the module globals (\<open>g_\<close>) and what the operations share with the outside
  (\<open>w_\<close>): descriptors, files, the message buffer, the number of clock readings so far, what was
  displayed and which errors PHP was told. An operation returns \<open>None\<close> for undefined behaviour.
\<close>

section \<open>The state\<close>

datatype display = Show_Frame bytes pt_frame_t | Show_Request bytes "bytes pt_request_t"
  | Show_Status "bytes pt_status_t"

datatype php_error = Unknown_Message u32 | Without_Scope | Build_Failed nat | Ctrl_Open_Failed | Table_Failed

record ext_state =
  g_enable :: bool
  g_dotrace :: u64
  g_ctrl :: pt_segment_t
  g_ctrl_file :: bytes
  g_sock_fd :: int
  g_sock_addr :: bytes
  g_pid :: int
  g_level :: int
  g_request :: "bytes pt_request_t"
  g_exc_time_table :: "u64 list option"
  g_exc_time_len :: nat
  g_pft :: pt_filter_t
  w_net :: net
  w_files :: files
  w_buf :: pt_comm_buffer_t
  w_ticks :: nat
  w_shown :: "display list"
  w_errors :: "php_error list"
  w_hooked :: bool

text \<open>The times that the system gives.\<close>

record timeval =
  tv_sec :: int
  tv_usec :: int

record rusage =
  ru_utime :: timeval
  ru_stime :: timeval

text \<open>The host: allocator, engine, the clock (what each reading gives) and the process id.\<close>

record host =
  ho_mem :: mem_env
  ho_zend :: zend_env
  ho_gettimeofday :: "nat \<Rightarrow> timeval"
  ho_sys :: sys_env
  ho_getpid :: int

definition TRACE_TO_OUTPUT :: u64 where "TRACE_TO_OUTPUT = push_bit 0 1"
definition TRACE_TO_TOOL :: u64 where "TRACE_TO_TOOL = push_bit 1 1"
definition TRACE_TO_NULL :: u64 where "TRACE_TO_NULL = push_bit 2 1"

definition CTRL_IS_ACTIVE :: "ext_state \<Rightarrow> bool option" where
  "CTRL_IS_ACTIVE st = pt_ctrl_is_active (g_ctrl st) (g_pid st) (w_files st)"

definition CTRL_SET_INACTIVE :: "ext_state \<Rightarrow> ext_state option" where
  "CTRL_SET_INACTIVE st = do {
     fs \<leftarrow> pt_ctrl_set_inactive (g_ctrl st) (g_pid st) (w_files st);
     Some (st\<lparr>w_files := fs\<rparr>)
   }"

definition usec :: "timeval \<Rightarrow> int" where
  "usec tv = tv_sec tv * PT_USEC_PER_SEC + tv_usec tv"

definition ho_clock :: "host \<Rightarrow> nat \<Rightarrow> int" where
  "ho_clock H n = usec (ho_gettimeofday H n)"

definition pt_time_sec :: "host \<Rightarrow> ext_state \<Rightarrow> int \<times> ext_state" where
  "pt_time_sec H st = (tv_sec (ho_gettimeofday H (w_ticks st)), st\<lparr>w_ticks := Suc (w_ticks st)\<rparr>)"

definition pt_cputime_usec :: "rusage \<Rightarrow> int" where
  "pt_cputime_usec usage = tv_sec (ru_utime usage) * PT_USEC_PER_SEC + tv_usec (ru_utime usage) +
     tv_sec (ru_stime usage) * PT_USEC_PER_SEC + tv_usec (ru_stime usage)"

definition pt_time_usec :: "host \<Rightarrow> ext_state \<Rightarrow> int \<times> ext_state" where
  "pt_time_usec H st = (ho_clock H (w_ticks st), st\<lparr>w_ticks := Suc (w_ticks st)\<rparr>)"

definition php_error :: "php_error \<Rightarrow> ext_state \<Rightarrow> ext_state" where
  "php_error e st = st\<lparr>w_errors := w_errors st @ [e]\<rparr>"

section \<open>Sending\<close>

text \<open>
  The body that \<open>frame_send\<close>, \<open>request_send\<close> and \<open>status_send\<close> share: the length, the message
  of that size, the packed data in it, the process id, the socket.
\<close>

definition msg_send :: "host \<Rightarrow> u32 \<Rightarrow> nat option \<Rightarrow> (cursor \<Rightarrow> cursor option) \<Rightarrow> ext_state \<Rightarrow>
  (int \<times> ext_state) option" where
  "msg_send H type len pack st = do {
     n \<leftarrow> len;
     (rc, buf) \<leftarrow> pt_comm_build_msg (ho_mem H) n type (w_buf st);
     if rc = -1 then Some (-1, php_error (Build_Failed n) (st\<lparr>w_buf := buf\<rparr>))
     else do {
       d \<leftarrow> bf_data buf;
       (d, _) \<leftarrow> pack (d, PT_MSG_HEADER_SIZE);
       d \<leftarrow> put_at 8 (enc_int (word_of_int (g_pid st) :: u32)) d;
       let st = st\<lparr>w_buf := buf\<lparr>bf_data := Some d\<rparr>\<rparr>;
       (rc, w) \<leftarrow> fd_send_msg (g_sock_fd st) d (w_net st);
       let st = st\<lparr>w_net := w\<rparr>;
       if rc = -1 then Some (-1, st) else Some (0, st)
     }
   }"

definition frame_send :: "host \<Rightarrow> pt_frame_t \<Rightarrow> ext_state \<Rightarrow> (int \<times> ext_state) option" where
  "frame_send H frame st = msg_send H PT_MSG_FRAME (pt_type_len_frame frame) (pt_type_pack_frame frame) st"

definition request_send :: "host \<Rightarrow> bytes pt_request_t \<Rightarrow> ext_state \<Rightarrow> (int \<times> ext_state) option" where
  "request_send H request st =
     msg_send H PT_MSG_REQ (pt_type_len_request request) (pt_type_pack_request request) st"

definition status_send :: "host \<Rightarrow> bytes pt_status_t \<Rightarrow> ext_state \<Rightarrow> (int \<times> ext_state) option" where
  "status_send H status st =
     msg_send H PT_MSG_STATUS (pt_type_len_status status) (pt_type_pack_status status) st"

section \<open>The filter of frames\<close>

text \<open>\<open>strstr\<close> with a \<open>NULL\<close> content is undefined.\<close>

definition content_in :: "bytes \<Rightarrow> pt_filter_t \<Rightarrow> bool option" where
  "content_in s f = map_option (\<lambda>c. strstr_found s (sh_buf c)) (ft_content f)"

definition filter_function :: "zend_function \<Rightarrow> pt_filter_t \<Rightarrow> bool option" where
  "filter_function zf f =
     (if ft_type f AND PT_FILTER_FUNCTION_NAME \<noteq> 0
      then (case zf_function_name zf of None \<Rightarrow> Some False | Some n \<Rightarrow> content_in n f)
      else Some False)"

definition filter_class :: "zend_function \<Rightarrow> pt_filter_t \<Rightarrow> bool option" where
  "filter_class zf f =
     (if ft_type f AND PT_FILTER_CLASS_NAME \<noteq> 0
      then (case zf_scope zf of None \<Rightarrow> Some False
            | Some c \<Rightarrow> case cl_name c of None \<Rightarrow> Some False | Some n \<Rightarrow> content_in n f)
      else Some False)"

definition filter_frame :: "zend_execute_data \<Rightarrow> ext_state \<Rightarrow> u64 option" where
  "filter_frame ex st =
     (if ft_type (g_pft st) AND (PT_FILTER_FUNCTION_NAME OR PT_FILTER_CLASS_NAME) \<noteq> 0 then do {
        zf \<leftarrow> obtain_zend_function ex;
        a \<leftarrow> filter_function zf (g_pft st);
        b \<leftarrow> filter_class zf (g_pft st);
        Some (if a \<or> b then g_dotrace st else 0)
      }
      else Some (g_dotrace st))"

section \<open>Errors of the connection\<close>

text \<open>The part of \<open>handle_error\<close> that switches tracing off.\<close>

definition trace_off :: "ext_state \<Rightarrow> ext_state option" where
  "trace_off st = do {
     st \<leftarrow> CTRL_SET_INACTIVE (st\<lparr>g_dotrace := g_dotrace st AND NOT TRACE_TO_TOOL\<rparr>);
     let st = (if g_sock_fd st \<noteq> -1
               then st\<lparr>w_net := snd (pt_comm_close (g_sock_fd st) None (w_net st)), g_sock_fd := -1\<rparr>
               else st);
     Some (st\<lparr>g_pft := pt_filter_dtr (g_pft st)\<rparr>)
   }"

definition handle_error :: "ext_state \<Rightarrow> ext_state option" where
  "handle_error st = do {
     retry \<leftarrow> (if g_sock_fd st \<noteq> -1 then CTRL_IS_ACTIVE st else Some False);
     if retry then
       (case pt_comm_connect (g_sock_addr st) (w_net st) of (fd, w) \<Rightarrow>
          let st = st\<lparr>g_sock_fd := fd, w_net := w\<rparr> in
          if fd \<noteq> -1 then Some st else trace_off st)
     else trace_off st
   }"

section \<open>Commands of the tool\<close>

definition ext_recv :: "host \<Rightarrow> ext_state \<Rightarrow> (u32 \<times> ext_state) option" where
  "ext_recv H st = do {
     (c, w, buf) \<leftarrow> fd_recv_msg (ho_mem H) (g_sock_fd st) (w_net st) (w_buf st);
     Some (c, st\<lparr>w_buf := buf, w_net := w\<rparr>)
   }"

text \<open>The cases of the \<open>switch\<close> that stay in the loop; \<open>cur\<close> is \<open>EG(current_execute_data)\<close>.\<close>

definition handle_msg :: "host \<Rightarrow> zend_execute_data option \<Rightarrow> u32 \<Rightarrow> ext_state \<Rightarrow> ext_state option" where
  "handle_msg H cur c st =
     (if c = PT_MSG_DO_TRACE then Some (st\<lparr>g_dotrace := g_dotrace st OR TRACE_TO_TOOL\<rparr>)
      else if c = PT_MSG_DO_FILTER then do {
        msg \<leftarrow> bf_data (w_buf st);
        (f, _) \<leftarrow> pt_filter_unpack_filter_msg (ho_mem H) (msg_data msg);
        Some (st\<lparr>g_pft := f\<rparr>)
      }
      else if c = PT_MSG_DO_STATUS then do {
        status \<leftarrow> status_build (ho_mem H) (ho_zend H) (g_level st) True cur;
        (_, st) \<leftarrow> status_send H status st;
        Some st
      }
      else do {
        msg \<leftarrow> bf_data (w_buf st);
        Some (php_error (Unknown_Message (msg_type msg)) st)
      })"

definition recv_error :: "u32 \<Rightarrow> bool" where
  "recv_error c \<longleftrightarrow> c = PT_MSG_PEERDOWN \<or> c = PT_MSG_ERR_SOCK \<or> c = PT_MSG_ERR_BUF \<or> c = PT_MSG_INVALID"

text \<open>The loop ends because every message uses up a part of the stream.\<close>

definition ext_pending :: "ext_state \<Rightarrow> nat" where
  "ext_pending st = fd_pending (g_sock_fd st) (w_net st)"

lemma recv_body_pending:
  "recv_body i len recvlen d k = Some (ret, recvlen', d', k') \<Longrightarrow> pending k' \<le> pending k"
proof (induction i arbitrary: recvlen d k)
  case (Suc i)
  obtain r es where r: "sock_recv False (len - recvlen) (sk_in k) = (r, es)" by force
  have "pending (k\<lparr>sk_in := es\<rparr>) \<le> pending k" using sock_recv_pending [OF r] by (simp add: pending_def)
  moreover have "pending k' \<le> pending (k\<lparr>sk_in := es\<rparr>)"
    using Suc r by (auto simp: Let_def bind_eq_Some_conv split: recv_result.splits if_splits)
  ultimately show ?case by simp
qed simp

lemma recv_after_header_pending:
  "recv_after_header E k buf msg = Some (c, k', buf') \<Longrightarrow> pending k' \<le> pending k"
proof -
  assume "recv_after_header E k buf msg = Some (c, k', buf')"
  then consider "k' = k"
    | ret rl d' len d b where "recv_body PT_COMM_MAXRECV len 0 d k = Some (ret, rl, d', k')"
    by (auto simp: recv_after_header_def Let_def bind_eq_Some_conv split: if_splits prod.splits
        elim!: recv_done.elims)
  then show ?thesis by cases (auto dest: recv_body_pending)
qed

lemma recv_msg_progress:
  assumes "pt_comm_recv_msg E k buf = Some (c, k', buf')" and "\<not> recv_error c"
  shows "pending k' < pending k"
proof -
  obtain rc b where b: "buf_prepare E PT_MSG_HEADER_SIZE buf = (rc, b)" by force
  obtain r es where r: "sock_recv True PT_MSG_HEADER_SIZE (sk_in k) = (r, es)" by force
  have less: "r \<noteq> Data [] \<Longrightarrow> pending (k\<lparr>sk_in := es\<rparr>) < pending k"
    using sock_recv_progress [OF r] by (simp add: pending_def PT_MSG_HEADER_SIZE_def)
  from assms b r have "r \<noteq> Data []" and "pending k' \<le> pending (k\<lparr>sk_in := es\<rparr>)"
    by (auto simp: pt_comm_recv_msg_def recv_error_def bind_eq_Some_conv
        split: if_splits recv_result.splits dest: recv_after_header_pending)
  with less show ?thesis by simp
qed

lemma ext_recv_progress:
  assumes "ext_recv H st = Some (c, st')" and "\<not> recv_error c"
  shows "ext_pending st' < ext_pending st"
proof -
  obtain w buf where w: "fd_recv_msg (ho_mem H) (g_sock_fd st) (w_net st) (w_buf st) = Some (c, w, buf)"
    "st' = st\<lparr>w_buf := buf, w_net := w\<rparr>"
    using assms(1) by (auto simp: ext_recv_def bind_eq_Some_conv)
  have "fd_pending (g_sock_fd st) w < fd_pending (g_sock_fd st) (w_net st)"
  proof (cases "nt_fds (w_net st) (g_sock_fd st)")
    case None
    then obtain k' where "pt_comm_recv_msg (ho_mem H) dead_sock (w_buf st) = Some (c, k', buf)"
      using w by (auto simp: fd_recv_msg_def bind_eq_Some_conv)
    then have "recv_error c"
      by (auto simp: pt_comm_recv_msg_def dead_sock_def recv_error_def split: if_splits prod.splits)
    with assms(2) show ?thesis by simp
  next
    case (Some k)
    then show ?thesis
      using w assms(2) by (auto simp: fd_recv_msg_def fd_pending_def bind_eq_Some_conv dest: recv_msg_progress)
  qed
  with w show ?thesis by (simp add: ext_pending_def)
qed

text \<open>What sending changes: the buffer, the sockets, the list of errors.\<close>

lemma msg_send_cases:
  assumes "msg_send H type len pack st = Some (rc, st')"
  obtains (failed) buf n where "rc = -1" and "st' = php_error (Build_Failed n) (st\<lparr>w_buf := buf\<rparr>)"
  | (sent) buf d w rc' where "fd_send_msg (g_sock_fd st) d (w_net st) = Some (rc', w)"
      and "st' = st\<lparr>w_buf := buf, w_net := w\<rparr>" and "rc = (if rc' = -1 then -1 else 0)"
proof -
  obtain n where n: "len = Some n" using assms by (cases len) (auto simp: msg_send_def)
  obtain rc0 buf where b: "pt_comm_build_msg (ho_mem H) n type (w_buf st) = Some (rc0, buf)"
    using assms n by (cases "pt_comm_build_msg (ho_mem H) n type (w_buf st)") (auto simp: msg_send_def)
  show thesis
  proof (cases "rc0 = -1")
    case True
    with assms n b have "rc = -1" "st' = php_error (Build_Failed n) (st\<lparr>w_buf := buf\<rparr>)"
      by (auto simp: msg_send_def)
    then show thesis by (rule failed)
  next
    case False
    with assms n b obtain d0 d1 d where d: "bf_data buf = Some d0"
      "put_at 8 (enc_int (word_of_int (g_pid st) :: u32)) d1 = Some d"
      and rest: "do {
        let st = st\<lparr>w_buf := buf\<lparr>bf_data := Some d\<rparr>\<rparr>;
        (rc, w) \<leftarrow> fd_send_msg (g_sock_fd st) d (w_net st);
        let st = st\<lparr>w_net := w\<rparr>;
        if rc = -1 then Some (-1, st) else Some (0, st) } = Some (rc, st')"
      unfolding msg_send_def by (auto simp: bind_eq_Some_conv [of "bf_data buf"]
          bind_eq_Some_conv [of "pack p" for p] bind_eq_Some_conv [of "put_at x y z" for x y z])
    obtain rc' w where "fd_send_msg (g_sock_fd st) d (w_net st) = Some (rc', w)"
      using rest by (cases "fd_send_msg (g_sock_fd st) d (w_net st)") auto
    with rest sent [of d rc' w] show thesis by (auto simp: Let_def split: if_splits)
  qed
qed

lemma msg_send_keeps:
  assumes "msg_send H type len pack st = Some (rc, st')"
  shows "ext_pending st' = ext_pending st" and "g_sock_fd st' = g_sock_fd st"
proof -
  from assms have "ext_pending st' = ext_pending st \<and> g_sock_fd st' = g_sock_fd st"
  proof (cases rule: msg_send_cases)
    case (sent buf d w rc')
    then show ?thesis using fd_send_keeps(1) [OF sent(1), of "g_sock_fd st"] by (simp add: ext_pending_def)
  qed (simp add: ext_pending_def php_error_def)
  then show "ext_pending st' = ext_pending st" and "g_sock_fd st' = g_sock_fd st" by auto
qed

lemma handle_msg_pending: "handle_msg H cur c st = Some st' \<Longrightarrow> ext_pending st' = ext_pending st"
  by (auto simp: handle_msg_def status_send_def bind_eq_Some_conv php_error_def msg_send_keeps
      split: if_splits) (auto simp: ext_pending_def)

function handle_loop :: "host \<Rightarrow> zend_execute_data option \<Rightarrow> ext_state \<Rightarrow> ext_state option" where
  "handle_loop H cur st =
     (case ext_recv H st of
        None \<Rightarrow> None
      | Some (c, st) \<Rightarrow>
          if recv_error c then handle_error st
          else if c = PT_MSG_EMPTY then Some st
          else case handle_msg H cur c st of None \<Rightarrow> None | Some st \<Rightarrow> handle_loop H cur st)"
  by pat_completeness auto
termination
  by (relation "measure (\<lambda>(H, cur, st). ext_pending st)")
    (auto dest!: handle_msg_pending ext_recv_progress)

declare handle_loop.simps [simp del]

definition handle_command :: "host \<Rightarrow> zend_execute_data option \<Rightarrow> ext_state \<Rightarrow> ext_state option" where
  "handle_command H cur st =
     (if g_sock_fd st = -1 then
        (case pt_comm_connect (g_sock_addr st) (w_net st) of (fd, w) \<Rightarrow>
           let st = st\<lparr>g_sock_fd := fd, w_net := w\<rparr> in
           if fd = -1 then handle_error st else handle_loop H cur st)
      else handle_loop H cur st)"

section \<open>What the operations rely on and keep\<close>

text \<open>
  The host is sound, the buffer, the descriptors and the control file are consistent, the socket is
  open unless it is -1, and the module traces to the tool only while it has a socket.
\<close>

definition host_ok :: "host \<Rightarrow> bool" where
  "host_ok H \<longleftrightarrow> roomy (ho_mem H) \<and> env_ok (ho_zend H)"

definition to_tool :: "ext_state \<Rightarrow> bool" where
  "to_tool st \<longleftrightarrow> g_dotrace st AND TRACE_TO_TOOL \<noteq> 0"

definition ext_ok :: "ext_state \<Rightarrow> bool" where
  "ext_ok st \<longleftrightarrow> buf_ok (w_buf st) \<and> net_ok (w_net st) \<and> ctrl_ok (g_ctrl st) (w_files st) \<and>
     pid_ok (g_pid st) \<and> (g_sock_fd st = -1 \<or> nt_fds (w_net st) (g_sock_fd st) \<noteq> None) \<and>
     sds_ok (ft_content (g_pft st)) \<and>
     (to_tool st \<longrightarrow> g_sock_fd st \<noteq> -1)"

text \<open>The message that is put on the wire.\<close>

lemma msg_send_eq:
  assumes "host_ok H" and "buf_ok (w_buf st)" and "len = Some (length enc)" and "\<And>c. pack c = poke enc c"
    and "length enc < 2 ^ 31"
  shows "\<exists>d buf. buf_ok buf \<and> msg_send H type len pack st = do {
      (rc, w) \<leftarrow> fd_send_msg (g_sock_fd st) (enc_msg type (word_of_int (g_pid st)) enc @ d) (w_net st);
      Some (if rc = -1 then -1 else 0, st\<lparr>w_buf := buf, w_net := w\<rparr>) }"
proof -
  let ?n = "word_of_nat (length enc) :: u32" and ?pid = "word_of_int (g_pid st) :: u32"
  obtain pid d where build: "pt_comm_build_msg (ho_mem H) (length enc) type (w_buf st) =
      Some (0, data_buf (enc_header ?n type pid @ d))" "length enc \<le> length d"
    using build_msg_spec [of "w_buf st" "ho_mem H" "length enc" type] assms by (auto simp: host_ok_def)
  let ?d = "drop (length enc) d"
  have pk: "pack (enc_header ?n type pid @ d, PT_MSG_HEADER_SIZE) =
      Some (enc_header ?n type pid @ enc @ ?d, PT_MSG_HEADER_SIZE + length enc)"
    using build(2) by (simp add: assms(4) poke_room)
  have put: "put_at 8 (enc_int ?pid) (enc_header ?n type pid @ enc @ ?d) = Some (enc_msg type ?pid enc @ ?d)"
    by (simp add: enc_header_def enc_msg_def put_at_room)
  have len: "length (enc_header ?n type pid @ d) = length (enc_msg type ?pid enc @ ?d)"
    using build(2) by simp
  let ?buf = "data_buf (enc_msg type ?pid enc @ ?d)"
  have "msg_send H type len pack st = do {
      (rc, w) \<leftarrow> fd_send_msg (g_sock_fd st) (enc_msg type ?pid enc @ ?d) (w_net st);
      Some (if rc = -1 then -1 else 0, st\<lparr>w_buf := ?buf, w_net := w\<rparr>) }"
    using build(1) pk put len assms(3)
    by (cases "fd_send_msg (g_sock_fd st) (enc_msg type ?pid enc @ ?d) (w_net st)")
      (auto simp: msg_send_def Let_def)
  with buf_ok_data show ?thesis by blast
qed

lemma ext_ok_send:
  assumes "ext_ok st" and "fd_send_msg fd m (w_net st) = Some (rc, w)" and "buf_ok buf"
  shows "ext_ok (st\<lparr>w_buf := buf, w_net := w\<rparr>)"
  using assms(1,3) fd_send_keeps [OF assms(2)] by (auto simp: ext_ok_def to_tool_def)

lemma msg_send_safe:
  assumes "host_ok H" and "ext_ok st" and "len = Some (length enc)" and "\<And>c. pack c = poke enc c"
    and "length enc < 2 ^ 31"
  shows "\<exists>rc buf w. msg_send H type len pack st = Some (rc, st\<lparr>w_buf := buf, w_net := w\<rparr>) \<and>
    ext_ok (st\<lparr>w_buf := buf, w_net := w\<rparr>) \<and> (\<exists>m rc'. fd_send_msg (g_sock_fd st) m (w_net st) = Some (rc', w))"
proof -
  have "buf_ok (w_buf st)" using assms(2) by (simp add: ext_ok_def)
  from msg_send_eq [OF assms(1) this assms(3-5), of type] obtain d buf where
    eq: "buf_ok buf" "msg_send H type len pack st = do {
      (rc, w) \<leftarrow> fd_send_msg (g_sock_fd st) (enc_msg type (word_of_int (g_pid st)) enc @ d) (w_net st);
      Some (if rc = -1 then -1 else 0, st\<lparr>w_buf := buf, w_net := w\<rparr>) }" by blast
  obtain rc w where w: "fd_send_msg (g_sock_fd st) (enc_msg type (word_of_int (g_pid st)) enc @ d) (w_net st) =
      Some (rc, w)" using fd_send_total [OF assms(5)] by blast
  with eq ext_ok_send [OF assms(2) w eq(1)] show ?thesis by auto
qed

lemma msg_send_delivers:
  assumes "host_ok H" and "buf_ok (w_buf st)" and "len = Some (length enc)" and "\<And>c. pack c = poke enc c"
    and "length enc < 2 ^ 31" and "nt_fds (w_net st) (g_sock_fd st) = Some k" and "sk_fails k = []"
  shows "\<exists>buf. buf_ok buf \<and> msg_send H type len pack st = Some (0, st\<lparr>w_buf := buf,
    w_net := w_net st\<lparr>nt_fds := (nt_fds (w_net st))(g_sock_fd st \<mapsto>
      k\<lparr>sk_out := sk_out k @ enc_msg type (word_of_int (g_pid st)) enc\<rparr>)\<rparr>\<rparr>)"
proof -
  from msg_send_eq [OF assms(1-5), of type] obtain d buf where
    "buf_ok buf" "msg_send H type len pack st = do {
      (rc, w) \<leftarrow> fd_send_msg (g_sock_fd st) (enc_msg type (word_of_int (g_pid st)) enc @ d) (w_net st);
      Some (if rc = -1 then -1 else 0, st\<lparr>w_buf := buf, w_net := w\<rparr>) }" by blast
  moreover have "fd_send_msg (g_sock_fd st) (enc_msg type (word_of_int (g_pid st)) enc @ d) (w_net st) =
      Some (0, w_net st\<lparr>nt_fds := (nt_fds (w_net st))(g_sock_fd st \<mapsto>
        k\<lparr>sk_out := sk_out k @ enc_msg type (word_of_int (g_pid st)) enc\<rparr>)\<rparr>)"
    using send_msg_spec [OF assms(5,7)] assms(6) by (simp add: fd_send_msg_def)
  ultimately show ?thesis by (intro exI [of _ buf]) simp
qed

section \<open>Losing and regaining the connection\<close>

lemma tool_bit_off: "(d AND NOT TRACE_TO_TOOL) AND TRACE_TO_TOOL = 0"
  by (simp add: and.assoc)

lemma tool_bit_on: "(d OR TRACE_TO_TOOL) AND TRACE_TO_TOOL \<noteq> 0"
  by (simp add: TRACE_TO_TOOL_def bit.conj_disj_distrib2)

lemma tool_bit_on_idem: "(d OR TRACE_TO_TOOL) OR TRACE_TO_TOOL = d OR TRACE_TO_TOOL"
  by (simp add: or.assoc)

lemma ctrl_off:
  assumes "ctrl_ok seg fs" and "pid_ok pid"
  shows "\<exists>fs'. pt_ctrl_set_inactive seg pid fs = Some fs' \<and> ctrl_ok seg fs' \<and>
    pt_ctrl_is_active seg pid fs' = Some False"
  using ctrl_put_spec [OF assms, of False] assms(2) by (auto simp: ctrl_put_def)

lemma trace_off_spec:
  assumes "buf_ok (w_buf st)" and "net_ok (w_net st)" and "ctrl_ok (g_ctrl st) (w_files st)" and "pid_ok (g_pid st)"
  shows "\<exists>st'. trace_off st = Some st' \<and> ext_ok st' \<and> g_sock_fd st' = -1 \<and>
    g_dotrace st' = g_dotrace st AND NOT TRACE_TO_TOOL \<and>
    g_pft st' = \<lparr>ft_type = PT_FILTER_EMPTY, ft_content = None\<rparr> \<and> CTRL_IS_ACTIVE st' = Some False \<and>
    (g_sock_fd st \<noteq> -1 \<longrightarrow> nt_fds (w_net st') (g_sock_fd st) = None)"
proof -
  obtain fs where fs: "pt_ctrl_set_inactive (g_ctrl st) (g_pid st) (w_files st) = Some fs"
    "ctrl_ok (g_ctrl st) fs" "pt_ctrl_is_active (g_ctrl st) (g_pid st) fs = Some False"
    using ctrl_off [OF assms(3,4)] by blast
  have dtr: "pt_filter_dtr f = \<lparr>ft_type = PT_FILTER_EMPTY, ft_content = None\<rparr>" for f
    by (simp add: pt_filter_dtr_def)
  have close: "net_ok (snd (pt_comm_close fd None (w_net st)))" "nt_fds (snd (pt_comm_close fd None (w_net st))) fd = None" for fd
    using assms(2) by (auto simp: pt_comm_close_def fd_close_def net_ok_def Let_def)
  let ?st = "st\<lparr>g_dotrace := g_dotrace st AND NOT TRACE_TO_TOOL, w_files := fs,
     w_net := (if g_sock_fd st \<noteq> -1 then snd (pt_comm_close (g_sock_fd st) None (w_net st)) else w_net st),
     g_sock_fd := -1, g_pft := \<lparr>ft_type = PT_FILTER_EMPTY, ft_content = None\<rparr>\<rparr>"
  have "trace_off st = Some ?st"
    using fs(1) by (auto simp: trace_off_def CTRL_SET_INACTIVE_def Let_def dtr)
  moreover have "ext_ok ?st"
    using assms close fs by (simp add: ext_ok_def to_tool_def tool_bit_off sds_ok_def)
  moreover have "CTRL_IS_ACTIVE ?st = Some False" using fs(3) by (simp add: CTRL_IS_ACTIVE_def)
  ultimately show ?thesis using close by (intro exI [of _ ?st]) simp
qed

lemma handle_error_spec:
  assumes "ext_ok st"
  shows "\<exists>st'. handle_error st = Some st' \<and> ext_ok st' \<and>
    (if g_sock_fd st' = -1 then
       g_dotrace st' = g_dotrace st AND NOT TRACE_TO_TOOL \<and> CTRL_IS_ACTIVE st' = Some False \<and>
       g_pft st' = \<lparr>ft_type = PT_FILTER_EMPTY, ft_content = None\<rparr>
     else CTRL_IS_ACTIVE st = Some True \<and> g_sock_fd st \<noteq> -1 \<and> nt_fds (w_net st) (g_sock_fd st') = None \<and>
       nt_fds (w_net st') (g_sock_fd st) \<noteq> None \<and>
       st' = st\<lparr>g_sock_fd := g_sock_fd st', w_net := w_net st'\<rparr>)"
proof -
  note ok = assms [unfolded ext_ok_def]
  obtain active where active: "CTRL_IS_ACTIVE st = Some active"
    using ctrl_get [of "g_ctrl st" "w_files st" "g_pid st"] ok by (auto simp: CTRL_IS_ACTIVE_def)
  show ?thesis
  proof (cases "g_sock_fd st \<noteq> -1 \<and> active")
    case False
    then have "handle_error st = trace_off st" using active by (auto simp: handle_error_def)
    with trace_off_spec [of st] ok show ?thesis by auto
  next
    case True
    obtain fd w where c: "pt_comm_connect (g_sock_addr st) (w_net st) = (fd, w)" by force
    have net: "net_ok (w_net st)" using ok by simp
    note conn = connect_ok [OF net c]
    let ?st = "st\<lparr>g_sock_fd := fd, w_net := w\<rparr>"
    show ?thesis
    proof (cases "fd = -1")
      case True
      with \<open>g_sock_fd st \<noteq> -1 \<and> active\<close> c active have "handle_error st = trace_off ?st"
        by (simp add: handle_error_def)
      with trace_off_spec [of ?st] ok conn(1) show ?thesis by auto
    next
      case False
      with True c active have "handle_error st = Some ?st" by (simp add: handle_error_def)
      moreover have "nt_fds w fd \<noteq> None" "nt_fds (w_net st) fd = None" using conn(2) False by auto
      moreover have "nt_fds w (g_sock_fd st) \<noteq> None" using conn(3) [of "g_sock_fd st"] ok True by auto
      moreover have "ext_ok ?st" using ok conn(1) False calculation by (simp add: ext_ok_def to_tool_def)
      ultimately show ?thesis using True False active by simp
    qed
  qed
qed

section \<open>Commands that arrive whole\<close>

datatype cmd = Do_Trace | Do_Status | Do_Filter pt_filter_t

fun cmd_type :: "cmd \<Rightarrow> u32" where
  "cmd_type Do_Trace = PT_MSG_DO_TRACE"
| "cmd_type Do_Status = PT_MSG_DO_STATUS"
| "cmd_type (Do_Filter f) = PT_MSG_DO_FILTER"

fun cmd_body :: "cmd \<Rightarrow> bytes" where
  "cmd_body (Do_Filter f) = enc_filter f"
| "cmd_body _ = []"

definition cmd_msg :: "u32 \<Rightarrow> cmd \<Rightarrow> bytes" where
  "cmd_msg pid c = enc_msg (cmd_type c) pid (cmd_body c)"

fun cmd_ok :: "cmd \<Rightarrow> bool" where
  "cmd_ok (Do_Filter f) \<longleftrightarrow> sds_ok (ft_content f) \<and> length (enc_filter f) \<le> 1024 * 1024"
| "cmd_ok _ = True"

text \<open>The effect of a command on the globals, and what it puts on the wire.\<close>

fun cmd_flags :: "cmd \<Rightarrow> u64 \<times> pt_filter_t \<Rightarrow> u64 \<times> pt_filter_t" where
  "cmd_flags Do_Trace (d, f) = (d OR TRACE_TO_TOOL, f)"
| "cmd_flags Do_Status (d, f) = (d, f)"
| "cmd_flags (Do_Filter g) (d, f) = (d, img_filter g)"

fun cmd_reply :: "bytes \<Rightarrow> cmd \<Rightarrow> bytes" where
  "cmd_reply status Do_Status = status"
| "cmd_reply status _ = []"

lemma cmd_codes:
  "\<not> recv_error PT_MSG_DO_TRACE" "\<not> recv_error PT_MSG_DO_STATUS" "\<not> recv_error PT_MSG_DO_FILTER"
  "PT_MSG_DO_TRACE \<noteq> PT_MSG_EMPTY" "PT_MSG_DO_STATUS \<noteq> PT_MSG_EMPTY" "PT_MSG_DO_FILTER \<noteq> PT_MSG_EMPTY"
  "PT_MSG_DO_STATUS \<noteq> PT_MSG_DO_TRACE" "PT_MSG_DO_STATUS \<noteq> PT_MSG_DO_FILTER" "PT_MSG_DO_FILTER \<noteq> PT_MSG_DO_TRACE"
  "\<not> recv_error PT_MSG_EMPTY"
  by (simp_all add: recv_error_def msg_codes)

text \<open>The state after commands: the socket has read \<open>n\<close> and written \<open>o\<close>.\<close>

definition after_cmds :: "ext_state \<Rightarrow> sock \<Rightarrow> u64 \<times> pt_filter_t \<Rightarrow> sock_ev list \<Rightarrow> bytes \<Rightarrow> pt_comm_buffer_t \<Rightarrow> ext_state" where
  "after_cmds st k fl es out buf = st\<lparr>g_dotrace := fst fl, g_pft := snd fl, w_buf := buf,
     w_net := w_net st\<lparr>nt_fds := (nt_fds (w_net st))(g_sock_fd st \<mapsto> k\<lparr>sk_in := es, sk_out := sk_out k @ out\<rparr>)\<rparr>\<rparr>"

lemma ext_recv_delivered:
  assumes "host_ok H" and "buf_ok (w_buf st)" and "nt_fds (w_net st) (g_sock_fd st) = Some k"
    and "delivers cs (enc_msg t pid body)" and "pieces tail" and "length body \<le> 1024 * 1024"
    and "sk_in k = map Chunk (cs @ tail) @ rest"
  shows "\<exists>d. ext_recv H st = Some (t, after_cmds st k (g_dotrace st, g_pft st) (map Chunk tail @ rest) []
      (data_buf (enc_msg t pid body @ d)))"
proof -
  obtain d where "pt_comm_recv_msg (ho_mem H) k (w_buf st) =
      Some (t, k\<lparr>sk_in := map Chunk tail @ rest\<rparr>, data_buf (enc_msg t pid body @ d))"
    using recv_delivered [OF assms(2) _ assms(4-7), of "ho_mem H"] assms(1) by (auto simp: host_ok_def)
  then show ?thesis
    using assms(3) by (intro exI [of _ d]) (simp add: ext_recv_def fd_recv_msg_def after_cmds_def)
qed

lemma after_cmds_step:
  "after_cmds (after_cmds st k fl es out buf) (k\<lparr>sk_in := es, sk_out := sk_out k @ out\<rparr>) fl' es' out' buf' =
   after_cmds st k fl' es' (out @ out') buf'"
  by (simp add: after_cmds_def)

lemma after_cmds_read:
  "after_cmds (after_cmds st k fl es [] buf) (k\<lparr>sk_in := es\<rparr>) fl' es' out' buf' = after_cmds st k fl' es' out' buf'"
  by (simp add: after_cmds_def)

lemma after_cmds_fields [simp]:
  "g_dotrace (after_cmds st k fl es out buf) = fst fl" "g_pft (after_cmds st k fl es out buf) = snd fl"
  "w_buf (after_cmds st k fl es out buf) = buf" "g_sock_fd (after_cmds st k fl es out buf) = g_sock_fd st"
  "nt_fds (w_net (after_cmds st k fl es out buf)) (g_sock_fd st) = Some (k\<lparr>sk_in := es, sk_out := sk_out k @ out\<rparr>)"
  "g_level (after_cmds st k fl es out buf) = g_level st" "g_pid (after_cmds st k fl es out buf) = g_pid st"
  by (simp_all add: after_cmds_def)

lemma handle_msg_cmd:
  assumes H: "host_ok H" and k: "nt_fds (w_net st) (g_sock_fd st) = Some k" "sk_fails k = []"
    and status: "status_build (ho_mem H) (ho_zend H) (g_level st) True cur = Some s" "status_ok s"
      "length (enc_status s) < 2 ^ 31"
    and c: "cmd_ok c" and st: "w_buf st = data_buf (enc_msg (cmd_type c) pid (cmd_body c) @ d)"
  shows "\<exists>buf. buf_ok buf \<and> handle_msg H cur (cmd_type c) st = Some (after_cmds st k (cmd_flags c (g_dotrace st, g_pft st)) (sk_in k)
     (cmd_reply (enc_msg PT_MSG_STATUS (word_of_int (g_pid st)) (enc_status s)) c) buf)"
proof (cases c)
  case Do_Trace
  have "buf_ok (w_buf st)" unfolding st by (rule buf_ok_data)
  with Do_Trace k show ?thesis
    by (intro exI [of _ "w_buf st"]) (simp add: handle_msg_def after_cmds_def map_upd_triv)
next
  case Do_Status
  have "buf_ok (w_buf st)" unfolding st by (rule buf_ok_data)
  from msg_send_delivers [OF H this status_len_enc [OF status(2)] status_pack_enc [OF status(2)] status(3) k,
      of PT_MSG_STATUS]
  show ?thesis
    using Do_Status status by (auto simp: handle_msg_def status_send_def after_cmds_def cmd_codes)
next
  case (Do_Filter f)
  have "pt_filter_unpack_filter_msg (ho_mem H) (enc_filter f @ d) = Some (img_filter f, d)"
    using filter_wire.dec_enc [of f "ho_mem H" d] c Do_Filter H by (simp add: host_ok_def)
  moreover have "buf_ok (w_buf st)" unfolding st by (rule buf_ok_data)
  moreover have "bf_data (w_buf st) = Some (enc_msg (cmd_type c) pid (cmd_body c) @ d)" using st by simp
  ultimately show ?thesis
    using Do_Filter k
    by (intro exI [of _ "w_buf st"]) (simp add: handle_msg_def after_cmds_def enc_msg_def map_upd_triv cmd_codes)
qed

lemma cmd_body_ok: "cmd_ok c \<Longrightarrow> length (cmd_body c) \<le> 1024 * 1024"
  by (cases c) auto

lemma cmd_type_codes: "\<not> recv_error (cmd_type c)" "cmd_type c \<noteq> PT_MSG_EMPTY"
  by (cases c; simp add: cmd_codes)+

lemma ext_recv_idle:
  assumes "host_ok H" and "buf_ok (w_buf st)" and "nt_fds (w_net st) (g_sock_fd st) = Some k"
    and "sk_in k = Idle # rest"
  shows "\<exists>buf. buf_ok buf \<and> ext_recv H st = Some (PT_MSG_EMPTY, after_cmds st k (g_dotrace st, g_pft st) rest [] buf)"
proof -
  obtain d where d: "buf_prepare (ho_mem H) PT_MSG_HEADER_SIZE (w_buf st) = (0, data_buf d)"
    using buf_prepare_spec [OF assms(2), of "ho_mem H" PT_MSG_HEADER_SIZE] assms(1)
    by (auto simp: PT_MSG_HEADER_SIZE_def host_ok_def)
  with assms show ?thesis
    by (intro exI [of _ "data_buf d"])
      (simp add: ext_recv_def fd_recv_msg_def pt_comm_recv_msg_def after_cmds_def)
qed

lemma handle_loop_cmds:
  assumes H: "host_ok H"
    and status: "status_build (ho_mem H) (ho_zend H) (g_level st) True cur = Some s" "status_ok s"
      "length (enc_status s) < 2 ^ 31"
    and k: "nt_fds (w_net st) (g_sock_fd st) = Some k" "sk_fails k = []" and buf: "buf_ok (w_buf st)"
    and cmds: "list_all2 (\<lambda>cs c. delivers cs (cmd_msg pid c)) css cmds" "list_all cmd_ok cmds"
    and es: "sk_in k = map Chunk (concat css) @ Idle # rest"
  shows "\<exists>buf. buf_ok buf \<and> handle_loop H cur st = Some (after_cmds st k
    (fold cmd_flags cmds (g_dotrace st, g_pft st)) rest
    (concat (map (cmd_reply (enc_msg PT_MSG_STATUS (word_of_int (g_pid st)) (enc_status s))) cmds)) buf)"
  using cmds(1) assms
proof (induction css cmds arbitrary: st k rule: list_all2_induct)
  case Nil
  then obtain b where "buf_ok b" "ext_recv H st = Some (PT_MSG_EMPTY, after_cmds st k (g_dotrace st, g_pft st) rest [] b)"
    using ext_recv_idle [of H st k rest] by auto
  then show ?case by (auto simp: handle_loop.simps [of H cur st] cmd_codes)
next
  case (Cons cs css c cmds)
  let ?es = "map Chunk (concat css) @ Idle # rest"
  let ?reply = "cmd_reply (enc_msg PT_MSG_STATUS (word_of_int (g_pid st)) (enc_status s))"
  have "pieces (concat css)"
    using Cons.hyps(2) by (induction css cmds rule: list_all2_induct) (auto simp: delivers_def pieces_append pieces_def)
  moreover have c: "cmd_ok c" "length (cmd_body c) \<le> 1024 * 1024" using Cons.prems cmd_body_ok by auto
  ultimately obtain d where r: "ext_recv H st = Some (cmd_type c, after_cmds st k (g_dotrace st, g_pft st) ?es []
      (data_buf (enc_msg (cmd_type c) pid (cmd_body c) @ d)))"
    using ext_recv_delivered [OF Cons.prems(1,7,5), of cs "cmd_type c" pid "cmd_body c" "concat css" "Idle # rest"]
      Cons.prems Cons.hyps(1) by (auto simp: cmd_msg_def)
  let ?st1 = "after_cmds st k (g_dotrace st, g_pft st) ?es [] (data_buf (enc_msg (cmd_type c) pid (cmd_body c) @ d))"
  obtain b where b: "buf_ok b" "handle_msg H cur (cmd_type c) ?st1 =
      Some (after_cmds st k (cmd_flags c (g_dotrace st, g_pft st)) ?es (?reply c) b)"
    using handle_msg_cmd [of H ?st1 "k\<lparr>sk_in := ?es, sk_out := sk_out k @ []\<rparr>" cur s c pid d] Cons.prems c
    by (auto simp: after_cmds_read)
  let ?st2 = "after_cmds st k (cmd_flags c (g_dotrace st, g_pft st)) ?es (?reply c) b"
  have "\<exists>buf. buf_ok buf \<and> handle_loop H cur ?st2 = Some (after_cmds ?st2 (k\<lparr>sk_in := ?es, sk_out := sk_out k @ ?reply c\<rparr>)
      (fold cmd_flags cmds (g_dotrace ?st2, g_pft ?st2)) rest (concat (map ?reply cmds)) buf)"
    using Cons.prems b(1) Cons.hyps(2)
      Cons.IH [of ?st2 "k\<lparr>sk_in := ?es, sk_out := sk_out k @ ?reply c\<rparr>"] by simp
  then show ?case
    using r b(2) by (auto simp: handle_loop.simps [of H cur st] cmd_type_codes after_cmds_step)
qed

section \<open>Properties of commands, filters and errors\<close>

text \<open>A host and a connected module for the witnesses.\<close>

definition sample_host :: host where
  "sample_host = \<lparr>ho_mem = full_env, ho_zend = sample_env, ho_gettimeofday = (\<lambda>n. \<lparr>tv_sec = 0, tv_usec = 10 * int n\<rparr>),
     ho_sys = sys_ok, ho_getpid = 7\<rparr>"

lemma sample_clock: "ho_clock sample_host = (\<lambda>n. 10 * int n)"
  by (simp add: fun_eq_iff ho_clock_def usec_def sample_host_def)

definition sample_ext :: "sock \<Rightarrow> ext_state" where
  "sample_ext k = \<lparr>g_enable = True, g_dotrace = 0,
     g_ctrl = \<lparr>seg_size = PT_CTRL_SIZE, seg_addr = Some ''/tmp/phptrace.ctrl''\<rparr>, g_ctrl_file = ''/tmp/phptrace.ctrl'',
     g_sock_fd = 3, g_sock_addr = ''/tmp/phptrace.sock'', g_pid = 7, g_level = 0,
     g_request = request_build sample_env PT_FRAME_ENTRY, g_exc_time_table = Some (replicate 4096 0),
     g_exc_time_len = 4096, g_pft = \<lparr>ft_type = PT_FILTER_EMPTY, ft_content = None\<rparr>,
     w_net = (empty_net [])\<lparr>nt_fds := [3 \<mapsto> k], nt_next := 4\<rparr>,
     w_files = [''/tmp/phptrace.ctrl'' \<mapsto> ftruncate empty_file PT_CTRL_SIZE], w_buf = bufst, w_ticks = 0,
     w_shown = [], w_errors = [], w_hooked = True\<rparr>"

lemma sample_ext_ok [simp]: "host_ok sample_host" "ext_ok (sample_ext k)"
proof -
  show "host_ok sample_host" by (simp add: host_ok_def sample_host_def)
  show "ext_ok (sample_ext k)"
    by (simp add: ext_ok_def sample_ext_def net_ok_def empty_net_def ctrl_ok_def ftruncate_def pid_ok_def
        PT_PID_MAX_def sds_ok_def to_tool_def)
qed

text \<open>
  C14: Commands are obeyed: when the tool's messages arrive (each header in one piece, each body in at
  most ten) and then nothing more, \<open>handle_command\<close> reads all of them and returns. Afterwards tracing
  is on if one of them asked for it, the filter is the last one sent, every status request was
  answered with the status of the current stack, in order, and nothing else was written to the socket.
\<close>

theorem handle_command_obeys:
  assumes "host_ok H" and "ext_ok st" and "g_sock_fd st \<noteq> -1"
    and "status_build (ho_mem H) (ho_zend H) (g_level st) True cur = Some s" and "status_ok s"
    and "length (enc_status s) < 2 ^ 31"
    and "nt_fds (w_net st) (g_sock_fd st) = Some k" and "sk_fails k = []"
    and "list_all2 (\<lambda>cs c. delivers cs (cmd_msg pid c)) css cmds" and "list_all cmd_ok cmds"
    and "sk_in k = map Chunk (concat css) @ Idle # rest"
  shows "\<exists>st' k'. handle_command H cur st = Some st' \<and> g_sock_fd st' = g_sock_fd st \<and>
    (g_dotrace st', g_pft st') = fold cmd_flags cmds (g_dotrace st, g_pft st) \<and>
    nt_fds (w_net st') (g_sock_fd st) = Some k' \<and> sk_in k' = rest \<and>
    sk_out k' = sk_out k @ concat (map (cmd_reply
      (enc_msg PT_MSG_STATUS (word_of_int (g_pid st)) (enc_status s))) cmds)"
proof -
  have "buf_ok (w_buf st)" using assms(2) by (simp add: ext_ok_def)
  from handle_loop_cmds [OF assms(1,4-8) this assms(9-11)] obtain buf where
    "handle_loop H cur st = Some (after_cmds st k (fold cmd_flags cmds (g_dotrace st, g_pft st)) rest
      (concat (map (cmd_reply (enc_msg PT_MSG_STATUS (word_of_int (g_pid st)) (enc_status s))) cmds)) buf)"
    by blast
  with assms(3) show ?thesis by (simp add: handle_command_def)
qed

theorem handle_command_obeys_witness:
  "\<exists>st'. handle_command sample_host None
     (sample_ext \<lparr>sk_in = [Chunk (cmd_msg 7 Do_Trace), Idle], sk_out = [], sk_fails = []\<rparr>) = Some st' \<and>
     g_dotrace st' = TRACE_TO_TOOL"
proof -
  let ?k = "\<lparr>sk_in = [Chunk (cmd_msg 7 Do_Trace), Idle], sk_out = [], sk_fails = []\<rparr>"
  obtain s where s: "status_build full_env sample_env 0 True None = Some s" "status_ok s"
    using status_build_ok [of full_env sample_env None 0 True] by auto
  have enc: "length (enc_status s) < 2 ^ 31"
    using s by (auto simp: status_build_def sdsnew_str sample_env_def strlen_def mk_sds_def enc_status_def
        request_build_def enc_request_def length_enc_str arr_def calloc_array_def)
  have "delivers [cmd_msg 7 Do_Trace] (cmd_msg 7 Do_Trace)"
    unfolding cmd_msg_def by (rule delivers_whole)
  then show ?thesis
    using handle_command_obeys [OF sample_ext_ok, where k1 = ?k and k = ?k and cur = None and s = s and pid = 7
        and css = "[[cmd_msg 7 Do_Trace]]" and cmds = "[Do_Trace]" and rest = "[]"]
      s enc by (auto simp: sample_host_def sample_ext_def)
qed



text \<open>
  A reconnection leaks a descriptor: when \<open>handle_error\<close> gets a new socket, the old one, which is
  no longer named anywhere, is still open.
\<close>

lemma reconnect_leaks_socket:
  assumes "ext_ok st" and "handle_error st = Some st'" and "g_sock_fd st' \<noteq> -1"
  shows "g_sock_fd st' \<noteq> g_sock_fd st \<and> nt_fds (w_net st') (g_sock_fd st) \<noteq> None"
  using handle_error_spec [OF assms(1)] assms by (auto simp: ext_ok_def)

text \<open>
  C31: The filter of frames: without a function or class filter every call is traced as the global
  flags say; with one, a call is traced exactly when its function name or its class name contains the
  content, each only if that kind was asked for, and a call that does not match is not traced at all.
\<close>

theorem filter_frame_selects:
  assumes "ex_func ex = Some zf" and "ft_content (g_pft st) = Some c"
  shows "filter_frame ex st = Some
    (if ft_type (g_pft st) AND (PT_FILTER_FUNCTION_NAME OR PT_FILTER_CLASS_NAME) = 0 then g_dotrace st
     else if (ft_type (g_pft st) AND PT_FILTER_FUNCTION_NAME \<noteq> 0 \<and>
              (\<exists>n. zf_function_name zf = Some n \<and> sublist (cstr (sh_buf c)) (cstr n))) \<or>
             (ft_type (g_pft st) AND PT_FILTER_CLASS_NAME \<noteq> 0 \<and>
              (\<exists>k n. zf_scope zf = Some k \<and> cl_name k = Some n \<and> sublist (cstr (sh_buf c)) (cstr n)))
     then g_dotrace st else 0)"
  using assms
  by (auto simp: filter_frame_def obtain_zend_function_def filter_function_def filter_class_def content_in_def
      strstr_found_def occurs_in_sublist split: option.splits)

theorem filter_frame_selects_witness:
  "filter_frame sample_call ((sample_ext dead_sock)\<lparr>g_dotrace := TRACE_TO_TOOL,
     g_pft := \<lparr>ft_type = PT_FILTER_FUNCTION_NAME, ft_content = Some (mk_sds ''oo'')\<rparr>\<rparr>) = Some 0"
  using filter_frame_selects [of sample_call _ "(sample_ext dead_sock)\<lparr>g_dotrace := TRACE_TO_TOOL,
     g_pft := \<lparr>ft_type = PT_FILTER_FUNCTION_NAME, ft_content = Some (mk_sds ''oo'')\<rparr>\<rparr>" "mk_sds ''oo''"]
  by (simp add: sample_call_def mk_sds_def PT_FILTER_FUNCTION_NAME_def PT_FILTER_CLASS_NAME_def
      flip: occurs_in_sublist)

text \<open>
  A filter on function names whose content is empty crashes the traced process: the empty content
  arrives as \<open>NULL\<close>, and the first call of a named function passes it to \<open>strstr\<close>.
\<close>

lemma empty_filter_crashes:
  assumes "host_ok H" and "ft_type f AND PT_FILTER_FUNCTION_NAME \<noteq> 0" and "ft_content f = Some (mk_sds [])"
    and "bf_data (w_buf st) = Some (cmd_msg pid (Do_Filter f) @ d)"
    and "ex_func ex = Some zf" and "zf_function_name zf = Some n"
  shows "\<exists>st'. handle_msg H cur PT_MSG_DO_FILTER st = Some st' \<and> filter_frame ex st' = None"
proof -
  have "pt_filter_unpack_filter_msg (ho_mem H) (enc_filter f @ d) = Some (img_filter f, d)"
    using filter_wire.dec_enc [of f "ho_mem H" d] assms(1,3) by (simp add: sds_ok_def host_ok_def)
  then have "handle_msg H cur PT_MSG_DO_FILTER st = Some (st\<lparr>g_pft := img_filter f\<rparr>)"
    using assms(4) by (simp add: handle_msg_def cmd_codes cmd_msg_def enc_msg_def)
  moreover have "ft_type f AND (PT_FILTER_FUNCTION_NAME OR PT_FILTER_CLASS_NAME) \<noteq> 0"
    using assms(2) by (auto simp: bit.conj_disj_distrib or_eq_0_iff)
  ultimately show ?thesis
    using assms by (auto simp: filter_frame_def obtain_zend_function_def filter_function_def content_in_def
        img_filter_def img_sds_def img_str_def)
qed

end
