(* ===== verification/Ext_Exec.thy ===== *)
theory Ext_Exec
  imports Ext_Trace
begin

unbundle bit_operations_syntax

text \<open>
  The life of the extension (\<open>extension/trace.c\<close>): module and request startup and shutdown, and
  \<open>pt_execute_core\<close>, the function that replaces the executor of the engine and wraps every call.

  The original executor is a parameter of \<open>pt_execute_core\<close>. A run of a PHP program is a tree of
  calls: each call runs its inner calls through the replaced executor, may end with a bailout
  (\<open>exit\<close>, a fatal error) and leaves a return value. Between the calls the tool may set or clear the
  flag of the process in the control file.
\<close>

section \<open>Module startup and shutdown\<close>

text \<open>The settings of \<open>php.ini\<close>: \<open>trace.enable\<close>, \<open>trace.dotrace\<close>, \<open>trace.data_dir\<close>, and their defaults.\<close>

record ini =
  ini_enable :: bool
  ini_dotrace :: u64
  ini_data_dir :: bytes

definition ini_defaults :: ini where
  "ini_defaults = \<lparr>ini_enable = True, ini_dotrace = 0, ini_data_dir = ''/tmp''\<rparr>"

definition zero_request :: "bytes pt_request_t" where
  "zero_request = \<lparr>rq_type = 0, rq_sapi = None, rq_script = None, rq_time = 0, rq_method = None, rq_uri = None,
     rq_argc = 0, rq_argv = None\<rparr>"

definition php_trace_init_globals :: "host \<Rightarrow> ext_state \<Rightarrow> ext_state option" where
  "php_trace_init_globals H st = do {
     f \<leftarrow> pt_filter_ctr (ho_mem H) (g_pft st);
     Some (st\<lparr>g_enable := False, g_dotrace := 0, g_ctrl := \<lparr>seg_size = 0, seg_addr = None\<rparr>, g_ctrl_file := [],
              g_sock_fd := -1, g_sock_addr := [], g_pid := 0, g_level := 0, g_request := zero_request,
              g_exc_time_table := None, g_exc_time_len := 0, g_pft := f\<rparr>)
   }"

text \<open>\<open>snprintf(buf, 256, "%s/%s", data_dir, name)\<close>\<close>

definition data_path :: "bytes \<Rightarrow> bytes \<Rightarrow> bytes" where
  "data_path dir name = take 255 (cstr dir @ ''/'' @ name)"

text \<open>The result with \<open>True\<close> for \<open>SUCCESS\<close>.\<close>

definition PHP_MINIT :: "host \<Rightarrow> ini \<Rightarrow> ext_state \<Rightarrow> (bool \<times> ext_state) option" where
  "PHP_MINIT H I st = do {
     st \<leftarrow> php_trace_init_globals H st;
     let st = st\<lparr>g_enable := ini_enable I, g_dotrace := ini_dotrace I\<rparr>;
     if \<not> g_enable st then Some (True, st)
     else do {
       let st = st\<lparr>w_hooked := True, g_sock_addr := data_path (ini_data_dir I) PT_COMM_FILENAME,
                   g_ctrl_file := data_path (ini_data_dir I) PT_CTRL_FILENAME\<rparr>;
       case pt_ctrl_create (ho_sys H) (w_files st) (g_ctrl_file st) of (rc, seg, fs) \<Rightarrow>
         let st = st\<lparr>g_ctrl := seg, w_files := fs\<rparr> in
         if rc < 0 then Some (False, php_error Ctrl_Open_Failed st)
         else
           let st = st\<lparr>g_dotrace := (if g_dotrace st \<noteq> 0 \<and> take 3 (ze_sapi_name (ho_zend H)) = ''cli''
                                     then TRACE_TO_OUTPUT else 0),
                       g_exc_time_len := 4096\<rparr> in
           if \<not> alloc_ok (ho_mem H) (4096 * 8) then Some (False, php_error Table_Failed st)
           else Some (True, st\<lparr>g_exc_time_table := Some (replicate 4096 0)\<rparr>)
     }
   }"

text \<open>The table of times is freed: \<open>None\<close> stands for a table that must not be used.\<close>

definition PHP_MSHUTDOWN :: "host \<Rightarrow> ext_state \<Rightarrow> ext_state" where
  "PHP_MSHUTDOWN H st =
     (if \<not> g_enable st then st
      else
        let st = st\<lparr>w_hooked := False, g_exc_time_table := None, g_ctrl := snd (pt_ctrl_close (ho_sys H) (g_ctrl st))\<rparr>;
            st = (if g_sock_fd st \<noteq> -1
                  then st\<lparr>w_net := snd (pt_comm_close (g_sock_fd st) None (w_net st)), g_sock_fd := -1\<rparr>
                  else st)
        in st\<lparr>g_pft := pt_filter_dtr (g_pft st)\<rparr>)"

section \<open>Request startup and shutdown\<close>

text \<open>The request part that both ends share: build it, send it, show it.\<close>

definition request_process :: "host \<Rightarrow> u8 \<Rightarrow> bytes \<Rightarrow> ext_state \<Rightarrow> ext_state option" where
  "request_process H type mark st =
     (if g_dotrace st = 0 then Some st
      else do {
        let st = st\<lparr>g_request := request_build (ho_zend H) type\<rparr>;
        st \<leftarrow> (if g_dotrace st AND TRACE_TO_TOOL \<noteq> 0 then map_option snd (request_send H (g_request st) st)
               else Some st);
        Some (if g_dotrace st AND TRACE_TO_OUTPUT \<noteq> 0
              then st\<lparr>w_shown := w_shown st @ [Show_Request mark (g_request st)]\<rparr> else st)
      })"

text \<open>\<open>strstr\<close> of a missing request uri is undefined.\<close>

definition filter_url :: "host \<Rightarrow> ext_state \<Rightarrow> ext_state option" where
  "filter_url H st =
     (if ft_type (g_pft st) AND PT_FILTER_URL = 0 then Some st
      else do {
        uri \<leftarrow> ze_request_uri (ho_zend H);
        found \<leftarrow> content_in uri (g_pft st);
        Some (st\<lparr>g_dotrace := (if found then g_dotrace st OR TRACE_TO_TOOL
                               else g_dotrace st AND NOT TRACE_TO_TOOL)\<rparr>)
      })"

definition PHP_RINIT :: "host \<Rightarrow> ext_state \<Rightarrow> ext_state option" where
  "PHP_RINIT H st =
     (if \<not> g_enable st then Some st
      else do {
        let st = st\<lparr>g_pid := (if g_pid st = 0 then ho_getpid H else g_pid st), g_level := 0\<rparr>;
        active \<leftarrow> CTRL_IS_ACTIVE st;
        st \<leftarrow> (if active then handle_command H None st else Some st);
        st \<leftarrow> filter_url H st;
        request_process H PT_FRAME_ENTRY ''> '' st
      })"

definition PHP_RSHUTDOWN :: "host \<Rightarrow> ext_state \<Rightarrow> ext_state option" where
  "PHP_RSHUTDOWN H st = (if \<not> g_enable st then Some st else request_process H PT_FRAME_EXIT ''< '' st)"

text \<open>The functions of a debug build.\<close>

definition trace_start :: "ext_state \<Rightarrow> ext_state" where
  "trace_start st = st\<lparr>g_dotrace := g_dotrace st OR TRACE_TO_OUTPUT\<rparr>"

definition trace_end :: "ext_state \<Rightarrow> ext_state" where
  "trace_end st = st\<lparr>g_dotrace := g_dotrace st AND NOT TRACE_TO_OUTPUT\<rparr>"

definition trace_status :: "host \<Rightarrow> zend_execute_data option \<Rightarrow> ext_state \<Rightarrow> ext_state option" where
  "trace_status H cur st = do {
     status \<leftarrow> status_build (ho_mem H) (ho_zend H) (g_level st) True cur;
     Some (st\<lparr>w_shown := w_shown st @ [Show_Status status]\<rparr>)
   }"

definition trace_set_filter :: "host \<Rightarrow> int \<Rightarrow> bytes \<Rightarrow> ext_state \<Rightarrow> (bool \<times> ext_state) option" where
  "trace_set_filter H filter_type filter_content st =
     (if filter_type = uint PT_FILTER_EMPTY then Some (False, st)
      else do {
        f \<leftarrow> pt_filter_ctr (ho_mem H) (g_pft st);
        content \<leftarrow> sdsnewlen (ho_mem H) (Some filter_content) (length filter_content);
        Some (True, st\<lparr>g_pft := f\<lparr>ft_type := word_of_int filter_type, ft_content := content\<rparr>\<rparr>)
      })"

section \<open>The executor\<close>

definition send_frame_if :: "host \<Rightarrow> u64 \<Rightarrow> pt_frame_t \<Rightarrow> ext_state \<Rightarrow> ext_state option" where
  "send_frame_if H flags frame st =
     (if flags AND TRACE_TO_TOOL \<noteq> 0 then map_option snd (frame_send H frame st) else Some st)"

definition show_frame_if :: "u64 \<Rightarrow> bytes \<Rightarrow> pt_frame_t \<Rightarrow> ext_state \<Rightarrow> ext_state" where
  "show_frame_if flags mark frame st =
     (if flags AND TRACE_TO_OUTPUT \<noteq> 0 then st\<lparr>w_shown := w_shown st @ [Show_Frame mark frame]\<rparr> else st)"

text \<open>Everything before the call of the original executor.\<close>

definition exec_check :: "host \<Rightarrow> zend_execute_data option \<Rightarrow> ext_state \<Rightarrow> ext_state option" where
  "exec_check H cur st = do {
     active \<leftarrow> CTRL_IS_ACTIVE st;
     if active then handle_command H cur st
     else if g_sock_fd st \<noteq> -1 then handle_error st
     else Some st
   }"

definition exec_entry :: "host \<Rightarrow> bool \<Rightarrow> zend_execute_data \<Rightarrow> u64 \<Rightarrow> ext_state \<Rightarrow> (pt_frame_t \<times> ext_state) option" where
  "exec_entry H internal ex dotrace st = do {
     let caller = (case ex_prev ex of Some p \<Rightarrow> p | None \<Rightarrow> ex);
     (frame, warn) \<leftarrow> frame_build (ho_mem H) (ho_zend H) (g_level st) internal PT_FRAME_ENTRY (Some caller) ex None;
     let st = (if warn then php_error Without_Scope st else st);
     st \<leftarrow> send_frame_if H dotrace frame st;
     let st = show_frame_if dotrace ''> '' frame st;
     (case pt_time_usec H st of (t, st) \<Rightarrow> Some (frame\<lparr>fr_inc_time := word_of_int t\<rparr>, st))
   }"

definition exec_enter :: "host \<Rightarrow> bool \<Rightarrow> zend_execute_data \<Rightarrow> zend_execute_data option \<Rightarrow> ext_state \<Rightarrow>
  (u64 \<times> pt_frame_t \<times> ext_state) option" where
  "exec_enter H internal ex cur st = do {
     st \<leftarrow> exec_check H cur st;
     dotrace \<leftarrow> filter_frame ex st;
     let st = st\<lparr>g_level := g_level st + 1\<rparr>;
     if dotrace = 0 then Some (0, zero_frame, st)
     else do { (frame, st) \<leftarrow> exec_entry H internal ex dotrace st; Some (dotrace, frame, st) }
   }"

text \<open>The exclusive time: what the frames of the next level have added up since the last exit here.\<close>

definition exc_update :: "u64 \<Rightarrow> pt_frame_t \<Rightarrow> ext_state \<Rightarrow> (pt_frame_t \<times> ext_state) option" where
  "exc_update inc frame st =
     (if to_size (g_level st + 1) < g_exc_time_len st then do {
        t \<leftarrow> g_exc_time_table st;
        let l = nat (g_level st);
        if 0 \<le> g_level st \<and> Suc l < length t
        then Some (frame\<lparr>fr_exc_time := inc - t ! Suc l\<rparr>,
                   st\<lparr>g_exc_time_table := Some (t[l := t ! l + inc, Suc l := 0])\<rparr>)
        else None
      }
      else Some (frame, st))"

text \<open>\<open>retp\<close>: the \<open>return_value\<close> argument is not \<open>NULL\<close>; its value is \<open>rv\<close>, that of
  \<open>execute_data->return_value\<close> is \<open>ev\<close>. The latter was registered at the entry of a user function.\<close>

definition frame_retval :: "host \<Rightarrow> bool \<Rightarrow> zend_execute_data \<Rightarrow> bool \<Rightarrow> zval \<Rightarrow> zval \<Rightarrow> pt_frame_t \<Rightarrow> pt_frame_t option" where
  "frame_retval H internal ex retp rv ev frame =
     (if retp then do { s \<leftarrow> repr_zval (ho_mem H) (ho_zend H) 32 rv; Some (frame\<lparr>fr_retval := s\<rparr>) }
      else if ex_return_value ex \<or> \<not> internal then do {
        s \<leftarrow> repr_zval (ho_mem H) (ho_zend H) 32 ev; Some (frame\<lparr>fr_retval := s\<rparr>) }
      else Some frame)"

definition exec_exit :: "host \<Rightarrow> bool \<Rightarrow> zend_execute_data \<Rightarrow> bool \<Rightarrow> u64 \<Rightarrow> pt_frame_t \<Rightarrow> bool \<Rightarrow> zval \<Rightarrow> zval \<Rightarrow>
  ext_state \<Rightarrow> ext_state option" where
  "exec_exit H internal ex retp dotrace frame bail rv ev st =
     (case pt_time_usec H st of (t, st) \<Rightarrow> do {
        let inc = word_of_int t - fr_inc_time frame;
        (frame, st) \<leftarrow> exc_update inc (frame\<lparr>fr_inc_time := inc\<rparr>) st;
        frame \<leftarrow> (if bail then Some frame else frame_retval H internal ex retp rv ev frame);
        let frame = frame\<lparr>fr_type := PT_FRAME_EXIT\<rparr>;
        st \<leftarrow> send_frame_if H (g_dotrace st AND dotrace) frame st;
        Some (show_frame_if (g_dotrace st AND dotrace) ''< '' frame st)
      })"

definition exec_leave :: "host \<Rightarrow> bool \<Rightarrow> zend_execute_data \<Rightarrow> bool \<Rightarrow> u64 \<Rightarrow> pt_frame_t \<Rightarrow> bool \<Rightarrow> zval \<Rightarrow> zval \<Rightarrow>
  ext_state \<Rightarrow> ext_state option" where
  "exec_leave H internal ex retp dotrace frame bail rv ev st = do {
     st \<leftarrow> (if dotrace = 0 then Some st else exec_exit H internal ex retp dotrace frame bail rv ev st);
     Some (st\<lparr>g_level := g_level st - 1\<rparr>)
   }"

type_synonym executor = "ext_state \<Rightarrow> (bool \<times> zval \<times> zval \<times> ext_state) option"

text \<open>The result says whether \<open>zend_bailout\<close> was called again at the end.\<close>

definition pt_execute_core :: "host \<Rightarrow> bool \<Rightarrow> zend_execute_data \<Rightarrow> zend_execute_data option \<Rightarrow> bool \<Rightarrow> executor \<Rightarrow>
  ext_state \<Rightarrow> (bool \<times> ext_state) option" where
  "pt_execute_core H internal ex cur retp ori st = do {
     (dotrace, frame, st) \<leftarrow> exec_enter H internal ex cur st;
     (bail, rv, ev, st) \<leftarrow> ori st;
     st \<leftarrow> exec_leave H internal ex retp dotrace frame bail rv ev st;
     Some (bail, st)
   }"

definition pt_execute_ex :: "host \<Rightarrow> zend_execute_data \<Rightarrow> zend_execute_data option \<Rightarrow> executor \<Rightarrow> ext_state \<Rightarrow>
  (bool \<times> ext_state) option" where
  "pt_execute_ex H ex cur ori st = pt_execute_core H False ex cur False ori st"

definition pt_execute_internal :: "host \<Rightarrow> zend_execute_data \<Rightarrow> zend_execute_data option \<Rightarrow> bool \<Rightarrow> executor \<Rightarrow> ext_state \<Rightarrow>
  (bool \<times> ext_state) option" where
  "pt_execute_internal H ex cur retp ori st = pt_execute_core H True ex cur retp ori st"

section \<open>Runs of a program\<close>

text \<open>
  \<open>Call internal ex retp body bail rv ev\<close> is a call of the engine; \<open>Flag b\<close> is the moment at which the
  tool writes the flag of this process.
\<close>

datatype call = Call bool zend_execute_data bool "call list" bool zval zval | Flag bool

definition set_flag :: "bool \<Rightarrow> ext_state \<Rightarrow> ext_state option" where
  "set_flag b st = do { fs \<leftarrow> ctrl_put (g_ctrl st) b (g_pid st) (w_files st); Some (st\<lparr>w_files := fs\<rparr>) }"

fun run_call :: "host \<Rightarrow> call \<Rightarrow> ext_state \<Rightarrow> (bool \<times> ext_state) option"
  and run_body :: "host \<Rightarrow> call list \<Rightarrow> ext_state \<Rightarrow> (bool \<times> ext_state) option" where
  "run_call H (Call internal ex retp body bail rv ev) st =
     (let ori = (\<lambda>st. do { (b, st) \<leftarrow> run_body H body st; Some (b \<or> bail, rv, ev, st) }) in
      if internal then pt_execute_internal H ex (Some ex) retp ori st else pt_execute_ex H ex (Some ex) ori st)"
| "run_call H (Flag b) st = do { st \<leftarrow> set_flag b st; Some (False, st) }"
| "run_body H [] st = Some (False, st)"
| "run_body H (c # cs) st = do {
     (b, st) \<leftarrow> run_call H c st;
     if b then Some (True, st) else run_body H cs st
   }"

section \<open>A tool that keeps the protocol\<close>

text \<open>The commands that the module can live with: a filter comes with a content.\<close>

definition filter_live :: "pt_filter_t \<Rightarrow> bool" where
  "filter_live f \<longleftrightarrow> (ft_type f AND (PT_FILTER_FUNCTION_NAME OR PT_FILTER_CLASS_NAME) \<noteq> 0 \<or>
     ft_type f AND PT_FILTER_URL \<noteq> 0 \<longrightarrow> ft_content f \<noteq> None)"

definition cmd_live :: "cmd \<Rightarrow> bool" where
  "cmd_live c \<longleftrightarrow> cmd_ok c \<and> (case c of Do_Filter f \<Rightarrow> filter_live (img_filter f) | _ \<Rightarrow> True)"

interpretation cmds: protocol cmd_type cmd_body cmd_live
proof
  show "\<not> recv_code (cmd_type c)" for c using cmd_type_codes [of c] by (auto simp: recv_code_def recv_error_def)
  show "length (cmd_body c) \<le> 1024 * 1024" if "cmd_live c" for c using that cmd_body_ok by (simp add: cmd_live_def)
qed

abbreviation tool_polite :: "sock_ev list \<Rightarrow> bool" where
  "tool_polite \<equiv> polite cmd_type cmd_body cmd_live"

abbreviation tool_polite_net :: "net \<Rightarrow> bool" where
  "tool_polite_net \<equiv> polite_net cmd_type cmd_body cmd_live"

text \<open>
  The part of the state that commands and errors leave alone, and the whole invariant: the module is
  switched on and its executor in place, and a filter on addresses, which switches tracing to the
  tool on at the next request, is there only while there is a socket.
\<close>

definition same_exec :: "ext_state \<Rightarrow> ext_state \<Rightarrow> bool" where
  "same_exec st st' \<longleftrightarrow> g_level st' = g_level st \<and> g_exc_time_table st' = g_exc_time_table st \<and>
     g_exc_time_len st' = g_exc_time_len st \<and> g_enable st' = g_enable st \<and> w_hooked st' = w_hooked st"

definition url_ready :: "ext_state \<Rightarrow> bool" where
  "url_ready st \<longleftrightarrow> (ft_type (g_pft st) AND PT_FILTER_URL \<noteq> 0 \<longrightarrow> g_sock_fd st \<noteq> -1)"

definition ext_inv :: "ext_state \<Rightarrow> bool" where
  "ext_inv st \<longleftrightarrow> ext_ok st \<and> tool_polite_net (w_net st) \<and> filter_live (g_pft st) \<and> url_ready st \<and>
     g_enable st \<and> w_hooked st \<and> 0 \<le> g_level st \<and>
     (\<exists>t. g_exc_time_table st = Some t \<and> length t = g_exc_time_len st)"

lemma same_exec_refl [simp]: "same_exec st st"
  by (simp add: same_exec_def)

lemma same_exec_trans [trans]: "same_exec a b \<Longrightarrow> same_exec b c \<Longrightarrow> same_exec a c"
  by (simp add: same_exec_def)

lemma filter_bits: "PT_FILTER_EMPTY AND (PT_FILTER_FUNCTION_NAME OR PT_FILTER_CLASS_NAME) = 0"
  "PT_FILTER_EMPTY AND PT_FILTER_URL = 0"
  by (simp_all add: PT_FILTER_EMPTY_def PT_FILTER_FUNCTION_NAME_def PT_FILTER_CLASS_NAME_def PT_FILTER_URL_def)

lemma filter_live_empty [simp]: "filter_live \<lparr>ft_type = PT_FILTER_EMPTY, ft_content = None\<rparr>"
  by (simp add: filter_live_def filter_bits)

lemma filter_live_dtr [simp]: "filter_live (pt_filter_dtr f)"
  by (simp add: filter_live_def pt_filter_dtr_def filter_bits)

lemma url_ready_dtr [simp]: "g_pft st = pt_filter_dtr f \<Longrightarrow> url_ready st"
  by (simp add: url_ready_def pt_filter_dtr_def filter_bits)

lemma url_ready_cong [simp]:
  "url_ready (st\<lparr>w_net := x1\<rparr>) = url_ready st" "url_ready (st\<lparr>w_buf := x2\<rparr>) = url_ready st"
  "url_ready (st\<lparr>g_dotrace := x3\<rparr>) = url_ready st" "url_ready (st\<lparr>w_shown := x4\<rparr>) = url_ready st"
  "url_ready (st\<lparr>w_ticks := x5\<rparr>) = url_ready st" "url_ready (st\<lparr>w_errors := x6\<rparr>) = url_ready st"
  "url_ready (st\<lparr>g_request := x7\<rparr>) = url_ready st" "url_ready (st\<lparr>g_level := x8\<rparr>) = url_ready st"
  "url_ready (st\<lparr>g_exc_time_table := x9\<rparr>) = url_ready st" "url_ready (st\<lparr>g_pid := x10\<rparr>) = url_ready st"
  by (simp_all add: url_ready_def)

lemma url_ready_sock: "g_sock_fd st \<noteq> -1 \<Longrightarrow> url_ready st"
  by (simp add: url_ready_def)

lemma ext_invI:
  assumes "ext_inv st" and "ext_ok st'" and "tool_polite_net (w_net st')" and "filter_live (g_pft st')"
    and "url_ready st'" and "same_exec st st'"
  shows "ext_inv st'"
  using assms by (simp add: ext_inv_def same_exec_def)

lemma trace_off_polite:
  assumes "trace_off st = Some st'" and "tool_polite_net (w_net st)"
  shows "tool_polite_net (w_net st') \<and> same_exec st st' \<and> filter_live (g_pft st') \<and> url_ready st'"
  using assms cmds.close_polite [OF assms(2)]
  by (cases "g_sock_fd st = -1") (auto simp: trace_off_def CTRL_SET_INACTIVE_def bind_eq_Some_conv Let_def same_exec_def)

lemma handle_error_inv:
  assumes "ext_inv st"
  shows "\<exists>st'. handle_error st = Some st' \<and> ext_inv st' \<and> same_exec st st'"
proof -
  have ok: "ext_ok st" "tool_polite_net (w_net st)" "filter_live (g_pft st)" using assms by (auto simp: ext_inv_def)
  obtain st' where st': "handle_error st = Some st'" "ext_ok st'" using handle_error_spec [OF ok(1)] by blast
  obtain retry where retry: "(if g_sock_fd st \<noteq> -1 then CTRL_IS_ACTIVE st else Some False) = Some retry"
    using st'(1) by (auto simp: handle_error_def bind_eq_Some_conv)
  obtain fd w where c: "pt_comm_connect (g_sock_addr st) (w_net st) = (fd, w)" by force
  have w: "tool_polite_net w" by (rule cmds.connect_polite [OF ok(2) c])
  let ?st = "st\<lparr>g_sock_fd := fd, w_net := w\<rparr>"
  have eq: "handle_error st = (if retry then if fd \<noteq> -1 then Some ?st else trace_off ?st else trace_off st)"
    unfolding handle_error_def retry c by simp
  have "tool_polite_net (w_net st') \<and> same_exec st st' \<and> filter_live (g_pft st') \<and> url_ready st'"
  proof (cases "retry \<and> fd \<noteq> -1")
    case True
    then have "st' = ?st" using st'(1) eq by simp
    then show ?thesis using w ok True by (simp add: same_exec_def url_ready_def)
  next
    case False
    let ?st0 = "if retry then ?st else st"
    have "trace_off ?st0 = Some st'" using False st'(1) eq by (cases retry) simp_all
    moreover have "tool_polite_net (w_net ?st0)" using w ok by simp
    moreover have "same_exec st ?st0" by (simp add: same_exec_def)
    ultimately show ?thesis using trace_off_polite same_exec_trans by blast
  qed
  with st' ext_invI [OF assms st'(2)] show ?thesis by blast
qed

text \<open>The engine's stack is as expected and its status fits in a message.\<close>

definition status_fits :: "host \<Rightarrow> zend_execute_data option \<Rightarrow> bool" where
  "status_fits H cur \<longleftrightarrow> stack_args cur \<le> 2 ^ 13 \<and> (case cur of None \<Rightarrow> True | Some c \<Rightarrow> ex_ok (ho_zend H) c)"

lemma status_build_fits:
  assumes "host_ok H" and "status_fits H cur"
  shows "\<exists>s. status_build (ho_mem H) (ho_zend H) level True cur = Some s \<and> status_ok s \<and> length (enc_status s) < 2 ^ 31"
  using status_build_ok [of "ho_mem H" "ho_zend H" cur level True] length_enc_status [of "ho_mem H" "ho_zend H" cur level True]
    assms stack_depth_args [of cur] by (fastforce simp: host_ok_def status_fits_def)

lemma msg_send_inv:
  assumes "host_ok H" and "ext_inv st" and "len = Some (length enc)" and "\<And>c. pack c = poke enc c"
    and "length enc < 2 ^ 31"
  shows "\<exists>rc st'. msg_send H type len pack st = Some (rc, st') \<and> ext_inv st' \<and> same_exec st st' \<and>
    g_dotrace st' = g_dotrace st \<and> g_pft st' = g_pft st \<and> g_sock_fd st' = g_sock_fd st \<and>
    (\<forall>k. nt_fds (w_net st) (g_sock_fd st) = Some k \<longrightarrow>
      (\<exists>k'. nt_fds (w_net st') (g_sock_fd st) = Some k' \<and> sk_in k' = sk_in k))"
proof -
  have ok: "ext_ok st" using assms(2) by (simp add: ext_inv_def)
  obtain rc buf w m rc' where st': "msg_send H type len pack st = Some (rc, st\<lparr>w_buf := buf, w_net := w\<rparr>)"
    "ext_ok (st\<lparr>w_buf := buf, w_net := w\<rparr>)" "fd_send_msg (g_sock_fd st) m (w_net st) = Some (rc', w)"
    using msg_send_safe [OF assms(1) ok assms(3-5)] by blast
  have "tool_polite_net w" using cmds.send_polite [OF _ st'(3)] assms(2) by (simp add: ext_inv_def)
  moreover have "\<exists>k'. nt_fds w (g_sock_fd st) = Some k' \<and> sk_in k' = sk_in k"
    if "nt_fds (w_net st) (g_sock_fd st) = Some k" for k
    using st'(3) that by (auto simp: fd_send_msg_def bind_eq_Some_conv dest!: send_msg_pending)
  ultimately show ?thesis
    using st'(1) ext_invI [OF assms(2) st'(2)] assms(2) by (auto simp: same_exec_def ext_inv_def)
qed

lemma after_cmds_inv:
  assumes "ext_inv st" and "g_sock_fd st \<noteq> -1" and "nt_fds (w_net st) (g_sock_fd st) = Some k" and "tool_polite es"
    and "buf_ok b" and "sds_ok (ft_content (snd fl))" and "filter_live (snd fl)"
  shows "ext_inv (after_cmds st k fl es out b)" and "same_exec st (after_cmds st k fl es out b)"
proof -
  show same: "same_exec st (after_cmds st k fl es out b)" by (simp add: after_cmds_def same_exec_def)
  have "nt_fds (w_net st) fd = None \<Longrightarrow> fd \<noteq> g_sock_fd st" for fd using assms(3) by auto
  then have "ext_ok (after_cmds st k fl es out b)"
    using assms by (auto simp: ext_inv_def ext_ok_def net_ok_def to_tool_def after_cmds_def)
  moreover have "tool_polite_net (w_net (after_cmds st k fl es out b))"
    using assms(1,4) by (auto simp: ext_inv_def polite_net_def after_cmds_def)
  ultimately show "ext_inv (after_cmds st k fl es out b)"
    using ext_invI [OF assms(1) _ _ _ url_ready_sock same] assms(2,7) by simp
qed

lemma img_filter_ok: "sds_ok (ft_content f) \<Longrightarrow> sds_ok (ft_content (img_filter f))"
  by (auto simp: img_filter_def img_sds_def img_str_def sds_ok_def dest: sds_bytes(3) split: option.splits)

lemma handle_msg_inv:
  assumes H: "host_ok H" "status_fits H cur" and st: "ext_inv st" "g_sock_fd st \<noteq> -1"
    and k: "nt_fds (w_net st) (g_sock_fd st) = Some k" and c: "cmd_ok c"
    and live: "case c of Do_Filter f \<Rightarrow> filter_live (img_filter f) | _ \<Rightarrow> True"
    and buf: "bf_data (w_buf st) = Some (enc_msg (cmd_type c) pid (cmd_body c) @ d)"
  shows "\<exists>st' k'. handle_msg H cur (cmd_type c) st = Some st' \<and> ext_inv st' \<and> same_exec st st' \<and>
    g_sock_fd st' = g_sock_fd st \<and> nt_fds (w_net st') (g_sock_fd st) = Some k' \<and> sk_in k' = sk_in k"
proof (cases c)
  case Do_Trace
  have "ext_inv (st\<lparr>g_dotrace := g_dotrace st OR TRACE_TO_TOOL\<rparr>)"
    using st by (auto simp: ext_inv_def ext_ok_def to_tool_def)
  with Do_Trace k show ?thesis by (simp add: handle_msg_def same_exec_def)
next
  case Do_Status
  obtain s where s: "status_build (ho_mem H) (ho_zend H) (g_level st) True cur = Some s" "status_ok s"
    "length (enc_status s) < 2 ^ 31" using status_build_fits [OF H] by blast
  from msg_send_inv [OF H(1) st(1) status_len_enc [OF s(2)] status_pack_enc [OF s(2)] s(3), of PT_MSG_STATUS]
  obtain rc st' where "msg_send H PT_MSG_STATUS (pt_type_len_status s) (pt_type_pack_status s) st = Some (rc, st')"
    "ext_inv st'" "same_exec st st'" "g_sock_fd st' = g_sock_fd st"
    "\<exists>k'. nt_fds (w_net st') (g_sock_fd st) = Some k' \<and> sk_in k' = sk_in k" using k by blast
  with Do_Status s show ?thesis by (auto simp: handle_msg_def status_send_def cmd_codes)
next
  case (Do_Filter f)
  have "pt_filter_unpack_filter_msg (ho_mem H) (enc_filter f @ d) = Some (img_filter f, d)"
    using filter_wire.dec_enc [of f "ho_mem H" d] c Do_Filter H by (simp add: host_ok_def)
  moreover have "ext_inv (st\<lparr>g_pft := img_filter f\<rparr>)"
    using st live c Do_Filter img_filter_ok [of f] by (auto simp: ext_inv_def ext_ok_def to_tool_def url_ready_def)
  ultimately show ?thesis
    using Do_Filter k buf by (simp add: handle_msg_def cmd_codes enc_msg_def same_exec_def)
qed

text \<open>The answers of the socket when no message is there.\<close>

lemma ext_recv_nothing:
  assumes "host_ok H" and "buf_ok (w_buf st)" and "nt_fds (w_net st) (g_sock_fd st) = Some k"
    and "(es = [] \<and> c = PT_MSG_PEERDOWN \<and> rest = []) \<or> (es = Idle # rest \<and> c = PT_MSG_EMPTY) \<or>
      (es = Fail # rest \<and> c = PT_MSG_ERR_SOCK)" and "sk_in k = es"
  shows "\<exists>b. buf_ok b \<and> ext_recv H st = Some (c, after_cmds st k (g_dotrace st, g_pft st) rest [] b)"
proof -
  obtain d where d: "buf_prepare (ho_mem H) PT_MSG_HEADER_SIZE (w_buf st) = (0, data_buf d)"
    using buf_prepare_spec [OF assms(2), of "ho_mem H" PT_MSG_HEADER_SIZE] assms(1)
    by (auto simp: PT_MSG_HEADER_SIZE_def host_ok_def)
  have "pt_comm_recv_msg (ho_mem H) k (w_buf st) = Some (c, k\<lparr>sk_in := rest\<rparr>, data_buf d)"
    using assms(4,5) d by (auto simp: pt_comm_recv_msg_def)
  with assms(3) show ?thesis
    by (intro exI [of _ "data_buf d"]) (simp add: ext_recv_def fd_recv_msg_def after_cmds_def)
qed

text \<open>One call of the loop that ends it, and one that handles a message.\<close>

lemma handle_loop_stop:
  assumes H: "host_ok H" and st: "ext_inv st" "g_sock_fd st \<noteq> -1" and k: "nt_fds (w_net st) (g_sock_fd st) = Some k"
    and ev: "(sk_in k = [] \<and> c = PT_MSG_PEERDOWN \<and> rest = []) \<or> (sk_in k = Idle # rest \<and> c = PT_MSG_EMPTY) \<or>
      (sk_in k = Fail # rest \<and> c = PT_MSG_ERR_SOCK)" and rest: "tool_polite rest"
  shows "\<exists>st'. handle_loop H cur st = Some st' \<and> ext_inv st' \<and> same_exec st st'"
proof -
  let ?st1 = "after_cmds st k (g_dotrace st, g_pft st) rest []"
  have ok: "buf_ok (w_buf st)" "sds_ok (ft_content (g_pft st))" "filter_live (g_pft st)"
    using st by (auto simp: ext_inv_def ext_ok_def)
  obtain b where b: "buf_ok b" "ext_recv H st = Some (c, ?st1 b)"
    using ext_recv_nothing [OF H ok(1) k ev refl] by blast
  have inv: "ext_inv (?st1 b)" "same_exec st (?st1 b)"
    using after_cmds_inv [OF st k rest b(1), of "(g_dotrace st, g_pft st)" "[]"] ok by auto
  show ?thesis
  proof (cases "c = PT_MSG_EMPTY")
    case True
    with b inv show ?thesis by (simp add: handle_loop.simps [of H cur st] cmd_codes)
  next
    case False
    obtain st' where "handle_error (?st1 b) = Some st'" "ext_inv st'" "same_exec (?st1 b) st'"
      using handle_error_inv [OF inv(1)] by auto
    with b inv(2) False ev show ?thesis
      by (auto simp: handle_loop.simps [of H cur st] recv_error_def intro: same_exec_trans)
  qed
qed

lemma handle_loop_msg:
  assumes H: "host_ok H" "status_fits H cur" and st: "ext_inv st" "g_sock_fd st \<noteq> -1"
    and k: "nt_fds (w_net st) (g_sock_fd st) = Some k" "sk_in k = map Chunk cs @ rest"
    and c: "cmd_live c" "delivers cs (enc_msg (cmd_type c) pid (cmd_body c))" and rest: "tool_polite rest"
  shows "\<exists>st2 k2. handle_loop H cur st = handle_loop H cur st2 \<and> ext_inv st2 \<and> same_exec st st2 \<and>
    g_sock_fd st2 = g_sock_fd st \<and> nt_fds (w_net st2) (g_sock_fd st2) = Some k2 \<and> sk_in k2 = rest"
proof -
  have ok: "buf_ok (w_buf st)" "sds_ok (ft_content (g_pft st))" "filter_live (g_pft st)"
    using st by (auto simp: ext_inv_def ext_ok_def)
  have live: "cmd_ok c" "case c of Do_Filter f \<Rightarrow> filter_live (img_filter f) | _ \<Rightarrow> True"
    using c(1) by (simp_all add: cmd_live_def)
  let ?m = "enc_msg (cmd_type c) pid (cmd_body c)"
  obtain d where r: "ext_recv H st = Some (cmd_type c, after_cmds st k (g_dotrace st, g_pft st) rest [] (data_buf (?m @ d)))"
    using ext_recv_delivered [OF H(1) ok(1) k(1) c(2), of "[]" rest] cmd_body_ok [OF live(1)] k(2)
    by (auto simp: pieces_def)
  let ?st1 = "after_cmds st k (g_dotrace st, g_pft st) rest [] (data_buf (?m @ d))"
  have inv: "ext_inv ?st1" "same_exec st ?st1"
    using after_cmds_inv [OF st k(1) rest buf_ok_data [of "?m @ d"], of "(g_dotrace st, g_pft st)" "[]"] ok by auto
  obtain st2 k2 where st2: "handle_msg H cur (cmd_type c) ?st1 = Some st2" "ext_inv st2" "same_exec ?st1 st2"
    "g_sock_fd st2 = g_sock_fd st" "nt_fds (w_net st2) (g_sock_fd st) = Some k2" "sk_in k2 = rest"
    using handle_msg_inv [of H cur ?st1 "k\<lparr>sk_in := rest, sk_out := sk_out k @ []\<rparr>" c pid d] H inv(1) st k live by auto
  moreover have "handle_loop H cur st = handle_loop H cur st2"
    using r st2(1) by (simp add: handle_loop.simps [of H cur st] cmd_type_codes)
  ultimately show ?thesis using same_exec_trans [OF inv(2)] by auto
qed

lemma handle_loop_inv:
  assumes H: "host_ok H" "status_fits H cur" and "tool_polite es"
    and "ext_inv st" "g_sock_fd st \<noteq> -1" and "nt_fds (w_net st) (g_sock_fd st) = Some k" and "sk_in k = es"
  shows "\<exists>st'. handle_loop H cur st = Some st' \<and> ext_inv st' \<and> same_exec st st'"
  using assms(3-)
proof (induction es arbitrary: st k rule: polite.induct)
  case polite_Nil
  then show ?case using handle_loop_stop [OF H(1) polite_Nil(1-3), of PT_MSG_PEERDOWN "[]"] by blast
next
  case (polite_Idle es)
  then show ?case using handle_loop_stop [OF H(1) polite_Idle.prems(1-3), of PT_MSG_EMPTY es] by blast
next
  case (polite_Fail es)
  then show ?case using handle_loop_stop [OF H(1) polite_Fail.prems(1-3), of PT_MSG_ERR_SOCK es] by blast
next
  case (polite_Msg c cs pid es)
  from handle_loop_msg [OF H polite_Msg.prems polite_Msg.hyps] obtain st2 k2 where
    "handle_loop H cur st = handle_loop H cur st2" "ext_inv st2" "same_exec st st2" "g_sock_fd st2 \<noteq> -1"
    "nt_fds (w_net st2) (g_sock_fd st2) = Some k2" "sk_in k2 = es" using polite_Msg.prems(2) by auto
  with polite_Msg.IH [of st2 k2] show ?case by (auto intro: same_exec_trans)
qed

lemma net_polite: "tool_polite_net w \<Longrightarrow> nt_fds w fd = Some k \<Longrightarrow> tool_polite (sk_in k)"
  by (simp add: polite_net_def)

lemma loop_inv:
  assumes "host_ok H" and "status_fits H cur" and "ext_inv st" and "g_sock_fd st \<noteq> -1"
  shows "\<exists>st'. handle_loop H cur st = Some st' \<and> ext_inv st' \<and> same_exec st st'"
proof -
  obtain k where k: "nt_fds (w_net st) (g_sock_fd st) = Some k"
    using assms(3,4) by (auto simp: ext_inv_def ext_ok_def)
  moreover have "tool_polite (sk_in k)" using net_polite [OF _ k] assms(3) by (simp add: ext_inv_def)
  ultimately show ?thesis using handle_loop_inv [OF assms(1,2) _ assms(3,4)] by blast
qed

lemma handle_command_inv:
  assumes "host_ok H" and "status_fits H cur" and "ext_inv st"
  shows "\<exists>st'. handle_command H cur st = Some st' \<and> ext_inv st' \<and> same_exec st st'"
proof (cases "g_sock_fd st = -1")
  case True
  obtain fd w where c: "pt_comm_connect (g_sock_addr st) (w_net st) = (fd, w)" by force
  let ?st = "st\<lparr>g_sock_fd := fd, w_net := w\<rparr>"
  have ok: "ext_ok st" "tool_polite_net (w_net st)" using assms(3) by (auto simp: ext_inv_def)
  have "net_ok (w_net st)" using ok(1) by (simp add: ext_ok_def)
  from connect_ok [OF this c] have "ext_ok ?st"
    using ok(1) True by (auto simp: ext_ok_def to_tool_def)
  then have inv: "ext_inv ?st" "same_exec st ?st"
    using ext_invI [OF assms(3), of ?st] cmds.connect_polite [OF ok(2) c] assms(3) True
    by (auto simp: same_exec_def ext_inv_def url_ready_def)
  show ?thesis
  proof (cases "fd = -1")
    case True
    then show ?thesis
      using handle_error_inv [OF inv(1)] inv(2) c \<open>g_sock_fd st = -1\<close>
      by (auto simp: handle_command_def intro: same_exec_trans)
  next
    case False
    then show ?thesis
      using loop_inv [OF assms(1,2) inv(1)] inv(2) c True
      by (auto simp: handle_command_def intro: same_exec_trans)
  qed
next
  case False
  then show ?thesis using loop_inv [OF assms] by (simp add: handle_command_def)
qed

lemma ctrl_readable: "ext_ok st \<Longrightarrow> \<exists>b. CTRL_IS_ACTIVE st = Some b"
  using ctrl_get [of "g_ctrl st" "w_files st" "g_pid st"] by (auto simp: CTRL_IS_ACTIVE_def ext_ok_def)

lemma exec_check_inv:
  assumes "host_ok H" and "status_fits H cur" and "ext_inv st"
  shows "\<exists>st'. exec_check H cur st = Some st' \<and> ext_inv st' \<and> same_exec st st'"
proof -
  obtain b where "CTRL_IS_ACTIVE st = Some b" using ctrl_readable assms(3) by (auto simp: ext_inv_def)
  then show ?thesis
    using handle_command_inv [OF assms] handle_error_inv [OF assms(3)] assms(3) by (auto simp: exec_check_def)
qed

lemma filter_frame_total:
  assumes "filter_live (g_pft st)" and "ex_ok Z ex"
  shows "\<exists>d. filter_frame ex st = Some d \<and> (d = 0 \<or> d = g_dotrace st)"
proof -
  obtain zf where "ex_func ex = Some zf" using assms(2) by (rule ex_ok_func)
  then show ?thesis
    using assms(1) by (auto simp: filter_frame_def obtain_zend_function_def filter_function_def filter_class_def
        content_in_def filter_live_def split: option.splits)
qed

section \<open>Every run returns\<close>

lemma ext_ok_fields [simp]:
  "ext_ok (st\<lparr>w_shown := x1\<rparr>) = ext_ok st" "ext_ok (st\<lparr>w_ticks := x2\<rparr>) = ext_ok st"
  "ext_ok (st\<lparr>w_errors := x3\<rparr>) = ext_ok st" "ext_ok (st\<lparr>g_level := x4\<rparr>) = ext_ok st"
  "ext_ok (st\<lparr>g_exc_time_table := x5\<rparr>) = ext_ok st" "ext_ok (st\<lparr>g_request := x6\<rparr>) = ext_ok st"
  by (simp_all add: ext_ok_def to_tool_def)

lemma ext_inv_fields [simp]:
  "ext_inv (st\<lparr>w_shown := x1\<rparr>) = ext_inv st" "ext_inv (st\<lparr>w_ticks := x2\<rparr>) = ext_inv st"
  "ext_inv (st\<lparr>w_errors := x3\<rparr>) = ext_inv st" "ext_inv (st\<lparr>g_request := x6\<rparr>) = ext_inv st"
  by (simp_all add: ext_inv_def)

lemma ext_inv_level: "ext_inv st \<Longrightarrow> 0 \<le> l \<Longrightarrow> ext_inv (st\<lparr>g_level := l\<rparr>)"
  by (simp add: ext_inv_def)

lemma frame_small_fields [simp]:
  "frame_small (f\<lparr>fr_inc_time := x1\<rparr>) = frame_small f" "frame_small (f\<lparr>fr_exc_time := x2\<rparr>) = frame_small f"
  "frame_small (f\<lparr>fr_type := x3\<rparr>) = frame_small f"
  by (simp_all add: frame_small_def)

lemma send_frame_inv:
  assumes "host_ok H" and "ext_inv st" and "frame_small f"
  shows "\<exists>st'. send_frame_if H flags f st = Some st' \<and> ext_inv st' \<and> same_exec st st' \<and> g_dotrace st' = g_dotrace st"
proof -
  have "frame_ok f" using assms(3) by (rule frame_small_ok)
  from msg_send_inv [OF assms(1,2) frame_len_enc [OF this] frame_pack_enc [OF this] length_enc_frame_small [OF assms(3)]]
  show ?thesis using assms(2) by (fastforce simp: send_frame_if_def frame_send_def)
qed

lemma show_frame_inv [simp]: "ext_inv (show_frame_if flags mark f st) = ext_inv st"
  "same_exec st' (show_frame_if flags mark f st) = same_exec st' st"
  "g_level (show_frame_if flags mark f st) = g_level st"
  "g_exc_time_table (show_frame_if flags mark f st) = g_exc_time_table st"
  "g_exc_time_len (show_frame_if flags mark f st) = g_exc_time_len st"
  "g_enable (show_frame_if flags mark f st) = g_enable st" "w_hooked (show_frame_if flags mark f st) = w_hooked st"
  by (simp_all add: show_frame_if_def same_exec_def)

lemma exec_entry_inv:
  assumes "host_ok H" and "ext_inv st" and "ex_ok (ho_zend H) ex"
  shows "\<exists>f st'. exec_entry H internal ex dotrace st = Some (f, st') \<and> ext_inv st' \<and> same_exec st st' \<and> frame_small f"
proof -
  let ?caller = "case ex_prev ex of Some p \<Rightarrow> p | None \<Rightarrow> ex"
  have "ex_ok (ho_zend H) ?caller" using assms(3) ex_ok_prev by (auto split: option.split)
  then obtain f warn where f: "frame_build (ho_mem H) (ho_zend H) (g_level st) internal PT_FRAME_ENTRY (Some ?caller) ex None =
      Some (f, warn)" "frame_small f"
    using frame_build_ok [of "ho_mem H" "ho_zend H" ex ?caller "g_level st" internal PT_FRAME_ENTRY] assms(1,3) by (auto simp: host_ok_def)
  let ?st = "if warn then php_error Without_Scope st else st"
  have "ext_inv ?st" "same_exec st ?st" using assms(2) by (auto simp: php_error_def same_exec_def)
  with send_frame_inv [OF assms(1) _ f(2), of ?st dotrace] obtain st' where
    "send_frame_if H dotrace f ?st = Some st'" "ext_inv st'" "same_exec st st'" by (auto intro: same_exec_trans)
  with f show ?thesis by (auto simp: exec_entry_def Let_def pt_time_usec_def same_exec_def)
qed

lemma exec_enter_inv:
  assumes "host_ok H" and "ext_inv st" and "status_fits H (Some ex)"
  shows "\<exists>d f st'. exec_enter H internal ex (Some ex) st = Some (d, f, st') \<and> ext_inv st' \<and> g_level st' = g_level st + 1 \<and>
    frame_small f"
proof -
  have ex: "ex_ok (ho_zend H) ex" using assms(3) by (simp add: status_fits_def)
  obtain st1 where st1: "exec_check H (Some ex) st = Some st1" "ext_inv st1" "same_exec st st1"
    using exec_check_inv [OF assms(1,3,2)] by blast
  obtain d where d: "filter_frame ex st1 = Some d"
    using filter_frame_total [OF _ ex, of st1] st1(2) by (auto simp: ext_inv_def)
  let ?st = "st1\<lparr>g_level := g_level st1 + 1\<rparr>"
  have inv: "ext_inv ?st" "g_level ?st = g_level st + 1"
    using st1 ext_inv_level [OF st1(2)] by (auto simp: ext_inv_def same_exec_def)
  have "frame_small zero_frame"
    by (simp add: zero_frame_def frame_small_def sds_small_def arr_def args_ok_def)
  with exec_entry_inv [OF assms(1) inv(1) ex, of internal d] st1 d inv show ?thesis
    by (cases "d = 0") (auto simp: exec_enter_def same_exec_def)
qed

lemma frame_retval_inv:
  assumes "host_ok H" and "frame_small f" and "zval_ok rv" and "zval_ok ev"
  shows "\<exists>f'. frame_retval H internal ex retp rv ev f = Some f' \<and> frame_small f'"
proof -
  have "\<exists>s. repr_zval (ho_mem H) (ho_zend H) 32 v = Some s \<and> sds_small s" if "zval_ok v" for v
    using makes_ok [OF repr_zval_spec [OF _ that] length_zval_text [OF that]] assms(1) by (simp add: host_ok_def)
  from this [OF assms(3)] this [OF assms(4)] assms(2) show ?thesis
    by (auto simp: frame_retval_def frame_small_def)
qed

lemma exc_update_inv:
  assumes "ext_inv st" and "g_level st < 2 ^ 63"
  shows "\<exists>e st'. exc_update inc f st = Some (f\<lparr>fr_exc_time := e\<rparr>, st') \<and> ext_inv st' \<and> g_level st' = g_level st \<and>
    g_dotrace st' = g_dotrace st"
proof -
  obtain t where t: "g_exc_time_table st = Some t" "length t = g_exc_time_len st" "0 \<le> g_level st"
    using assms(1) by (auto simp: ext_inv_def)
  have nat: "to_size (g_level st + 1) = Suc (nat (g_level st))"
    using assms(2) t(3) by (simp add: to_size_def nat_add_distrib)
  have keep: "f = f\<lparr>fr_exc_time := fr_exc_time f\<rparr>" by simp
  show ?thesis
  proof (cases "to_size (g_level st + 1) < g_exc_time_len st")
    case True
    with t nat show ?thesis
      using assms(1) by (auto simp: exc_update_def ext_inv_def Let_def)
  next
    case False
    with assms(1) keep show ?thesis by (auto simp: exc_update_def intro!: exI [of _ "fr_exc_time f"])
  qed
qed

lemma exec_exit_inv:
  assumes "host_ok H" and "ext_inv st" and "frame_small f" and "zval_ok rv" and "zval_ok ev" and "g_level st < 2 ^ 63"
  shows "\<exists>st'. exec_exit H internal ex retp d f bail rv ev st = Some st' \<and> ext_inv st' \<and> g_level st' = g_level st"
proof -
  let ?t = "ho_clock H (w_ticks st)" and ?st = "st\<lparr>w_ticks := Suc (w_ticks st)\<rparr>"
  let ?inc = "word_of_int ?t - fr_inc_time f"
  obtain e st1 where st1: "exc_update ?inc (f\<lparr>fr_inc_time := ?inc\<rparr>) ?st =
      Some (f\<lparr>fr_inc_time := ?inc, fr_exc_time := e\<rparr>, st1)" "ext_inv st1" "g_level st1 = g_level st"
    using exc_update_inv [of ?st ?inc "f\<lparr>fr_inc_time := ?inc\<rparr>"] assms(2,6) by auto
  let ?f = "f\<lparr>fr_inc_time := ?inc, fr_exc_time := e\<rparr>"
  obtain g where g: "(if bail then Some ?f else frame_retval H internal ex retp rv ev ?f) = Some g" "frame_small g"
    using frame_retval_inv [OF assms(1) _ assms(4,5), of ?f internal ex retp] assms(3) by (cases bail) auto
  obtain st2 where "send_frame_if H (g_dotrace st1 AND d) (g\<lparr>fr_type := PT_FRAME_EXIT\<rparr>) st1 = Some st2" "ext_inv st2"
    "same_exec st1 st2" using send_frame_inv [OF assms(1) st1(2), of "g\<lparr>fr_type := PT_FRAME_EXIT\<rparr>"] g(2) by auto
  with st1 g(1) show ?thesis by (simp add: exec_exit_def pt_time_usec_def Let_def same_exec_def)
qed

lemma exec_leave_inv:
  assumes "host_ok H" and "ext_inv st" and "frame_small f" and "zval_ok rv" and "zval_ok ev"
    and "1 \<le> g_level st" and "g_level st < 2 ^ 63"
  shows "\<exists>st'. exec_leave H internal ex retp d f bail rv ev st = Some st' \<and> ext_inv st' \<and> g_level st' = g_level st - 1"
proof -
  obtain st' where "(if d = 0 then Some st else exec_exit H internal ex retp d f bail rv ev st) = Some st'"
    "ext_inv st'" "g_level st' = g_level st"
    using exec_exit_inv [OF assms(1-5,7), of internal ex retp d bail] assms(2) by (cases "d = 0") auto
  with assms(6) ext_inv_level [of st' "g_level st' - 1"] show ?thesis by (simp add: exec_leave_def)
qed

text \<open>A program whose calls have the shape the engine gives them, its depth and whether it bails out.\<close>

fun call_ok :: "host \<Rightarrow> call \<Rightarrow> bool" where
  "call_ok H (Call internal ex retp body bail rv ev) \<longleftrightarrow> status_fits H (Some ex) \<and> zval_ok rv \<and> zval_ok ev \<and>
     list_all (call_ok H) body"
| "call_ok H (Flag b) \<longleftrightarrow> True"

fun call_depth :: "call \<Rightarrow> nat" where
  "call_depth (Call internal ex retp body bail rv ev) = Suc (foldr max (map call_depth body) 0)"
| "call_depth (Flag b) = 0"

definition body_depth :: "call list \<Rightarrow> nat" where
  "body_depth cs = foldr max (map call_depth cs) 0"

fun call_bails :: "call \<Rightarrow> bool" where
  "call_bails (Call internal ex retp body bail rv ev) \<longleftrightarrow> bail \<or> list_ex call_bails body"
| "call_bails (Flag b) \<longleftrightarrow> False"

text \<open>What the tool writes between the calls, and the number of calls.\<close>

fun call_flags :: "(bool \<Rightarrow> bool) \<Rightarrow> call \<Rightarrow> bool" where
  "call_flags P (Call internal ex retp body bail rv ev) \<longleftrightarrow> list_all (call_flags P) body"
| "call_flags P (Flag b) \<longleftrightarrow> P b"

fun call_count :: "call \<Rightarrow> nat" where
  "call_count (Call internal ex retp body bail rv ev) = Suc (sum_list (map call_count body))"
| "call_count (Flag b) = 0"

text \<open>No call has more arguments than this.\<close>

fun call_args :: "nat \<Rightarrow> call \<Rightarrow> bool" where
  "call_args w (Call internal ex retp body bail rv ev) \<longleftrightarrow> ex_num_args ex \<le> w \<and> list_all (call_args w) body"
| "call_args w (Flag b) \<longleftrightarrow> True"

text \<open>A program during which no tool asks for this process.\<close>

abbreviation call_alone :: "call \<Rightarrow> bool" where
  "call_alone \<equiv> call_flags Not"

lemma body_depth_simps [simp]: "body_depth [] = 0" "body_depth (c # cs) = max (call_depth c) (body_depth cs)"
  by (simp_all add: body_depth_def)

lemma run_call_core:
  "run_call H (Call internal ex retp body bail rv ev) st = do {
     (d, f, st1) \<leftarrow> exec_enter H internal ex (Some ex) st;
     (b, st2) \<leftarrow> run_body H body st1;
     st3 \<leftarrow> exec_leave H internal ex (internal \<and> retp) d f (b \<or> bail) rv ev st2;
     Some (b \<or> bail, st3) }"
  by (cases internal)
    (auto simp: pt_execute_internal_def pt_execute_ex_def pt_execute_core_def Let_def split: bind_splits)

lemma set_flag_inv:
  assumes "ext_inv st"
  shows "\<exists>fs. set_flag b st = Some (st\<lparr>w_files := fs\<rparr>) \<and> ext_inv (st\<lparr>w_files := fs\<rparr>) \<and>
    CTRL_IS_ACTIVE (st\<lparr>w_files := fs\<rparr>) = Some b"
proof -
  have ok: "ext_ok st" using assms by (simp add: ext_inv_def)
  obtain fs where fs: "ctrl_put (g_ctrl st) b (g_pid st) (w_files st) = Some fs" "ctrl_ok (g_ctrl st) fs"
    "pt_ctrl_is_active (g_ctrl st) (g_pid st) fs = Some b"
    using ctrl_put_spec [of "g_ctrl st" "w_files st" "g_pid st" b] ok by (auto simp: ext_ok_def)
  let ?st = "st\<lparr>w_files := fs\<rparr>"
  have "ext_ok ?st" using ok fs(2) by (simp add: ext_ok_def to_tool_def)
  then have "ext_inv ?st" using assms by (simp add: ext_inv_def url_ready_def)
  with fs show ?thesis by (intro exI [of _ fs]) (simp add: set_flag_def CTRL_IS_ACTIVE_def)
qed

lemma run_inv:
  "host_ok H \<Longrightarrow> ext_inv st \<Longrightarrow> call_ok H c \<Longrightarrow> g_level st + int (call_depth c) < 2 ^ 63 \<Longrightarrow>
   \<exists>st'. run_call H c st = Some (call_bails c, st') \<and> ext_inv st' \<and> g_level st' = g_level st"
  "host_ok H \<Longrightarrow> ext_inv st \<Longrightarrow> list_all (call_ok H) cs \<Longrightarrow> g_level st + int (body_depth cs) < 2 ^ 63 \<Longrightarrow>
   \<exists>st'. run_body H cs st = Some (list_ex call_bails cs, st') \<and> ext_inv st' \<and> g_level st' = g_level st"
proof (induction H c st and H cs st rule: run_call_run_body.induct)
  case (1 H internal ex retp body bail rv ev st)
  let ?ori = "\<lambda>st. do { (b, st) \<leftarrow> run_body H body st; Some (b \<or> bail, rv, ev, st) }"
  have ok: "status_fits H (Some ex)" "zval_ok rv" "zval_ok ev" "list_all (call_ok H) body" using "1.prems" by simp_all
  obtain d f st1 where st1: "exec_enter H internal ex (Some ex) st = Some (d, f, st1)" "ext_inv st1"
    "g_level st1 = g_level st + 1" "frame_small f"
    using exec_enter_inv [OF "1.prems"(1,2) ok(1)] by blast
  have depth: "g_level st1 + int (body_depth body) < 2 ^ 63"
    using "1.prems"(4) st1(3) by (simp add: body_depth_def)
  obtain st2 where st2: "run_body H body st1 = Some (list_ex call_bails body, st2)" "ext_inv st2"
    "g_level st2 = g_level st + 1"
    using "1.IH" [OF "1.prems"(1) st1(2) ok(4) depth] st1(3) by auto
  have lev: "1 \<le> g_level st2" "g_level st2 < 2 ^ 63"
    using st2(3) "1.prems"(2,4) by (auto simp: ext_inv_def)
  obtain st3 where "exec_leave H internal ex (internal \<and> retp) d f (list_ex call_bails body \<or> bail) rv ev st2 = Some st3"
    "ext_inv st3" "g_level st3 = g_level st"
    using exec_leave_inv [OF "1.prems"(1) st2(2) st1(4) ok(2,3) lev] st2(3) by fastforce
  with st1(1) st2(1) show ?case unfolding run_call_core by (auto simp: disj_commute)
next
  case (2 H b st)
  then show ?case using set_flag_inv [of st b] by auto
next
  case (3 H st)
  then show ?case by simp
next
  case (4 H c cs st)
  then obtain st1 where "run_call H c st = Some (call_bails c, st1)" "ext_inv st1" "g_level st1 = g_level st"
    by fastforce
  with 4 show ?case by (cases "call_bails c") auto
qed

section \<open>Properties of runs\<close>

text \<open>A module that traces to the output and a program of two calls, for the witnesses.\<close>

definition quiet_ext :: ext_state where
  "quiet_ext = (sample_ext dead_sock)\<lparr>g_dotrace := TRACE_TO_OUTPUT, g_sock_fd := -1, w_net := empty_net []\<rparr>"

definition sample_f :: call where
  "sample_f = Call False sample_call False [] False IS_NULL (IS_LONG 3)"

definition sample_prog :: call where
  "sample_prog = Call False sample_main False [sample_f] True IS_NULL IS_NULL"

text \<open>The same while a tool asks for the process and gives up again.\<close>

definition sample_watched :: call where
  "sample_watched = Call False sample_main False [Flag True, sample_f, Flag False, sample_f] True IS_NULL IS_NULL"

lemma quiet_ext_inv [simp]: "ext_inv quiet_ext" "g_level quiet_ext = 0" "w_ticks quiet_ext = 0"
  "w_shown quiet_ext = []" "g_exc_time_table quiet_ext = Some (replicate 4096 0)" "g_dotrace quiet_ext = TRACE_TO_OUTPUT"
  "g_pft quiet_ext = \<lparr>ft_type = PT_FILTER_EMPTY, ft_content = None\<rparr>"
proof -
  have "ext_ok quiet_ext" using sample_ext_ok(2) [of dead_sock]
    by (simp add: ext_ok_def quiet_ext_def net_ok_def empty_net_def to_tool_def sample_ext_def TRACE_TO_TOOL_def
        TRACE_TO_OUTPUT_def)
  then show "ext_inv quiet_ext"
    by (simp add: ext_inv_def quiet_ext_def sample_ext_def polite_net_def empty_net_def url_ready_def filter_bits)
qed (simp_all add: quiet_ext_def sample_ext_def)

lemma sample_prog_ok [simp]: "call_ok sample_host sample_f" "call_ok sample_host sample_prog"
  "call_depth sample_f = 1" "call_depth sample_prog = 2" "call_bails sample_prog" "call_alone sample_prog"
  "call_ok sample_host sample_watched" "call_depth sample_watched = 2" "call_bails sample_watched"
proof -
  have fits: "status_fits sample_host (Some sample_call)" "status_fits sample_host (Some sample_main)"
    by (simp_all add: status_fits_def sample_host_def) (simp_all add: sample_call_def sample_main_def)
  show f: "call_ok sample_host sample_f" using fits by (simp add: sample_f_def)
  show "call_ok sample_host sample_prog" using fits f by (simp add: sample_prog_def)
  show f: "call_depth sample_f = 1" by (simp add: sample_f_def)
  show "call_depth sample_prog = 2" using f by (simp add: sample_prog_def)
  show "call_bails sample_prog" "call_alone sample_prog" by (simp_all add: sample_prog_def sample_f_def)
  show "call_ok sample_host sample_watched" "call_depth sample_watched = 2" "call_bails sample_watched"
    using fits by (simp_all add: sample_watched_def sample_f_def)
qed



end
