(* ===== verification/Ext_Times.thy ===== *)
theory Ext_Times
  imports Ext_Exec
begin

unbundle bit_operations_syntax

text \<open>
  What a run of a program reports: the frames of its calls, with inclusive and exclusive times. A walk
  over the tree of calls is the reference. The executor reports to the output of the process, to the
  tool, or to both; that the reports are those of the reference is proved once, for every way of
  reporting that keeps the contract of the locale \<open>frame_sink\<close>, and both ways do.
\<close>

section \<open>The reference\<close>

text \<open>No filter on frames.\<close>

definition no_filter :: "pt_filter_t \<Rightarrow> bool" where
  "no_filter p \<longleftrightarrow> ft_type p AND (PT_FILTER_FUNCTION_NAME OR PT_FILTER_CLASS_NAME) = 0"

text \<open>What a shown frame says of the run: its type, level, inclusive and exclusive time.\<close>

type_synonym event = "u8 \<times> u32 \<times> u64 \<times> u64"

definition frame_event :: "pt_frame_t \<Rightarrow> event" where
  "frame_event f = (fr_type f, fr_level f, fr_inc_time f, fr_exc_time f)"

text \<open>
  The reference: a walk over the tree of calls that reads the clock at every entry and exit. The
  exclusive time of a call is its inclusive time less the inclusive times of the calls it made.
\<close>

fun ref_call :: "(nat \<Rightarrow> int) \<Rightarrow> nat \<Rightarrow> int \<Rightarrow> call \<Rightarrow> nat \<times> u64 \<times> event list"
  and ref_body :: "(nat \<Rightarrow> int) \<Rightarrow> nat \<Rightarrow> int \<Rightarrow> call list \<Rightarrow> nat \<times> u64 \<times> event list" where
  "ref_call T n l (Call internal ex retp body bail rv ev) =
     (case ref_body T (Suc n) (l + 1) body of (m, inner, evs) \<Rightarrow>
        let inc = word_of_int (T m) - word_of_int (T n) in
        (Suc m, inc, (PT_FRAME_ENTRY, word_of_int (l + 1), 0, 0) # evs @
           [(PT_FRAME_EXIT, word_of_int (l + 1), inc, inc - inner)]))"
| "ref_call T n l (Flag b) = (n, 0, [])"
| "ref_body T n l [] = (n, 0, [])"
| "ref_body T n l (c # cs) =
     (case ref_call T n l c of (m, inc, evs) \<Rightarrow>
        if call_bails c then (m, inc, evs)
        else case ref_body T m l cs of (k, rest, evs') \<Rightarrow> (k, inc + rest, evs @ evs'))"

lemma frame_build_times:
  "frame_build E Z level internal type caller ex op_array = Some (f, warn) \<Longrightarrow> fr_inc_time f = 0 \<and> fr_exc_time f = 0"
  by (auto simp: frame_build_def frame_named_def frame_special_def zero_frame_def bind_eq_Some_conv Let_def
      split: option.splits prod.splits if_splits)

text \<open>The part of the state that times depend on.\<close>

definition clocked :: "ext_state \<Rightarrow> u64 \<Rightarrow> pt_filter_t \<Rightarrow> int \<Rightarrow> nat \<Rightarrow> u64 list \<Rightarrow> bool" where
  "clocked st d p l n t \<longleftrightarrow> ext_inv st \<and> g_dotrace st = d \<and> g_pft st = p \<and>
     g_level st = l \<and> w_ticks st = n \<and> g_exc_time_table st = Some t"

lemma filter_frame_cong: "g_dotrace st = g_dotrace st' \<Longrightarrow> g_pft st = g_pft st' \<Longrightarrow> filter_frame ex st = filter_frame ex st'"
  by (simp add: filter_frame_def cong: if_cong)

lemma no_filter_frame: "clocked st d p l n t \<Longrightarrow> no_filter p \<Longrightarrow> filter_frame ex st = Some d"
  by (simp add: filter_frame_def no_filter_def clocked_def)

text \<open>No time is left over from deeper levels.\<close>

definition clean :: "nat \<Rightarrow> u64 list \<Rightarrow> bool" where
  "clean l t \<longleftrightarrow> (\<forall>i. l < i \<and> i < length t \<longrightarrow> t ! i = 0)"

lemma clean_update [simp]: "clean l (t[l := x]) = clean l t"
  by (auto simp: clean_def)

lemma clean_Suc: "clean l t \<Longrightarrow> clean (Suc l) t"
  by (simp add: clean_def)

text \<open>With nothing left over below, the entry of the next level is zero before and after.\<close>

lemma times_clean: "clean (Suc l) t \<Longrightarrow> t[Suc l := x, Suc (Suc l) := 0] = t[Suc l := x]"
  by (cases "Suc (Suc l) < length t") (auto simp: clean_def list_update_same_conv list_update_beyond)

text \<open>A frame with a number of arguments that a call of this width has; the engine bounds every width.\<close>

definition frame_narrow :: "nat \<Rightarrow> pt_frame_t \<Rightarrow> bool" where
  "frame_narrow w f \<longleftrightarrow> frame_small f \<and> length (arr (fr_args f)) \<le> Suc w"

lemma frame_narrow_fields [simp]:
  "frame_narrow w (f\<lparr>fr_inc_time := x1\<rparr>) = frame_narrow w f" "frame_narrow w (f\<lparr>fr_exc_time := x2\<rparr>) = frame_narrow w f"
  "frame_narrow w (f\<lparr>fr_type := x3\<rparr>) = frame_narrow w f"
  by (simp_all add: frame_narrow_def)

lemma status_fits_args: "status_fits H (Some ex) \<Longrightarrow> ex_num_args ex \<le> 2 ^ 15"
  using ex_ok_args [of "ho_zend H" ex 0] by (simp add: status_fits_def)

lemma call_ok_args: "call_ok H c \<Longrightarrow> call_args (2 ^ 15) c"
  using status_fits_args by (induction H c rule: call_ok.induct) (fastforce simp: list_all_iff)+

lemma narrow_fits:
  assumes "frame_narrow 24 f"
  shows "length (enc_frame f) \<le> 1024 * 1024"
proof -
  have "length (arr (fr_args f)) * (2 ^ 15 + 4) \<le> 25 * (2 ^ 15 + 4)"
    using assms by (intro mult_le_mono1) (simp add: frame_narrow_def)
  with assms length_enc_smalls [of "arr (fr_args f)"] length_enc_small [of "fr_filename f"]
    length_enc_small [of "fr_class f"] length_enc_small [of "fr_function f"] length_enc_small [of "fr_retval f"]
  show ?thesis by (simp add: frame_narrow_def frame_small_def enc_frame_def)
qed

section \<open>The contract of a sink\<close>

text \<open>The text in front of a frame, and changes that no sink looks at or that keep what is asked for.\<close>

definition frame_mark :: "pt_frame_t \<Rightarrow> bytes" where
  "frame_mark f = (if fr_type f = PT_FRAME_ENTRY then ''> '' else ''< '')"

definition silent :: "ext_state \<Rightarrow> ext_state \<Rightarrow> bool" where
  "silent st st' \<longleftrightarrow> st' = st\<lparr>g_level := g_level st', w_ticks := w_ticks st', g_exc_time_table := g_exc_time_table st',
     w_errors := w_errors st'\<rparr>"

definition kept :: "ext_state \<Rightarrow> ext_state \<Rightarrow> bool" where
  "kept st st' \<longleftrightarrow> g_dotrace st' = g_dotrace st \<and> g_pft st' = g_pft st \<and> w_ticks st' = w_ticks st"

text \<open>
  A way of reporting: a state in which it works and can go on for a number of further calls, the
  frames that were reported between two states, and what the tool may write meanwhile.
\<close>

locale frame_sink =
  fixes mode :: "nat \<Rightarrow> ext_state \<Rightarrow> bool" and emits :: "ext_state \<Rightarrow> pt_frame_t list \<Rightarrow> ext_state \<Rightarrow> bool"
    and flag_ok :: "bool \<Rightarrow> bool"
  assumes mode_on: "mode b st \<Longrightarrow> g_dotrace st \<noteq> 0"
    and mode_Suc: "mode (Suc b) st \<Longrightarrow> mode b st"
    and emits_append: "emits st fs st1 \<Longrightarrow> emits st1 gs st2 \<Longrightarrow> emits st (fs @ gs) st2"
    and local: "mode b st \<Longrightarrow> silent st st' \<Longrightarrow> mode b st' \<and> emits st [] st'"
    and check: "host_ok H \<Longrightarrow> ext_inv st \<Longrightarrow> mode (Suc b) st \<Longrightarrow> exec_check H cur st = Some st' \<Longrightarrow>
      mode b st' \<and> emits st [] st' \<and> kept st st'"
    and emit: "host_ok H \<Longrightarrow> ext_inv st \<Longrightarrow> mode b st \<Longrightarrow> frame_small f \<Longrightarrow> send_frame_if H (g_dotrace st) f st = Some st' \<Longrightarrow>
      mode b (show_frame_if (g_dotrace st) (frame_mark f) f st') \<and>
      emits st [f] (show_frame_if (g_dotrace st) (frame_mark f) f st') \<and> kept st st'"
    and flag: "ext_inv st \<Longrightarrow> mode b st \<Longrightarrow> flag_ok x \<Longrightarrow> set_flag x st = Some st' \<Longrightarrow> mode b st' \<and> emits st [] st'"
begin

lemma mode_le: "mode (a + b) st \<Longrightarrow> mode a st"
  by (induction b) (auto dest: mode_Suc)

lemma emits_self: "mode b st \<Longrightarrow> emits st [] st"
  using local [of b st st] by (simp add: silent_def)

lemma emits_Cons: "emits st [f] st1 \<Longrightarrow> emits st1 fs st2 \<Longrightarrow> emits st (f # fs) st2"
  using emits_append [of st "[f]"] by simp

lemma emits_silent: "emits st fs st1 \<Longrightarrow> mode b st1 \<Longrightarrow> silent st1 st2 \<Longrightarrow> emits st fs st2"
  using emits_append [of st fs st1 "[]" st2] local by simp

lemma report:
  assumes "host_ok H" and "mode b st" and "clocked st d p l n t" and "frame_small f"
  shows "\<exists>st'. send_frame_if H d f st = Some st' \<and> mode b (show_frame_if d (frame_mark f) f st') \<and>
    clocked (show_frame_if d (frame_mark f) f st') d p l n t \<and> emits st [f] (show_frame_if d (frame_mark f) f st') \<and>
    g_dotrace st' = d"
proof -
  have inv: "ext_inv st" "g_dotrace st = d" using assms(3) by (simp_all add: clocked_def)
  obtain st' where st': "send_frame_if H d f st = Some st'" "ext_inv st'" "same_exec st st'"
    using send_frame_inv [OF assms(1) inv(1) assms(4)] by blast
  with emit [OF assms(1) inv(1) assms(2,4)] inv(2) assms(3) show ?thesis
    by (auto simp: clocked_def kept_def same_exec_def) (simp_all add: show_frame_if_def)
qed

lemma checked:
  assumes "host_ok H" and "mode (Suc b) st" and "clocked st d p l n t" and "status_fits H (Some ex)"
  shows "\<exists>st'. exec_check H (Some ex) st = Some st' \<and> mode b st' \<and> clocked st' d p l n t \<and> emits st [] st'"
proof -
  have inv: "ext_inv st" using assms(3) by (simp add: clocked_def)
  obtain st' where st': "exec_check H (Some ex) st = Some st'" "ext_inv st'" "same_exec st st'"
    using exec_check_inv [OF assms(1,4) inv] by blast
  with check [OF assms(1) inv assms(2)] assms(3) show ?thesis by (auto simp: clocked_def kept_def same_exec_def)
qed

lemma enter_traced:
  assumes "host_ok H" and "mode (Suc b) st" and "clocked st d p l n t" and "status_fits H (Some ex)" and "filter_frame ex st = Some d"
    and "ex_num_args ex \<le> w"
  shows "\<exists>f g st'. exec_enter H internal ex (Some ex) st = Some (d, f, st') \<and> mode b st' \<and> clocked st' d p (l + 1) (Suc n) t \<and>
    emits st [g] st' \<and> frame_event g = (PT_FRAME_ENTRY, word_of_int (l + 1), 0, 0) \<and> frame_narrow w g \<and> frame_narrow w f \<and>
    fr_level f = word_of_int (l + 1) \<and> fr_inc_time f = word_of_int (ho_clock H n)"
proof -
  have d: "d \<noteq> 0" "0 \<le> l" using mode_on [OF assms(2)] assms(3) by (auto simp: clocked_def ext_inv_def)
  have ex: "ex_ok (ho_zend H) ex" using assms(4) by (simp add: status_fits_def)
  obtain st1 where st1: "exec_check H (Some ex) st = Some st1" "mode b st1" "clocked st1 d p l n t" "emits st [] st1"
    using checked [OF assms(1-4)] by blast
  have filter: "filter_frame ex st1 = Some d"
    using filter_frame_cong [of st1 st ex] st1(3) assms(3,5) by (simp add: clocked_def)
  let ?caller = "case ex_prev ex of Some p \<Rightarrow> p | None \<Rightarrow> ex"
  have "ex_ok (ho_zend H) ?caller" using ex ex_ok_prev by (auto split: option.split)
  then obtain g warn where g: "frame_build (ho_mem H) (ho_zend H) (l + 1) internal PT_FRAME_ENTRY (Some ?caller) ex None =
      Some (g, warn)" "frame_small g" "fr_type g = PT_FRAME_ENTRY" "fr_level g = word_of_int (l + 1)"
    using frame_build_ok [of "ho_mem H" "ho_zend H" ex ?caller "l + 1" internal PT_FRAME_ENTRY] assms(1) ex
    by (auto simp: host_ok_def)
  let ?st = "if warn then php_error Without_Scope (st1\<lparr>g_level := l + 1\<rparr>) else st1\<lparr>g_level := l + 1\<rparr>"
  have sil: "silent st1 ?st" by (simp add: silent_def php_error_def)
  have clk: "clocked ?st d p (l + 1) n t"
    using st1(3) ext_inv_level [of st1 "l + 1"] d(2) by (simp add: clocked_def php_error_def)
  have st2: "mode b ?st" "emits st [] ?st" using local [OF st1(2) sil] emits_append [OF st1(4)] by auto
  obtain st3 where st3: "send_frame_if H d g ?st = Some st3" "mode b (show_frame_if d (frame_mark g) g st3)"
    "clocked (show_frame_if d (frame_mark g) g st3) d p (l + 1) n t" "emits ?st [g] (show_frame_if d (frame_mark g) g st3)"
    using report [OF assms(1) st2(1) clk g(2)] by blast
  let ?st3 = "show_frame_if d ''> '' g st3"
  let ?st' = "?st3\<lparr>w_ticks := Suc (w_ticks ?st3)\<rparr>"
  have mark: "frame_mark g = ''> ''" using g(3) by (simp add: frame_mark_def)
  have sil': "silent ?st3 ?st'" by (simp add: silent_def)
  have n: "w_ticks ?st3 = n" using st3(3) by (simp add: clocked_def mark)
  have "exec_enter H internal ex (Some ex) st = Some (d, g\<lparr>fr_inc_time := word_of_int (ho_clock H n)\<rparr>, ?st')"
    using st1(1,3) filter d g(1) st3(1) n by (simp add: exec_enter_def exec_entry_def pt_time_usec_def Let_def clocked_def)
  moreover have "mode b ?st'" "emits st [g] ?st'"
    using local [OF st3(2)] emits_silent [OF emits_append [OF st2(2) st3(4)] st3(2)] sil' by (simp_all add: mark)
  moreover have "clocked ?st' d p (l + 1) (Suc n) t" using st3(3) n by (simp add: clocked_def mark)
  moreover have "frame_narrow w g" using g(2) frame_build_args [OF ex g(1)] assms(6) by (simp add: frame_narrow_def)
  ultimately show ?thesis using g frame_build_times [OF g(1)] by (auto simp: frame_event_def)
qed

lemma leave_traced:
  assumes "host_ok H" and "mode b st" and "clocked st d p l n t" and "frame_narrow w f" and "zval_ok rv" and "zval_ok ev"
    and "1 \<le> l" and "Suc (nat l) < length t" and "l < 2 ^ 63"
  defines "inc \<equiv> word_of_int (ho_clock H n) - fr_inc_time f"
  shows "\<exists>g st'. exec_leave H internal ex retp d f bail rv ev st = Some st' \<and> mode b st' \<and>
    clocked st' d p (l - 1) (Suc n) (t[nat l := t ! nat l + inc, Suc (nat l) := 0]) \<and>
    emits st [g] st' \<and> frame_narrow w g \<and> frame_event g = (PT_FRAME_EXIT, fr_level f, inc, inc - t ! Suc (nat l))"
proof -
  have q: "ext_inv st" "g_level st = l" "w_ticks st = n" "g_exc_time_table st = Some t" "g_dotrace st = d"
    using assms(3) by (simp_all add: clocked_def)
  have d: "d \<noteq> 0" using mode_on [OF assms(2)] q(5) by simp
  have len: "g_exc_time_len st = length t" using q by (auto simp: ext_inv_def)
  have nat: "to_size (l + 1) = Suc (nat l)" using assms(7,9) by (simp add: to_size_def nat_add_distrib)
  let ?f = "f\<lparr>fr_inc_time := inc, fr_exc_time := inc - t ! Suc (nat l)\<rparr>"
  obtain g0 where g0: "(if bail then Some ?f else frame_retval H internal ex retp rv ev ?f) = Some g0" "frame_small g0"
    using frame_retval_inv [OF assms(1) _ assms(5,6), of ?f internal ex retp] assms(4) by (cases bail) (auto simp: frame_narrow_def)
  then have same: "fr_level g0 = fr_level f" "fr_inc_time g0 = inc" "fr_exc_time g0 = inc - t ! Suc (nat l)" "fr_args g0 = fr_args f"
    by (auto simp: frame_retval_def bind_eq_Some_conv split: if_splits)
  let ?t = "t[nat l := t ! nat l + inc, Suc (nat l) := 0]" and ?g = "g0\<lparr>fr_type := PT_FRAME_EXIT\<rparr>"
  let ?st = "st\<lparr>w_ticks := Suc n, g_exc_time_table := Some ?t\<rparr>"
  have mark: "frame_mark ?g = ''< ''" by (simp add: frame_mark_def PT_FRAME_ENTRY_def PT_FRAME_EXIT_def)
  have sil: "silent st ?st" by (simp add: silent_def)
  have clk: "clocked ?st d p l (Suc n) ?t" using q assms(3) by (simp add: clocked_def ext_inv_def)
  note st1 = local [OF assms(2) sil]
  have small: "frame_small ?g" using g0(2) by simp
  obtain st2 where st2: "send_frame_if H d ?g ?st = Some st2" "mode b (show_frame_if d ''< '' ?g st2)"
    "clocked (show_frame_if d ''< '' ?g st2) d p l (Suc n) ?t" "emits ?st [?g] (show_frame_if d ''< '' ?g st2)" "g_dotrace st2 = d"
    using report [OF assms(1) _ clk small] st1 by (auto simp: mark)
  let ?st2 = "show_frame_if d ''< '' ?g st2"
  let ?st' = "?st2\<lparr>g_level := g_level ?st2 - 1\<rparr>"
  have sil': "silent ?st2 ?st'" by (simp add: silent_def)
  have "exec_leave H internal ex retp d f bail rv ev st = Some ?st'"
    using q g0(1) d nat assms(7,8) len st2(1,5)
    by (simp add: exec_leave_def exec_exit_def exc_update_def pt_time_usec_def Let_def flip: inc_def)
  moreover have "mode b ?st'" using local [OF st2(2) sil'] by simp
  moreover have "emits st [?g] ?st'"
    using emits_silent [OF emits_append [OF st1 [THEN conjunct2] st2(4)] st2(2) sil'] by simp
  moreover have "clocked ?st' d p (l - 1) (Suc n) ?t"
    using st2(3) assms(7) ext_inv_level [of ?st2 "l - 1"] by (simp add: clocked_def)
  moreover have "frame_narrow w ?g" using small same(4) assms(4) by (simp add: frame_narrow_def)
  ultimately show ?thesis using same by (auto simp: frame_event_def)
qed

lemma call_traced:
  assumes H: "host_ok H" and filter: "filter_frame ex st = Some d" and st: "mode (Suc a) st" "clocked st d p (int l) n t"
    and ok: "status_fits H (Some ex)" "zval_ok rv" "zval_ok ev" "ex_num_args ex \<le> w" and room: "Suc (Suc l) < length t" "length t < 2 ^ 62"
    and body: "\<And>st1. mode a st1 \<Longrightarrow> clocked st1 d p (int (Suc l)) (Suc n) t \<Longrightarrow>
      \<exists>st2 fs. run_body H body st1 = Some (bb, st2) \<and> emits st1 fs st2 \<and> list_all (frame_narrow w) fs \<and> map frame_event fs = evs \<and>
        mode b st2 \<and> clocked st2 d p (int (Suc l)) m (t[Suc (Suc l) := inner])"
  defines "inc \<equiv> word_of_int (ho_clock H m) - word_of_int (ho_clock H n)"
  shows "\<exists>st' fs. run_call H (Call internal ex retp body bail rv ev) st = Some (bb \<or> bail, st') \<and> emits st fs st' \<and>
    list_all (frame_narrow w) fs \<and> map frame_event fs = (PT_FRAME_ENTRY, word_of_int (int l + 1), 0, 0) # evs @
      [(PT_FRAME_EXIT, word_of_int (int l + 1), inc, inc - inner)] \<and>
    mode b st' \<and> clocked st' d p (int l) (Suc m) (t[Suc l := t ! Suc l + inc, Suc (Suc l) := 0])"
proof -
  have nat: "nat (1 + int l) = Suc l" by simp
  obtain f g st1 where st1: "exec_enter H internal ex (Some ex) st = Some (d, f, st1)" "mode a st1"
    "clocked st1 d p (int l + 1) (Suc n) t" "emits st [g] st1" "frame_event g = (PT_FRAME_ENTRY, word_of_int (int l + 1), 0, 0)"
    "frame_narrow w g" "frame_narrow w f" "fr_level f = word_of_int (int l + 1)" "fr_inc_time f = word_of_int (ho_clock H n)"
    using enter_traced [OF H st ok(1) filter ok(4), of internal] by blast
  have "clocked st1 d p (int (Suc l)) (Suc n) t" using st1(3) by (simp add: add.commute)
  from body [OF st1(2) this] obtain st2 fs where st2: "run_body H body st1 = Some (bb, st2)" "emits st1 fs st2"
    "list_all (frame_narrow w) fs" "map frame_event fs = evs" "mode b st2" "clocked st2 d p (int (Suc l)) m (t[Suc (Suc l) := inner])" by auto
  obtain g' st3 where st3: "exec_leave H internal ex (internal \<and> retp) d f (bb \<or> bail) rv ev st2 = Some st3" "mode b st3"
    "clocked st3 d p (int l) (Suc m) (t[Suc (Suc l) := inner, Suc l := t ! Suc l + inc, Suc (Suc l) := 0])"
    "emits st2 [g'] st3" "frame_narrow w g'" "frame_event g' = (PT_FRAME_EXIT, fr_level f, inc, inc - inner)"
    using leave_traced [OF H st2(5,6) st1(7) ok(2,3), of internal ex "internal \<and> retp" "bb \<or> bail"] room st1(9)
    by (auto simp: inc_def nat)
  have "t[Suc (Suc l) := inner, Suc l := t ! Suc l + inc, Suc (Suc l) := 0] =
      t[Suc l := t ! Suc l + inc, Suc (Suc l) := 0]"
    by (simp add: list_update_swap [of "Suc l" "Suc (Suc l)"])
  moreover have "run_call H (Call internal ex retp body bail rv ev) st = Some (bb \<or> bail, st3)"
    using st1(1) st2(1) st3(1) unfolding run_call_core by simp
  moreover have "emits st (g # fs @ [g']) st3" using emits_Cons [OF st1(4) emits_append [OF st2(2) st3(4)]] .
  ultimately show ?thesis using st1 st2 st3 by (intro exI [of _ st3] exI [of _ "g # fs @ [g']"]) simp
qed

lemma call_untraced:
  assumes "host_ok H" and "filter_frame ex st = Some 0" and "mode (Suc a) st" and "clocked st d p (int l) n t" and "status_fits H (Some ex)"
    and body: "\<And>st1. mode a st1 \<Longrightarrow> clocked st1 d p (int (Suc l)) n t \<Longrightarrow>
      \<exists>st2 fs. run_body H body st1 = Some (bb, st2) \<and> emits st1 fs st2 \<and> map frame_event fs = evs \<and>
        mode b st2 \<and> clocked st2 d p (int (Suc l)) m t'"
  shows "\<exists>st' fs. run_call H (Call internal ex retp body bail rv ev) st = Some (bb \<or> bail, st') \<and>
    emits st fs st' \<and> map frame_event fs = evs \<and> mode b st' \<and> clocked st' d p (int l) m t'"
proof -
  obtain st1 where st1: "exec_check H (Some ex) st = Some st1" "mode a st1" "clocked st1 d p (int l) n t" "emits st [] st1"
    using checked [OF assms(1,3-5)] by blast
  have filter: "filter_frame ex st1 = Some 0"
    using filter_frame_cong [of st1 st ex] st1(3) assms(2,4) by (simp add: clocked_def)
  let ?st = "st1\<lparr>g_level := g_level st1 + 1\<rparr>"
  have enter: "exec_enter H internal ex (Some ex) st = Some (0, zero_frame, ?st)"
    using st1(1) filter by (simp add: exec_enter_def)
  have sil: "silent st1 ?st" by (simp add: silent_def)
  have "clocked ?st d p (int (Suc l)) n t"
    using st1(3) ext_inv_level [of st1 "int l + 1"] by (simp add: clocked_def add.commute)
  from body [OF _ this] local [OF st1(2) sil] obtain st2 fs where st2: "run_body H body ?st = Some (bb, st2)" "emits ?st fs st2"
    "map frame_event fs = evs" "mode b st2" "clocked st2 d p (int (Suc l)) m t'" by auto
  let ?st' = "st2\<lparr>g_level := g_level st2 - 1\<rparr>"
  have sil': "silent st2 ?st'" by (simp add: silent_def)
  have "emits st ([] @ [] @ fs) ?st'"
    using emits_silent [OF emits_append [OF st1(4) emits_append [OF local [OF st1(2) sil, THEN conjunct2] st2(2)]] st2(4) sil'] .
  moreover have "mode b ?st'" using local [OF st2(4) sil'] by simp
  moreover have "clocked ?st' d p (int l) m t'" using st2(5) ext_inv_level [of st2 "int l"] by (simp add: clocked_def)
  ultimately show ?thesis
    using enter st2(1,3) unfolding run_call_core by (intro exI [of _ ?st'] exI [of _ fs]) (simp add: exec_leave_def)
qed

text \<open>The frames of a program are those of the reference.\<close>

lemma run_reported:
  "\<lbrakk>host_ok H; no_filter p; mode (b + call_count c) st; clocked st d p (int l) n t; call_ok H c; call_flags flag_ok c; call_args w c; clean (Suc l) t;
    l + call_depth c + 1 < length t; length t < 2 ^ 62; ref_call (ho_clock H) n (int l) c = (m, inc, evs)\<rbrakk> \<Longrightarrow>
   \<exists>st' fs. run_call H c st = Some (call_bails c, st') \<and> emits st fs st' \<and> list_all (frame_narrow w) fs \<and> map frame_event fs = evs \<and>
     mode b st' \<and> clocked st' d p (int l) m (t[Suc l := t ! Suc l + inc])"
  "\<lbrakk>host_ok H; no_filter p; mode (b + sum_list (map call_count cs)) st; clocked st d p (int l) n t; list_all (call_ok H) cs;
    list_all (call_flags flag_ok) cs; list_all (call_args w) cs; clean (Suc l) t;
    l + body_depth cs + 1 < length t; length t < 2 ^ 62; ref_body (ho_clock H) n (int l) cs = (m, inc, evs)\<rbrakk> \<Longrightarrow>
   \<exists>st' fs. run_body H cs st = Some (list_ex call_bails cs, st') \<and> emits st fs st' \<and> list_all (frame_narrow w) fs \<and> map frame_event fs = evs \<and>
     mode b st' \<and> clocked st' d p (int l) m (t[Suc l := t ! Suc l + inc])"
proof (induction H c st and H cs st arbitrary: b l n t m inc evs and b l n t m inc evs rule: run_call_run_body.induct)
  case (1 H internal ex retp body bail rv ev st)
  obtain k inner es where r: "ref_body (ho_clock H) (Suc n) (int (Suc l)) body = (k, inner, es)"
    by (cases "ref_body (ho_clock H) (Suc n) (int (Suc l)) body")
  have depth: "Suc l + body_depth body + 1 < length t" using "1.prems"(9) by (simp add: body_depth_def)
  have zero: "t ! Suc (Suc l) = 0" using "1.prems"(8) depth by (simp add: clean_def)
  have mode: "mode (Suc (b + sum_list (map call_count body))) st" using "1.prems"(3) by simp
  have "\<exists>st2 fs. run_body H body st1 = Some (list_ex call_bails body, st2) \<and> emits st1 fs st2 \<and> list_all (frame_narrow w) fs \<and>
      map frame_event fs = es \<and> mode b st2 \<and> clocked st2 d p (int (Suc l)) k (t[Suc (Suc l) := inner])"
    if "mode (b + sum_list (map call_count body)) st1" "clocked st1 d p (int (Suc l)) (Suc n) t" for st1
    using "1.IH" [OF "1.prems"(1,2) that _ _ _ _ depth "1.prems"(10) r] "1.prems"(5-8) zero by (simp add: clean_Suc)
  note run = call_traced [OF "1.prems"(1) no_filter_frame [OF "1.prems"(4,2)] mode "1.prems"(4) _ _ _ _ _ "1.prems"(10) this,
      of ex rv ev internal retp bail]
  have "m = Suc k" "inc = word_of_int (ho_clock H k) - word_of_int (ho_clock H n)"
    "evs = (PT_FRAME_ENTRY, word_of_int (int l + 1), 0, 0) # es @ [(PT_FRAME_EXIT, word_of_int (int l + 1), inc, inc - inner)]"
    using "1.prems"(11) r by (auto simp: add.commute Let_def)
  moreover have "status_fits H (Some ex)" "zval_ok rv" "zval_ok ev" "ex_num_args ex \<le> w" using "1.prems"(5,7) by simp_all
  moreover have "call_bails (Call internal ex retp body bail rv ev) = (list_ex call_bails body \<or> bail)" by auto
  ultimately show ?case using run depth times_clean [OF "1.prems"(8)] by simp
next
  case (2 H x st)
  then obtain fs where s: "set_flag x st = Some (st\<lparr>w_files := fs\<rparr>)" "ext_inv (st\<lparr>w_files := fs\<rparr>)"
    using set_flag_inv [of st x] by (auto simp: clocked_def)
  with 2 flag [OF _ _ _ s(1), of b] show ?case
    by (intro exI [of _ "st\<lparr>w_files := fs\<rparr>"] exI [of _ "[]"]) (auto simp: clocked_def)
next
  case (3 H st)
  then show ?case using emits_self [of b st] by (intro exI [of _ st] exI [of _ "[]"]) auto
next
  case (4 H c cs st)
  obtain k i es where c: "ref_call (ho_clock H) n (int l) c = (k, i, es)" by (cases "ref_call (ho_clock H) n (int l) c")
  have depth: "l + call_depth c + 1 < length t" using "4.prems"(9) by simp
  have mode: "mode ((b + sum_list (map call_count cs)) + call_count c) st" using "4.prems"(3) by (simp add: add_ac)
  obtain st1 fs where st1: "run_call H c st = Some (call_bails c, st1)" "emits st fs st1" "list_all (frame_narrow w) fs"
    "map frame_event fs = es" "mode (b + sum_list (map call_count cs)) st1" "clocked st1 d p (int l) k (t[Suc l := t ! Suc l + i])"
    using "4.IH"(1) [OF "4.prems"(1,2) mode "4.prems"(4) _ _ _ "4.prems"(8) depth "4.prems"(10) c] "4.prems"(5-7) by auto
  show ?case
  proof (cases "call_bails c")
    case True
    then show ?thesis using st1 c "4.prems"(11) mode_le by auto
  next
    case False
    obtain k' i' es' where cs: "ref_body (ho_clock H) k (int l) cs = (k', i', es')"
      by (cases "ref_body (ho_clock H) k (int l) cs")
    have "\<exists>st' gs. run_body H cs st1 = Some (list_ex call_bails cs, st') \<and> emits st1 gs st' \<and> list_all (frame_narrow w) gs \<and>
        map frame_event gs = es' \<and> mode b st' \<and> clocked st' d p (int l) k' (t[Suc l := t ! Suc l + i,
          Suc l := t[Suc l := t ! Suc l + i] ! Suc l + i'])"
      using "4.IH"(2) [OF st1(1) refl False "4.prems"(1,2) st1(5,6) _ _ _ _ _ _ cs] "4.prems"(5-10) by simp
    then obtain st' gs where "run_body H cs st1 = Some (list_ex call_bails cs, st')" "emits st1 gs st'" "list_all (frame_narrow w) gs"
      "map frame_event gs = es'" "mode b st'" "clocked st' d p (int l) k' (t[Suc l := t ! Suc l + i,
          Suc l := t[Suc l := t ! Suc l + i] ! Suc l + i'])" by auto
    then show ?thesis
      using st1 c cs False "4.prems"(9,11) emits_append [OF st1(2)] by (intro exI [of _ st'] exI [of _ "fs @ gs"]) (auto simp: add.assoc)
  qed
qed

lemma reported:
  assumes "host_ok H" and "ext_inv st" and "mode (call_count c) st" and "no_filter (g_pft st)" and "call_ok H c"
    and "call_flags flag_ok c" and "g_level st = int l" and "g_exc_time_table st = Some t" and "clean (Suc l) t"
    and "l + call_depth c + 1 < length t" and "length t < 2 ^ 62" and "call_args w c"
  shows "\<exists>st' fs. run_call H c st = Some (call_bails c, st') \<and> emits st fs st' \<and> list_all (frame_narrow w) fs \<and>
    map frame_event fs = snd (snd (ref_call (ho_clock H) (w_ticks st) (int l) c)) \<and> mode 0 st' \<and> ext_inv st'"
proof -
  obtain m inc evs where r: "ref_call (ho_clock H) (w_ticks st) (int l) c = (m, inc, evs)"
    by (cases "ref_call (ho_clock H) (w_ticks st) (int l) c")
  have "clocked st (g_dotrace st) (g_pft st) (int l) (w_ticks st) t" using assms by (simp add: clocked_def)
  from run_reported(1) [OF assms(1,4) _ this assms(5,6,12,9-11) r, of 0] r assms(3) show ?thesis
    by (auto simp: clocked_def)
qed

text \<open>A call that makes no calls, while a time is left over at the level below it.\<close>

lemma leaf_reported:
  assumes "host_ok H" and "filter_frame ex st = Some d" and "mode (Suc b) st" and "clocked st d p (int l) n t"
    and "status_fits H (Some ex)" and "zval_ok rv" and "zval_ok ev" and "ex_num_args ex \<le> w" and "Suc (Suc l) < length t" and "length t < 2 ^ 62"
  defines "inc \<equiv> word_of_int (ho_clock H (Suc n)) - word_of_int (ho_clock H n)"
  shows "\<exists>st' fs. run_call H (Call internal ex retp [] False rv ev) st = Some (False, st') \<and> emits st fs st' \<and>
    list_all (frame_narrow w) fs \<and> map frame_event fs = [(PT_FRAME_ENTRY, word_of_int (int l + 1), 0, 0),
      (PT_FRAME_EXIT, word_of_int (int l + 1), inc, inc - t ! Suc (Suc l))] \<and>
    mode b st' \<and> clocked st' d p (int l) (Suc (Suc n)) (t[Suc l := t ! Suc l + inc, Suc (Suc l) := 0])"
proof -
  have "\<exists>st2 fs. run_body H [] st1 = Some (False, st2) \<and> emits st1 fs st2 \<and> list_all (frame_narrow w) fs \<and> map frame_event fs = [] \<and>
      mode b st2 \<and> clocked st2 d p (int (Suc l)) (Suc n) (t[Suc (Suc l) := t ! Suc (Suc l)])"
    if "mode b st1" "clocked st1 d p (int (Suc l)) (Suc n) t" for st1
    using that emits_self [OF that(1)] by (intro exI [of _ st1] exI [of _ "[]"]) simp
  from call_traced [OF assms(1-10) this, of internal retp False, unfolded append_Nil simp_thms list_update_id]
  show ?thesis unfolding inc_def by fast
qed

end

section \<open>Reporting to the output\<close>

text \<open>
  Tracing to the output of a process that no tool has asked for: no connection, and the flag is clear.
\<close>

definition quiet :: "ext_state \<Rightarrow> bool" where
  "quiet st \<longleftrightarrow> CTRL_IS_ACTIVE st = Some False \<and> g_sock_fd st = -1 \<and> g_dotrace st AND TRACE_TO_TOOL = 0 \<and>
     g_dotrace st AND TRACE_TO_OUTPUT \<noteq> 0"

definition shows_frames :: "ext_state \<Rightarrow> pt_frame_t list \<Rightarrow> ext_state \<Rightarrow> bool" where
  "shows_frames st fs st' \<longleftrightarrow> w_shown st' = w_shown st @ map (\<lambda>f. Show_Frame (frame_mark f) f) fs"

lemma quiet_fields [simp]:
  "quiet (st\<lparr>w_shown := x1\<rparr>) = quiet st" "quiet (st\<lparr>w_ticks := x2\<rparr>) = quiet st"
  "quiet (st\<lparr>w_errors := x3\<rparr>) = quiet st" "quiet (st\<lparr>g_level := x4\<rparr>) = quiet st"
  "quiet (st\<lparr>g_exc_time_table := x5\<rparr>) = quiet st"
  by (simp_all add: quiet_def CTRL_IS_ACTIVE_def)

lemma silentE:
  assumes "silent st st'"
  obtains l n t es where "st' = st\<lparr>g_level := l, w_ticks := n, g_exc_time_table := t, w_errors := es\<rparr>"
  using assms unfolding silent_def by blast

lemma set_flag_eq: "set_flag x st = Some st' \<Longrightarrow> \<exists>fs. st' = st\<lparr>w_files := fs\<rparr>"
  by (auto simp: set_flag_def bind_eq_Some_conv)

lemma set_flag_value: "ext_inv st \<Longrightarrow> set_flag x st = Some st' \<Longrightarrow> CTRL_IS_ACTIVE st' = Some x"
  using set_flag_inv [of st x] by auto

interpretation to_output: frame_sink "\<lambda>b. quiet" shows_frames Not
proof
  fix b st st' assume "quiet st" "silent st st'"
  then show "quiet st' \<and> shows_frames st [] st'" by (auto elim!: silentE simp: shows_frames_def)
next
  fix H st b cur st' assume "quiet st" "exec_check H cur st = Some st'"
  then show "quiet st' \<and> shows_frames st [] st' \<and> kept st st'"
    by (auto simp: exec_check_def quiet_def shows_frames_def kept_def)
next
  fix H st b f st' assume "quiet st" "send_frame_if H (g_dotrace st) f st = Some st'"
  then show "quiet (show_frame_if (g_dotrace st) (frame_mark f) f st') \<and>
      shows_frames st [f] (show_frame_if (g_dotrace st) (frame_mark f) f st') \<and> kept st st'"
    by (auto simp: send_frame_if_def show_frame_if_def quiet_def shows_frames_def kept_def CTRL_IS_ACTIVE_def)
next
  fix st b x st' assume a: "ext_inv st" "quiet st" "\<not> x" "set_flag x st = Some st'"
  then show "quiet st' \<and> shows_frames st [] st'"
    using set_flag_value [OF a(1,4)] set_flag_eq [OF a(4)] by (auto simp: quiet_def shows_frames_def)
qed (auto simp: quiet_def shows_frames_def)

section \<open>Reporting to the tool\<close>

text \<open>
  Tracing to a tool that has asked for the process, stays connected and says nothing more: the flag is
  set and the next \<open>b\<close> attempts to read from the socket find nothing.
\<close>

definition watched :: "nat \<Rightarrow> ext_state \<Rightarrow> bool" where
  "watched b st \<longleftrightarrow> CTRL_IS_ACTIVE st = Some True \<and> g_sock_fd st \<noteq> -1 \<and> to_tool st \<and>
     (\<exists>k rest. nt_fds (w_net st) (g_sock_fd st) = Some k \<and> sk_fails k = [] \<and> sk_in k = replicate b Idle @ rest)"

abbreviation frame_wire_msg :: "int \<Rightarrow> pt_frame_t \<Rightarrow> bytes" where
  "frame_wire_msg pid f \<equiv> enc_msg PT_MSG_FRAME (word_of_int pid) (enc_frame f)"

definition sock_written :: "ext_state \<Rightarrow> bytes option" where
  "sock_written st = map_option sk_out (nt_fds (w_net st) (g_sock_fd st))"

definition sends_frames :: "ext_state \<Rightarrow> pt_frame_t list \<Rightarrow> ext_state \<Rightarrow> bool" where
  "sends_frames st fs st' \<longleftrightarrow> g_sock_fd st' = g_sock_fd st \<and> g_pid st' = g_pid st \<and>
     sock_written st' = map_option (\<lambda>out. out @ concat (map (frame_wire_msg (g_pid st)) fs)) (sock_written st)"

lemma watched_check:
  assumes "host_ok H" and "ext_inv st" and "watched (Suc b) st" and "exec_check H cur st = Some st'"
  shows "watched b st' \<and> sends_frames st [] st' \<and> kept st st'"
proof -
  have w: "CTRL_IS_ACTIVE st = Some True" "g_sock_fd st \<noteq> -1" "to_tool st" using assms(3) by (auto simp: watched_def)
  obtain k rest where k: "nt_fds (w_net st) (g_sock_fd st) = Some k" "sk_fails k = []" "sk_in k = Idle # replicate b Idle @ rest"
    using assms(3) by (auto simp: watched_def)
  have buf: "buf_ok (w_buf st)" using assms(2) by (simp add: ext_inv_def ext_ok_def)
  let ?es = "replicate b Idle @ rest"
  obtain buf where "ext_recv H st = Some (PT_MSG_EMPTY, after_cmds st k (g_dotrace st, g_pft st) ?es [] buf)"
    using ext_recv_nothing [OF assms(1) buf k(1), of "Idle # ?es" PT_MSG_EMPTY ?es] k(3) by auto
  then have "st' = after_cmds st k (g_dotrace st, g_pft st) ?es [] buf"
    using assms(4) w by (simp add: exec_check_def handle_command_def handle_loop.simps [of H cur st] cmd_codes)
  with w k show ?thesis
    by (auto simp: watched_def sends_frames_def sock_written_def kept_def after_cmds_def to_tool_def CTRL_IS_ACTIVE_def)
qed

lemma watched_emit:
  assumes "host_ok H" and "ext_inv st" and "watched b st" and "frame_small f" and "send_frame_if H (g_dotrace st) f st = Some st'"
  shows "watched b st' \<and> sends_frames st [f] st' \<and> kept st st'"
proof -
  obtain k where k: "nt_fds (w_net st) (g_sock_fd st) = Some k" "sk_fails k = []" using assms(3) by (auto simp: watched_def)
  have buf: "buf_ok (w_buf st)" using assms(2) by (simp add: ext_inv_def ext_ok_def)
  have f: "frame_ok f" using assms(4) by (rule frame_small_ok)
  from msg_send_delivers [OF assms(1) buf frame_len_enc [OF f] frame_pack_enc [OF f] length_enc_frame_small [OF assms(4)] k, of PT_MSG_FRAME]
  obtain b' where "frame_send H f st = Some (0, st\<lparr>w_buf := b', w_net := w_net st\<lparr>nt_fds := (nt_fds (w_net st))(g_sock_fd st \<mapsto>
      k\<lparr>sk_out := sk_out k @ frame_wire_msg (g_pid st) f\<rparr>)\<rparr>\<rparr>)" by (auto simp: frame_send_def)
  then have "st' = st\<lparr>w_buf := b', w_net := w_net st\<lparr>nt_fds := (nt_fds (w_net st))(g_sock_fd st \<mapsto>
      k\<lparr>sk_out := sk_out k @ frame_wire_msg (g_pid st) f\<rparr>)\<rparr>\<rparr>"
    using assms(3,5) by (simp add: send_frame_if_def watched_def to_tool_def)
  with assms(3) k show ?thesis
    by (auto simp: watched_def sends_frames_def sock_written_def kept_def to_tool_def CTRL_IS_ACTIVE_def)
qed

lemma watched_shown [simp]: "watched b (show_frame_if d m f st) = watched b st"
  "sends_frames st0 fs (show_frame_if d m f st) = sends_frames st0 fs st"
  by (simp_all add: show_frame_if_def watched_def sends_frames_def sock_written_def to_tool_def CTRL_IS_ACTIVE_def)

interpretation to_peer: frame_sink watched sends_frames "\<lambda>x. x"
proof
  fix b st assume "watched (Suc b) st"
  moreover have "replicate (Suc b) Idle @ rest = replicate b Idle @ Idle # rest" for rest by (simp add: replicate_app_Cons_same)
  ultimately show "watched b st" unfolding watched_def by metis
next
  fix st fs st1 gs st2 assume "sends_frames st fs st1" "sends_frames st1 gs st2"
  then show "sends_frames st (fs @ gs) st2" by (auto simp: sends_frames_def option.map_comp comp_def)
next
  fix b st st' assume "watched b st" "silent st st'"
  then show "watched b st' \<and> sends_frames st [] st'"
    by (auto elim!: silentE simp: watched_def sends_frames_def sock_written_def to_tool_def CTRL_IS_ACTIVE_def)
next
  fix st b x st' assume a: "ext_inv st" "watched b st" "x" "set_flag x st = Some st'"
  then show "watched b st' \<and> sends_frames st [] st'"
    using set_flag_value [OF a(1,4)] set_flag_eq [OF a(4)] by (auto simp: watched_def sends_frames_def sock_written_def to_tool_def)
next
  fix H st b f st'
  assume "host_ok H" "ext_inv st" "watched b st" "frame_small f" "send_frame_if H (g_dotrace st) f st = Some st'"
  from watched_emit [OF this] show "watched b (show_frame_if (g_dotrace st) (frame_mark f) f st') \<and>
      sends_frames st [f] (show_frame_if (g_dotrace st) (frame_mark f) f st') \<and> kept st st'" by simp
next
  fix b st assume "watched b st"
  then show "g_dotrace st \<noteq> 0" by (auto simp: watched_def to_tool_def)
qed (rule watched_check)

section \<open>Properties of times\<close>

lemma quiet_ext_quiet [simp]: "quiet quiet_ext"
  by (simp add: quiet_def quiet_ext_def CTRL_IS_ACTIVE_def sample_ext_def pt_ctrl_is_active_def pt_ctrl_pid_def
      seg_read_def ftruncate_def empty_file_def PT_CTRL_SIZE_def PT_PID_MAX_def TRACE_TO_TOOL_def TRACE_TO_OUTPUT_def)

text \<open>
  C6: The times are right. While a program is traced to the output, no tool asking for the process, with
  no filter on frames and less
  than 4096 levels deep, the frames that are shown are exactly those of the reference walk: an entry
  and an exit frame for every call, properly nested, at its level, the inclusive time being the
  difference of the two clock readings and the exclusive time being that less the inclusive times of
  the calls it made. This holds for every clock, and for calls that end with a bailout.
\<close>

theorem exclusive_times:
  assumes "host_ok H" and "ext_inv st" and "quiet st" and "no_filter (g_pft st)" and "call_ok H c" and "call_alone c"
    and "g_level st = int l" and "g_exc_time_table st = Some t" and "clean (Suc l) t"
    and "l + call_depth c + 1 < length t" and "length t < 2 ^ 62"
  shows "\<exists>st' fs. run_call H c st = Some (call_bails c, st') \<and>
    w_shown st' = w_shown st @ map (\<lambda>f. Show_Frame (frame_mark f) f) fs \<and>
    map frame_event fs = snd (snd (ref_call (ho_clock H) (w_ticks st) (int l) c))"
  using to_output.reported [OF assms call_ok_args [OF assms(5)]] by (auto simp: shows_frames_def)

theorem exclusive_times_witness:
  "\<exists>st' fs. run_call sample_host sample_prog quiet_ext = Some (True, st') \<and>
    w_shown st' = map (\<lambda>f. Show_Frame (frame_mark f) f) fs \<and>
    map frame_event fs = [(PT_FRAME_ENTRY, 1, 0, 0), (PT_FRAME_ENTRY, 2, 0, 0), (PT_FRAME_EXIT, 2, 10, 10),
      (PT_FRAME_EXIT, 1, 30, 20)]"
proof -
  have "no_filter (g_pft quiet_ext)" by (simp add: no_filter_def filter_bits)
  moreover have "clean (Suc 0) (replicate 4096 0)" by (simp add: clean_def)
  moreover have "snd (snd (ref_call (ho_clock sample_host) 0 0 sample_prog)) =
      [(PT_FRAME_ENTRY, 1, 0, 0), (PT_FRAME_ENTRY, 2, 0, 0), (PT_FRAME_EXIT, 2, 10, 10), (PT_FRAME_EXIT, 1, 30, 20)]"
    by (simp add: sample_prog_def sample_f_def sample_clock Let_def)
  ultimately show ?thesis
    using exclusive_times [of sample_host quiet_ext sample_prog 0 "replicate 4096 0"] by simp
qed

text \<open>
  C40: Under a filter on names, exclusive times are wrong. A function \<open>g\<close> that does not match calls a
  function \<open>f\<close> that does, and then \<open>f\<close> is called again from where \<open>g\<close> was: the second call of \<open>f\<close>,
  which makes no calls at all, is shown with its own inclusive time less the time of the first call
  of \<open>f\<close>, because only a traced call clears the entry of the level below it. The reference exclusive
  time is \<open>b\<close>; when the first call took longer, the shown time is negative.
\<close>

theorem filtered_exclusive_time:
  assumes H: "host_ok H" and st: "ext_inv st" "quiet st" "g_level st = int l" "g_exc_time_table st = Some t" "clean (Suc l) t"
    and t: "Suc (Suc (Suc l)) < length t" "length t < 2 ^ 62"
    and filter: "filter_frame g st = Some 0" "filter_frame f st = Some (g_dotrace st)"
    and ok: "status_fits H (Some g)" "status_fits H (Some f)" "zval_ok rv" "zval_ok ev"
  defines "call_f \<equiv> Call False f False [] False rv ev"
  defines "a \<equiv> word_of_int (ho_clock H (w_ticks st + 1)) - word_of_int (ho_clock H (w_ticks st))"
  defines "b \<equiv> word_of_int (ho_clock H (w_ticks st + 3)) - word_of_int (ho_clock H (w_ticks st + 2))"
  shows "\<exists>st' fs. run_body H [Call False g False [call_f] False rv' ev', call_f] st = Some (False, st') \<and>
    w_shown st' = w_shown st @ map (\<lambda>f. Show_Frame (frame_mark f) f) fs \<and>
    map frame_event fs = [(PT_FRAME_ENTRY, word_of_int (int l + 2), 0, 0), (PT_FRAME_EXIT, word_of_int (int l + 2), a, a),
      (PT_FRAME_ENTRY, word_of_int (int l + 1), 0, 0), (PT_FRAME_EXIT, word_of_int (int l + 1), b, b - a)]"
proof -
  let ?d = "g_dotrace st" and ?p = "g_pft st" and ?n = "w_ticks st"
  let ?first = "[(PT_FRAME_ENTRY, word_of_int (int l + 2), 0, 0), (PT_FRAME_EXIT, word_of_int (int l + 2), a, a)]"
  have st0: "clocked st ?d ?p (int l) ?n t" using st by (simp add: clocked_def)
  have ff: "filter_frame f st1 = Some ?d" if "clocked st1 ?d ?p l' n' t'" for st1 l' n' t'
    using filter_frame_cong [of st1 st f] filter(2) that by (simp add: clocked_def)
  have zero: "t ! Suc (Suc l) = 0" "t ! Suc (Suc (Suc l)) = 0" using st(5) t(1) by (auto simp: clean_def)
  have "\<exists>st2 fs. run_body H [call_f] st1 = Some (False, st2) \<and> shows_frames st1 fs st2 \<and> map frame_event fs = ?first \<and> quiet st2 \<and>
      clocked st2 ?d ?p (int (Suc l)) (Suc (Suc ?n)) (t[Suc (Suc l) := a, Suc (Suc (Suc l)) := 0])"
    if q: "quiet st1" "clocked st1 ?d ?p (int (Suc l)) ?n t" for st1
  proof -
    obtain st2 fs where "run_call H call_f st1 = Some (False, st2)" "shows_frames st1 fs st2" "map frame_event fs = ?first" "quiet st2"
      "clocked st2 ?d ?p (int (Suc l)) (Suc (Suc ?n)) (t[Suc (Suc l) := a, Suc (Suc (Suc l)) := 0])"
      using to_output.leaf_reported [OF H ff [OF q(2)] q ok(2-4) status_fits_args [OF ok(2)] t, of False False] zero
      by (simp add: call_f_def a_def add.commute del: run_call.simps) iprover
    then show ?thesis by (intro exI [of _ st2] exI [of _ fs]) simp
  qed
  from to_output.call_untraced [OF H filter(1) st(2) st0 ok(1) this, of False False False rv' ev'] obtain st1 fs1 where
    st1: "run_call H (Call False g False [call_f] False rv' ev') st = Some (False, st1)" "shows_frames st fs1 st1"
    "map frame_event fs1 = ?first" "quiet st1"
    "clocked st1 ?d ?p (int l) (Suc (Suc ?n)) (t[Suc (Suc l) := a, Suc (Suc (Suc l)) := 0])" by auto
  have n: "w_ticks st + 2 = Suc (Suc ?n)" "w_ticks st + 3 = Suc (Suc (Suc ?n))" by simp_all
  from to_output.leaf_reported [OF H ff [OF st1(5)] st1(4,5) ok(2-4) status_fits_args [OF ok(2)], of False False] t obtain st2 fs2 where
    "run_call H call_f st1 = Some (False, st2)" "shows_frames st1 fs2 st2"
    "map frame_event fs2 = [(PT_FRAME_ENTRY, word_of_int (int l + 1), 0, 0), (PT_FRAME_EXIT, word_of_int (int l + 1), b, b - a)]"
    unfolding call_f_def b_def n by auto
  with st1 show ?thesis by (intro exI [of _ st2] exI [of _ "fs1 @ fs2"]) (simp add: shows_frames_def)
qed

theorem filtered_exclusive_time_witness:
  "\<exists>st' fs. run_body sample_host [Call False sample_main False [sample_f] False IS_NULL IS_NULL, sample_f]
      (quiet_ext\<lparr>g_pft := \<lparr>ft_type = PT_FILTER_FUNCTION_NAME, ft_content = Some (mk_sds ''f'')\<rparr>\<rparr>) = Some (False, st') \<and>
    w_shown st' = map (\<lambda>f. Show_Frame (frame_mark f) f) fs \<and>
    map frame_event fs = [(PT_FRAME_ENTRY, 2, 0, 0), (PT_FRAME_EXIT, 2, 10, 10),
      (PT_FRAME_ENTRY, 1, 0, 0), (PT_FRAME_EXIT, 1, 10, 0)]"
proof -
  let ?p = "\<lparr>ft_type = PT_FILTER_FUNCTION_NAME, ft_content = Some (mk_sds ''f'')\<rparr>"
  let ?st = "quiet_ext\<lparr>g_pft := ?p\<rparr>"
  have "ext_inv ?st" using quiet_ext_inv(1)
    by (simp add: ext_inv_def ext_ok_def to_tool_def filter_live_def sds_ok_def url_ready_def PT_FILTER_FUNCTION_NAME_def PT_FILTER_URL_def)
  moreover have "quiet ?st" using quiet_ext_quiet by (simp add: quiet_def CTRL_IS_ACTIVE_def)
  moreover have "filter_frame sample_main ?st = Some 0" "filter_frame sample_call ?st = Some (g_dotrace ?st)"
    by (simp_all add: filter_frame_def obtain_zend_function_def sample_main_def sample_call_def filter_function_def
        filter_class_def content_in_def PT_FILTER_FUNCTION_NAME_def PT_FILTER_CLASS_NAME_def strstr_found_def mk_sds_def)
  moreover have "clean (Suc 0) (replicate 4096 0)" by (simp add: clean_def)
  moreover have "status_fits sample_host (Some sample_call)" "status_fits sample_host (Some sample_main)"
    using sample_prog_ok(1,2) by (simp_all add: sample_f_def sample_prog_def)
  moreover note sample_clock
  ultimately show ?thesis
    using filtered_exclusive_time [of sample_host ?st 0 "replicate 4096 0" sample_main sample_call IS_NULL "IS_LONG 3"
        IS_NULL IS_NULL]
    by (simp add: sample_f_def del: run_body.simps)
qed

end
