(* ===== verification/Ext_Life.thy ===== *)
theory Ext_Life
  imports Ext_Times
begin

unbundle bit_operations_syntax

text \<open>
  The whole life of the extension in a process of PHP (\<open>extension/trace.c\<close>): the module starts,
  serves requests one after the other, and shuts down. The operations are those of \<open>Ext_Exec\<close>; here
  they are composed in the order in which the engine calls them. Between two requests the tool may
  set or clear the flag of the process, as it may between two calls of a program.
\<close>

section \<open>Requests one after the other\<close>

datatype event_in = Request zend_env call | Tool_Flag bool

fun event_bails :: "event_in \<Rightarrow> bool" where
  "event_bails (Request z c) = call_bails c"
| "event_bails (Tool_Flag b) = False"

text \<open>
  The engine with the data of the request calls \<open>RINIT\<close>, runs the script through the executor that is
  in place, and calls \<open>RSHUTDOWN\<close>, also after a bailout.
\<close>

fun serve :: "host \<Rightarrow> event_in \<Rightarrow> ext_state \<Rightarrow> (bool \<times> ext_state) option" where
  "serve H (Request z c) st = do {
     let H = H\<lparr>ho_zend := z\<rparr>;
     st \<leftarrow> PHP_RINIT H st;
     (b, st) \<leftarrow> (if w_hooked st then run_call H c st else Some (call_bails c, st));
     st \<leftarrow> PHP_RSHUTDOWN H st;
     Some (b, st)
   }"
| "serve H (Tool_Flag b) st =
     (if g_enable st then do {
        fs \<leftarrow> ctrl_put (g_ctrl st) b (ho_getpid H) (w_files st);
        Some (False, st\<lparr>w_files := fs\<rparr>)
      }
      else Some (False, st))"

text \<open>Steps that each return a result, one after the other.\<close>

fun in_turn :: "('e \<Rightarrow> 's \<Rightarrow> ('a \<times> 's) option) \<Rightarrow> 'e list \<Rightarrow> 's \<Rightarrow> ('a list \<times> 's) option" where
  "in_turn step [] s = Some ([], s)"
| "in_turn step (e # es) s = do {
     (a, s) \<leftarrow> step e s;
     (as, s) \<leftarrow> in_turn step es s;
     Some (a # as, s)
   }"

text \<open>A module that could not start is not used; \<open>None\<close> says so.\<close>

definition module_life :: "host \<Rightarrow> ini \<Rightarrow> event_in list \<Rightarrow> ext_state \<Rightarrow> (bool list option \<times> ext_state) option" where
  "module_life H I es st = do {
     (ok, st) \<leftarrow> PHP_MINIT H I st;
     if ok then do { (bs, st) \<leftarrow> in_turn (serve H) es st; Some (Some bs, PHP_MSHUTDOWN H st) }
     else Some (None, st)
   }"

section \<open>Steps that always return\<close>

text \<open>The contract of one step, and what it gives for any number of them.\<close>

locale total_steps =
  fixes inv :: "'s \<Rightarrow> bool" and ok :: "'e \<Rightarrow> bool" and result :: "'e \<Rightarrow> 'a"
    and step :: "'e \<Rightarrow> 's \<Rightarrow> ('a \<times> 's) option"
  assumes step_total: "inv s \<Longrightarrow> ok e \<Longrightarrow> \<exists>s'. step e s = Some (result e, s') \<and> inv s'"
begin

lemma in_turn_total: "inv s \<Longrightarrow> list_all ok es \<Longrightarrow> \<exists>s'. in_turn step es s = Some (map result es, s') \<and> inv s'"
proof (induction es arbitrary: s)
  case (Cons e es)
  obtain s1 where "step e s = Some (result e, s1)" "inv s1" using step_total [of s e] Cons.prems by auto
  with Cons.IH [of s1] Cons.prems show ?case by auto
qed simp

end

section \<open>The ends of a request\<close>

lemma request_process_inv:
  assumes "host_ok H" and "ext_inv st"
  shows "\<exists>st'. request_process H type mark st = Some st' \<and> ext_inv st' \<and> same_exec st st'"
proof -
  let ?r = "request_build (ho_zend H) type"
  have r: "request_ok ?r" "length (enc_request ?r) < 2 ^ 31"
    using assms(1) request_build_ok [of "ho_zend H" type] length_enc_request [of "ho_zend H" type] by (auto simp: host_ok_def)
  have inv: "ext_inv (st\<lparr>g_request := ?r\<rparr>)" using assms(2) by simp
  from msg_send_inv [OF assms(1) inv request_len_enc [OF r(1)] request_pack_enc [OF r(1)] r(2), of PT_MSG_REQ]
  obtain rc st1 where "request_send H ?r (st\<lparr>g_request := ?r\<rparr>) = Some (rc, st1)" "ext_inv st1"
    "same_exec (st\<lparr>g_request := ?r\<rparr>) st1" by (auto simp: request_send_def)
  with inv show ?thesis using assms(2) by (auto simp: request_process_def same_exec_def Let_def)
qed

lemma request_delivered:
  assumes "host_ok H" and "buf_ok (w_buf st)" and "to_tool st" and "nt_fds (w_net st) (g_sock_fd st) = Some k" and "sk_fails k = []"
  shows "\<exists>st'. request_process H type mark st = Some st' \<and> to_tool st' \<and> nt_fds (w_net st') (g_sock_fd st) =
    Some (k\<lparr>sk_out := sk_out k @ enc_msg PT_MSG_REQ (word_of_int (g_pid st)) (enc_request (request_build (ho_zend H) type))\<rparr>)"
proof -
  let ?r = "request_build (ho_zend H) type"
  have r: "request_ok ?r" "length (enc_request ?r) < 2 ^ 31"
    using assms(1) request_build_ok [of "ho_zend H"] length_enc_request [of "ho_zend H" type] by (auto simp: host_ok_def)
  from msg_send_delivers [OF assms(1) _ request_len_enc [OF r(1)] request_pack_enc [OF r(1)] r(2), of "st\<lparr>g_request := ?r\<rparr>" k PT_MSG_REQ]
  obtain buf where "request_send H ?r (st\<lparr>g_request := ?r\<rparr>) = Some (0, st\<lparr>g_request := ?r, w_buf := buf,
      w_net := w_net st\<lparr>nt_fds := (nt_fds (w_net st))(g_sock_fd st \<mapsto>
        k\<lparr>sk_out := sk_out k @ enc_msg PT_MSG_REQ (word_of_int (g_pid st)) (enc_request ?r)\<rparr>)\<rparr>\<rparr>)"
    using assms(2,4,5) by (auto simp: request_send_def)
  with assms(3) show ?thesis by (auto simp: request_process_def to_tool_def Let_def)
qed

lemma filter_url_inv:
  assumes "ext_inv st" and "ze_request_uri (ho_zend H) \<noteq> None"
  shows "\<exists>st'. filter_url H st = Some st' \<and> ext_inv st' \<and> same_exec st st'"
proof (cases "ft_type (g_pft st) AND PT_FILTER_URL = 0")
  case True
  with assms show ?thesis by (simp add: filter_url_def)
next
  case False
  with assms obtain uri c where c: "ze_request_uri (ho_zend H) = Some uri" "ft_content (g_pft st) = Some c" "g_sock_fd st \<noteq> -1"
    by (auto simp: ext_inv_def filter_live_def url_ready_def)
  have "ext_inv (st\<lparr>g_dotrace := d\<rparr>)" for d
    using assms(1) c(3) by (auto simp: ext_inv_def ext_ok_def to_tool_def)
  with False c show ?thesis by (simp add: filter_url_def content_in_def same_exec_def)
qed

lemma RINIT_inv:
  assumes H: "host_ok H" "pid_ok (ho_getpid H)" "ze_request_uri (ho_zend H) \<noteq> None" and st: "ext_inv st"
  shows "\<exists>st'. PHP_RINIT H st = Some st' \<and> ext_inv st' \<and> g_level st' = 0"
proof -
  let ?st = "st\<lparr>g_pid := (if g_pid st = 0 then ho_getpid H else g_pid st), g_level := 0\<rparr>"
  have inv: "ext_inv ?st" using st H(2) by (auto simp: ext_inv_def ext_ok_def to_tool_def)
  then have "ext_ok ?st" unfolding ext_inv_def by blast
  then obtain b where b: "CTRL_IS_ACTIVE ?st = Some b" using ctrl_readable by blast
  have "status_fits H None" by (simp add: status_fits_def)
  then obtain st1 where st1: "(if b then handle_command H None ?st else Some ?st) = Some st1" "ext_inv st1" "same_exec ?st st1"
    using handle_command_inv [OF H(1) _ inv] inv by (cases b) auto
  obtain st2 where st2: "filter_url H st1 = Some st2" "ext_inv st2" "same_exec st1 st2"
    using filter_url_inv [OF st1(2) H(3)] by blast
  obtain st3 where "request_process H PT_FRAME_ENTRY ''> '' st2 = Some st3" "ext_inv st3" "same_exec st2 st3"
    using request_process_inv [OF H(1) st2(2)] by blast
  with b st st1 st2 show ?thesis by (simp add: PHP_RINIT_def ext_inv_def same_exec_def)
qed

lemma RSHUTDOWN_inv:
  assumes "host_ok H" and "ext_inv st"
  shows "\<exists>st'. PHP_RSHUTDOWN H st = Some st' \<and> ext_inv st' \<and> same_exec st st'"
  using request_process_inv [OF assms] assms(2) by (simp add: PHP_RSHUTDOWN_def ext_inv_def)

text \<open>
  What the engine gives: a request with an address, a program of the shape of \<open>call_ok\<close> and a depth
  that an \<open>int\<close> of 64 bits counts.
\<close>

fun event_ok :: "host \<Rightarrow> event_in \<Rightarrow> bool" where
  "event_ok H (Request z c) \<longleftrightarrow> env_ok z \<and> ze_request_uri z \<noteq> None \<and> call_ok (H\<lparr>ho_zend := z\<rparr>) c \<and>
     int (call_depth c) < 2 ^ 63"
| "event_ok H (Tool_Flag b) \<longleftrightarrow> True"

lemma serve_inv:
  assumes H: "roomy (ho_mem H)" "pid_ok (ho_getpid H)" and st: "ext_inv st" and e: "event_ok H e"
  shows "\<exists>st'. serve H e st = Some (event_bails e, st') \<and> ext_inv st'"
proof (cases e)
  case (Request z c)
  let ?H = "H\<lparr>ho_zend := z\<rparr>"
  have z: "host_ok ?H" "pid_ok (ho_getpid ?H)" "ze_request_uri (ho_zend ?H) \<noteq> None" "call_ok ?H c" "int (call_depth c) < 2 ^ 63"
    using e H Request by (simp_all add: host_ok_def)
  obtain st1 where st1: "PHP_RINIT ?H st = Some st1" "ext_inv st1" "g_level st1 = 0"
    using RINIT_inv [OF z(1-3) st] by blast
  obtain st2 where st2: "run_call ?H c st1 = Some (call_bails c, st2)" "ext_inv st2"
    using run_inv(1) [OF z(1) st1(2) z(4)] st1(3) z(5) by auto
  obtain st3 where "PHP_RSHUTDOWN ?H st2 = Some st3" "ext_inv st3" using RSHUTDOWN_inv [OF z(1) st2(2)] by blast
  with st1 st2 Request show ?thesis by (simp add: ext_inv_def)
next
  case (Tool_Flag b)
  obtain fs where "ctrl_put (g_ctrl st) b (ho_getpid H) (w_files st) = Some fs" "ctrl_ok (g_ctrl st) fs"
    using ctrl_put_spec [OF _ H(2), of "g_ctrl st" "w_files st" b] st by (auto simp: ext_inv_def ext_ok_def)
  with st Tool_Flag show ?thesis by (auto simp: ext_inv_def ext_ok_def to_tool_def url_ready_def)
qed

text \<open>The two kinds of module: one that is switched on, and one that is not and lets everything pass.\<close>

definition switched_off :: "ext_state \<Rightarrow> ext_state \<Rightarrow> bool" where
  "switched_off st0 st \<longleftrightarrow> st = st0 \<and> \<not> g_enable st \<and> \<not> w_hooked st"

lemma serve_off:
  assumes "switched_off st0 st"
  shows "\<exists>st'. serve H e st = Some (event_bails e, st') \<and> switched_off st0 st'"
  using assms by (cases e) (auto simp: switched_off_def PHP_RINIT_def PHP_RSHUTDOWN_def)

text \<open>The contract holds for both.\<close>

interpretation off_steps: total_steps "switched_off st0" "\<lambda>_. True" event_bails "serve H" for st0 H
  by unfold_locales (rule serve_off)

interpretation on_steps: total_steps "\<lambda>st. ext_inv st \<and> roomy (ho_mem H) \<and> pid_ok (ho_getpid H)" "event_ok H"
  event_bails "serve H" for H
  by unfold_locales (use serve_inv in blast)

section \<open>The ends of the module\<close>

text \<open>
  What the module finds in a new process: the executor of the engine in place, no message buffer
  that is broken, and descriptors behind which only tools that keep the protocol are.
\<close>

definition start_ok :: "ext_state \<Rightarrow> bool" where
  "start_ok st \<longleftrightarrow> \<not> w_hooked st \<and> buf_ok (w_buf st) \<and> net_ok (w_net st) \<and> tool_polite_net (w_net st) \<and>
     ft_content (g_pft st) = None"

lemma ctrl_create_rc: "fst (pt_ctrl_create Y fs name) = 0 \<or> fst (pt_ctrl_create Y fs name) = -1"
  by (auto simp: pt_ctrl_create_def pt_mmap_create_def pt_mmap_open_fd_def reset_with_retval_def Let_def split: prod.splits)

definition ctrl_path :: "ini \<Rightarrow> bytes" where
  "ctrl_path I = data_path (ini_data_dir I) PT_CTRL_FILENAME"

lemma init_globals_spec:
  assumes "roomy (ho_mem H)" and "ft_content (g_pft st) = None"
  shows "php_trace_init_globals H st = Some (st\<lparr>g_enable := False, g_dotrace := 0, g_ctrl := \<lparr>seg_size = 0, seg_addr = None\<rparr>,
    g_ctrl_file := [], g_sock_fd := -1, g_sock_addr := [], g_pid := 0, g_level := 0, g_request := zero_request,
    g_exc_time_table := None, g_exc_time_len := 0, g_pft := \<lparr>ft_type = PT_FILTER_EMPTY, ft_content = Some (mk_sds [])\<rparr>\<rparr>)"
  using assms by (simp add: php_trace_init_globals_def pt_filter_ctr_def sdsempty_str Let_def)

lemma MINIT_off:
  assumes "roomy (ho_mem H)" and "start_ok st" and "\<not> ini_enable I"
  shows "\<exists>st'. PHP_MINIT H I st = Some (True, st') \<and> switched_off st' st' \<and> w_net st' = w_net st \<and> w_files st' = w_files st \<and>
    w_shown st' = w_shown st \<and> w_errors st' = w_errors st \<and> g_sock_fd st' = -1 \<and> g_exc_time_table st' = None"
  using assms init_globals_spec [of H st] by (simp add: PHP_MINIT_def start_ok_def switched_off_def Let_def)

lemma MINIT_failed:
  assumes "roomy (ho_mem H)" and "start_ok st" and "ini_enable I"
    and "fst (pt_ctrl_create (ho_sys H) (w_files st) (ctrl_path I)) \<noteq> 0"
  shows "\<exists>st'. PHP_MINIT H I st = Some (False, st') \<and> w_errors st' = w_errors st @ [Ctrl_Open_Failed] \<and> w_net st' = w_net st"
  using assms init_globals_spec [of H st] ctrl_create_rc [of "ho_sys H" "w_files st" "ctrl_path I"]
  by (auto simp: PHP_MINIT_def start_ok_def ctrl_path_def php_error_def Let_def split: prod.splits)

lemma cli_bits: "TRACE_TO_OUTPUT AND TRACE_TO_TOOL = 0" "TRACE_TO_OUTPUT \<noteq> 0"
  by (simp_all add: TRACE_TO_OUTPUT_def TRACE_TO_TOOL_def)

text \<open>A start that succeeds: tracing is off, or goes to the output when the settings ask for it in the cli.\<close>

definition cli_dotrace :: "host \<Rightarrow> ini \<Rightarrow> u64" where
  "cli_dotrace H I = (if ini_dotrace I \<noteq> 0 \<and> take 3 (ze_sapi_name (ho_zend H)) = ''cli'' then TRACE_TO_OUTPUT else 0)"

lemma MINIT_on:
  assumes "roomy (ho_mem H)" and "start_ok st" and "ini_enable I"
    and "pt_ctrl_create (ho_sys H) (w_files st) (ctrl_path I) = (0, seg, fs)"
  shows "\<exists>st'. PHP_MINIT H I st = Some (True, st') \<and> ext_inv st' \<and> g_dotrace st' = cli_dotrace H I \<and> g_sock_fd st' = -1 \<and>
    g_exc_time_table st' = Some (replicate 4096 0) \<and> g_pid st' = 0 \<and> g_ctrl st' = seg \<and> w_files st' = fs \<and>
    ft_type (g_pft st') = PT_FILTER_EMPTY \<and> w_shown st' = w_shown st \<and> w_ticks st' = w_ticks st"
proof -
  let ?st = "st\<lparr>g_enable := True, g_dotrace := cli_dotrace H I, g_ctrl := seg, g_ctrl_file := ctrl_path I, g_sock_fd := -1,
    g_sock_addr := data_path (ini_data_dir I) PT_COMM_FILENAME, g_pid := 0, g_level := 0, g_request := zero_request,
    g_exc_time_table := Some (replicate 4096 0), g_exc_time_len := 4096,
    g_pft := \<lparr>ft_type = PT_FILTER_EMPTY, ft_content = Some (mk_sds [])\<rparr>, w_files := fs, w_hooked := True\<rparr>"
  have "PHP_MINIT H I st = Some (True, ?st)"
    using assms init_globals_spec [of H st]
    by (simp add: PHP_MINIT_def start_ok_def ctrl_path_def cli_dotrace_def roomy_def Let_def)
  moreover have "ctrl_ok seg fs" using ctrl_create_ok(2) [OF assms(4)] .
  then have "ext_inv ?st"
    using assms(2) by (simp add: ext_inv_def ext_ok_def start_ok_def pid_ok_def to_tool_def cli_dotrace_def cli_bits sds_ok_def
        url_ready_def filter_live_def filter_bits)
  ultimately show ?thesis by simp
qed

lemma MSHUTDOWN_spec:
  assumes "ext_inv st"
  shows "\<not> w_hooked (PHP_MSHUTDOWN H st) \<and> g_sock_fd (PHP_MSHUTDOWN H st) = -1 \<and>
    (g_sock_fd st \<noteq> -1 \<longrightarrow> nt_fds (w_net (PHP_MSHUTDOWN H st)) (g_sock_fd st) = None) \<and>
    g_exc_time_table (PHP_MSHUTDOWN H st) = None \<and> g_pft (PHP_MSHUTDOWN H st) = pt_filter_dtr (g_pft st) \<and>
    w_shown (PHP_MSHUTDOWN H st) = w_shown st"
  using assms by (auto simp: PHP_MSHUTDOWN_def ext_inv_def pt_comm_close_def fd_close_def Let_def)

section \<open>A script of the command line\<close>

text \<open>No tool asks for the process: the request is shown at both ends, nothing else changes.\<close>

lemma quiet_request:
  assumes "quiet st"
  shows "request_process H type mark st = Some (st\<lparr>g_request := request_build (ho_zend H) type,
    w_shown := w_shown st @ [Show_Request mark (request_build (ho_zend H) type)]\<rparr>)"
  using assms by (auto simp: request_process_def quiet_def Let_def)

lemma quiet_RINIT:
  assumes "g_enable st" and "quiet (st\<lparr>g_pid := ho_getpid H, g_level := 0\<rparr>)" and "g_pid st = 0" and "ft_type (g_pft st) = PT_FILTER_EMPTY"
  shows "PHP_RINIT H st = Some (st\<lparr>g_pid := ho_getpid H, g_level := 0, g_request := request_build (ho_zend H) PT_FRAME_ENTRY,
    w_shown := w_shown st @ [Show_Request ''> '' (request_build (ho_zend H) PT_FRAME_ENTRY)]\<rparr>)"
proof -
  have "CTRL_IS_ACTIVE (st\<lparr>g_pid := ho_getpid H, g_level := 0\<rparr>) = Some False" using assms(2) by (simp add: quiet_def)
  then show ?thesis
    using assms quiet_request [OF assms(2), of H PT_FRAME_ENTRY "''> ''"] by (simp add: PHP_RINIT_def filter_url_def filter_bits)
qed

lemma quiet_RSHUTDOWN:
  assumes "g_enable st" and "quiet st"
  shows "PHP_RSHUTDOWN H st = Some (st\<lparr>g_request := request_build (ho_zend H) PT_FRAME_EXIT,
    w_shown := w_shown st @ [Show_Request ''< '' (request_build (ho_zend H) PT_FRAME_EXIT)]\<rparr>)"
  using assms quiet_request [OF assms(2)] by (simp add: PHP_RSHUTDOWN_def)

lemma quiet_serve:
  assumes H: "host_ok H" "pid_ok (ho_getpid H)" and st: "ext_inv st" "g_pid st = 0" "ft_type (g_pft st) = PT_FILTER_EMPTY"
    "quiet (st\<lparr>g_pid := ho_getpid H\<rparr>)" "g_exc_time_table st = Some (replicate 4096 0)"
    and c: "call_ok H c" "call_alone c" "call_depth c < 4095"
  shows "\<exists>st' fs. serve H (Request (ho_zend H) c) st = Some (call_bails c, st') \<and> ext_inv st' \<and>
    w_shown st' = w_shown st @ Show_Request ''> '' (request_build (ho_zend H) PT_FRAME_ENTRY) #
      map (\<lambda>f. Show_Frame (frame_mark f) f) fs @ [Show_Request ''< '' (request_build (ho_zend H) PT_FRAME_EXIT)] \<and>
    map frame_event fs = snd (snd (ref_call (ho_clock H) (w_ticks st) 0 c))"
proof -
  let ?z = "ho_zend H"
  let ?st = "st\<lparr>g_pid := ho_getpid H, g_level := 0, g_request := request_build ?z PT_FRAME_ENTRY,
    w_shown := w_shown st @ [Show_Request ''> '' (request_build ?z PT_FRAME_ENTRY)]\<rparr>"
  have on: "g_enable st" "w_hooked st" using st(1) by (simp_all add: ext_inv_def)
  have quiet: "quiet (st\<lparr>g_pid := ho_getpid H, g_level := 0\<rparr>)" using st(4) by simp
  note init = quiet_RINIT [OF on(1) quiet st(2,3)]
  have inv: "ext_inv ?st" using st(1) H(2) by (auto simp: ext_inv_def ext_ok_def to_tool_def)
  have "quiet ?st" using st(4) by (simp add: quiet_def CTRL_IS_ACTIVE_def)
  moreover have "no_filter (g_pft ?st)" using st(3) by (simp add: no_filter_def filter_bits)
  moreover have "clean (Suc 0) (replicate 4096 0)" by (simp add: clean_def)
  ultimately obtain st1 fs where
    st1: "run_call H c ?st = Some (call_bails c, st1)" "shows_frames ?st fs st1"
    "map frame_event fs = snd (snd (ref_call (ho_clock H) (w_ticks ?st) (int 0) c))" "ext_inv st1" "quiet st1"
    using to_output.reported [OF H(1) inv _ _ c(1,2) _ _ _ _ _ call_ok_args [OF c(1)], of 0 "replicate 4096 0"] st(5) c(3) by auto
  have "g_enable st1" using st1(4) by (simp add: ext_inv_def)
  from quiet_RSHUTDOWN [OF this st1(5), of H] init st1 on(2) show ?thesis
    by (intro exI [of _ "st1\<lparr>g_request := _, w_shown := _\<rparr>"] exI [of _ fs]) (simp add: shows_frames_def)
qed

section \<open>Properties of the life of the module\<close>

text \<open>A new process, settings and a web request for the witnesses.\<close>

definition fresh_ext :: ext_state where
  "fresh_ext = (sample_ext dead_sock)\<lparr>w_hooked := False, w_net := empty_net [], w_files := (\<lambda>_. None)\<rparr>"

definition sample_ini :: ini where
  "sample_ini = ini_defaults\<lparr>ini_dotrace := 1\<rparr>"

definition sample_web :: zend_env where
  "sample_web = sample_env\<lparr>ze_sapi_name := ''fpm-fcgi'', ze_request_uri := Some ''/a''\<rparr>"

text \<open>A module with a filter on addresses, the tool connected and silent.\<close>

definition url_ext :: "bytes \<Rightarrow> ext_state" where
  "url_ext s = (sample_ext \<lparr>sk_in = [Idle], sk_out = [], sk_fails = []\<rparr>)\<lparr>
     g_pft := \<lparr>ft_type = PT_FILTER_URL, ft_content = Some (mk_sds s)\<rparr>,
     w_files := [''/tmp/phptrace.ctrl'' \<mapsto> (ftruncate empty_file PT_CTRL_SIZE)\<lparr>fl_byte := (\<lambda>_. PT_CTRL_ACTIVE)\<rparr>]\<rparr>"

lemma url_ext_ok:
  assumes "length s < 2 ^ 31"
  shows "ext_ok (url_ext s)" and "CTRL_IS_ACTIVE (url_ext s) = Some True"
proof -
  let ?f = "(ftruncate empty_file PT_CTRL_SIZE)\<lparr>fl_byte := (\<lambda>_. PT_CTRL_ACTIVE)\<rparr>"
  have "PT_CTRL_SIZE \<le> fl_size ?f" by (simp add: ftruncate_def)
  with sample_ext_ok(2) [of "\<lparr>sk_in = [Idle], sk_out = [], sk_fails = []\<rparr>"] assms show "ext_ok (url_ext s)"
    by (simp add: url_ext_def sample_ext_def ext_ok_def ctrl_ok_def sds_ok_def to_tool_def)
  show "CTRL_IS_ACTIVE (url_ext s) = Some True"
    by (simp add: url_ext_def sample_ext_def CTRL_IS_ACTIVE_def pt_ctrl_is_active_def pt_ctrl_pid_def seg_read_def
        ftruncate_def PT_CTRL_SIZE_def PT_PID_MAX_def PT_CTRL_ACTIVE_def)
qed

lemma fresh_ext_ok [simp]: "start_ok fresh_ext" "w_files fresh_ext = (\<lambda>_. None)" "w_ticks fresh_ext = 0" "w_shown fresh_ext = []"
  by (simp_all add: fresh_ext_def sample_ext_def start_ok_def net_ok_def empty_net_def polite_net_def)

lemma sample_host_fields [simp]: "ho_sys sample_host = sys_ok" "ho_getpid sample_host = 7" "ho_mem sample_host = full_env"
  "ho_zend sample_host = sample_env" "pid_ok 7"
  by (simp_all add: sample_host_def pid_ok_def PT_PID_MAX_def)

lemma sample_web_ok: "event_ok sample_host (Request sample_web sample_watched)"
proof -
  have "env_ok sample_web" by (simp add: sample_web_def env_ok_def sample_env_def name_ok_def opt_ok_def arr_def)
  moreover have m: "ex_ok sample_web sample_main" by (simp add: sample_main_def func_ok_def opt_ok_def name_ok_def)
  moreover have "ex_ok sample_web sample_call" using m by (simp add: sample_call_def func_ok_def opt_ok_def name_ok_def)
  ultimately have "status_fits (sample_host\<lparr>ho_zend := sample_web\<rparr>) (Some sample_call)"
    "status_fits (sample_host\<lparr>ho_zend := sample_web\<rparr>) (Some sample_main)" "env_ok sample_web"
    by (simp_all add: status_fits_def) (simp_all add: sample_call_def sample_main_def)
  then show ?thesis by (simp add: sample_watched_def sample_f_def) (simp add: sample_web_def)
qed



text \<open>
  C5: A script that is run from the command line with \<open>trace.enable\<close> and \<open>trace.dotrace\<close> set, while no tool asks for
  the process, is traced completely: the module shows the request, then for every call of the script
  its entry and exit in the order of the reference walk with the times of that walk, then the request
  again, and nothing else; the script ends as it would without the module.
\<close>

theorem cli_script_shown:
  assumes "host_ok H" and "pid_ok (ho_getpid H)" and "start_ok st" and "ini_enable I" and "ini_dotrace I \<noteq> 0"
    and "take 3 (ze_sapi_name (ho_zend H)) = ''cli''"
    and "pt_ctrl_create (ho_sys H) (w_files st) (ctrl_path I) = (0, seg, fs)"
    and "pt_ctrl_is_active seg (ho_getpid H) fs = Some False"
    and "call_ok H c" and "call_alone c" and "call_depth c < 4095"
  shows "\<exists>st' fs. module_life H I [Request (ho_zend H) c] st = Some (Some [call_bails c], st') \<and>
    w_shown st' = w_shown st @ Show_Request ''> '' (request_build (ho_zend H) PT_FRAME_ENTRY) #
      map (\<lambda>f. Show_Frame (frame_mark f) f) fs @ [Show_Request ''< '' (request_build (ho_zend H) PT_FRAME_EXIT)] \<and>
    map frame_event fs = snd (snd (ref_call (ho_clock H) (w_ticks st) 0 c))"
proof -
  have "roomy (ho_mem H)" using assms(1) by (simp add: host_ok_def)
  from MINIT_on [OF this assms(3,4,7)] obtain st1 where st1: "PHP_MINIT H I st = Some (True, st1)" "ext_inv st1"
    "g_dotrace st1 = TRACE_TO_OUTPUT" "g_sock_fd st1 = -1" "g_exc_time_table st1 = Some (replicate 4096 0)" "g_pid st1 = 0"
    "g_ctrl st1 = seg" "w_files st1 = fs" "ft_type (g_pft st1) = PT_FILTER_EMPTY" "w_shown st1 = w_shown st" "w_ticks st1 = w_ticks st"
    using assms(5,6) by (auto simp: cli_dotrace_def)
  have "quiet (st1\<lparr>g_pid := ho_getpid H\<rparr>)"
    using st1 assms(8) by (simp add: quiet_def CTRL_IS_ACTIVE_def cli_bits)
  from quiet_serve [OF assms(1,2) st1(2,6,9) this st1(5) assms(9-11)] obtain st2 fs where
    "serve H (Request (ho_zend H) c) st1 = Some (call_bails c, st2)" "ext_inv st2"
    "w_shown st2 = w_shown st @ Show_Request ''> '' (request_build (ho_zend H) PT_FRAME_ENTRY) #
      map (\<lambda>f. Show_Frame (frame_mark f) f) fs @ [Show_Request ''< '' (request_build (ho_zend H) PT_FRAME_EXIT)]"
    "map frame_event fs = snd (snd (ref_call (ho_clock H) (w_ticks st) 0 c))"
    unfolding st1(10,11) by blast
  with st1(1) MSHUTDOWN_spec [of st2 H] show ?thesis
    by (intro exI [of _ "PHP_MSHUTDOWN H st2"] exI [of _ fs]) (simp add: module_life_def del: serve.simps)
qed

theorem cli_script_shown_witness:
  "\<exists>st' fs. module_life sample_host sample_ini [Request sample_env sample_prog] fresh_ext = Some (Some [True], st') \<and>
    w_shown st' = Show_Request ''> '' (request_build sample_env PT_FRAME_ENTRY) #
      map (\<lambda>f. Show_Frame (frame_mark f) f) fs @ [Show_Request ''< '' (request_build sample_env PT_FRAME_EXIT)] \<and>
    map frame_event fs = [(PT_FRAME_ENTRY, 1, 0, 0), (PT_FRAME_ENTRY, 2, 0, 0), (PT_FRAME_EXIT, 2, 10, 10),
      (PT_FRAME_EXIT, 1, 30, 20)]"
proof -
  have "pt_ctrl_is_active \<lparr>seg_size = PT_CTRL_SIZE, seg_addr = Some p\<rparr> 7 [p \<mapsto> ftruncate empty_file PT_CTRL_SIZE] = Some False" for p
    by (simp add: pt_ctrl_is_active_def pt_ctrl_pid_def seg_read_def ftruncate_def empty_file_def PT_CTRL_SIZE_def PT_PID_MAX_def)
  moreover have "take 3 (ze_sapi_name sample_env) = ''cli''" by (simp add: sample_env_def)
  moreover have "snd (snd (ref_call (\<lambda>n. 10 * int n) 0 0 sample_prog)) =
      [(PT_FRAME_ENTRY, 1, 0, 0), (PT_FRAME_ENTRY, 2, 0, 0), (PT_FRAME_EXIT, 2, 10, 10), (PT_FRAME_EXIT, 1, 30, 20)]"
    by (simp add: sample_prog_def sample_f_def)
  moreover have "ini_enable sample_ini" "ini_dotrace sample_ini \<noteq> 0" by (simp_all add: sample_ini_def ini_defaults_def)
  ultimately show ?thesis
    using cli_script_shown [of sample_host fresh_ext sample_ini _ _ sample_prog] by (simp add: ctrl_create_sys_ok sample_clock del: ref_call.simps)
qed

text \<open>
  C15: A filter on addresses decides at the start of every request whether it is traced. While the tool
  is connected and silent, a request is traced to the tool exactly when its address contains the
  content of the filter, whatever was decided for the request before; then the tool gets the request,
  and for any other request it gets nothing.
\<close>

theorem url_filter_decides:
  assumes "host_ok H" and "ext_ok st" and "g_enable st" and "g_pid st \<noteq> 0" and "CTRL_IS_ACTIVE st = Some True"
    and "nt_fds (w_net st) (g_sock_fd st) = Some k" and "sk_in k = Idle # rest" and "sk_fails k = []"
    and "ft_type (g_pft st) AND PT_FILTER_URL \<noteq> 0" and "ft_content (g_pft st) = Some c" and "ze_request_uri (ho_zend H) = Some uri"
  shows "\<exists>st' k'. PHP_RINIT H st = Some st' \<and> nt_fds (w_net st') (g_sock_fd st) = Some k' \<and>
    to_tool st' = sublist (cstr (sh_buf c)) (cstr uri) \<and>
    sk_out k' = sk_out k @ (if sublist (cstr (sh_buf c)) (cstr uri)
      then enc_msg PT_MSG_REQ (word_of_int (g_pid st)) (enc_request (request_build (ho_zend H) PT_FRAME_ENTRY)) else [])"
proof -
  let ?r = "request_build (ho_zend H) PT_FRAME_ENTRY" and ?found = "sublist (cstr (sh_buf c)) (cstr uri)"
  let ?st = "st\<lparr>g_level := 0\<rparr>" and ?k = "k\<lparr>sk_in := rest, sk_out := sk_out k @ []\<rparr>"
  have sock: "g_sock_fd ?st \<noteq> -1" "nt_fds (w_net ?st) (g_sock_fd ?st) = Some k" "buf_ok (w_buf ?st)"
    using assms(2,6) by (auto simp: ext_ok_def net_ok_def)
  obtain b where b: "buf_ok b" "ext_recv H ?st = Some (PT_MSG_EMPTY, after_cmds ?st k (g_dotrace ?st, g_pft ?st) rest [] b)"
    using ext_recv_nothing [OF assms(1) sock(3,2), of "Idle # rest" PT_MSG_EMPTY rest] assms(7) by auto
  let ?st1 = "after_cmds ?st k (g_dotrace ?st, g_pft ?st) rest [] b"
  have cmd: "handle_command H None ?st = Some ?st1"
    using b(2) sock(1) by (simp add: handle_command_def handle_loop.simps [of H None ?st] cmd_codes)
  let ?d = "if ?found then g_dotrace st OR TRACE_TO_TOOL else g_dotrace st AND NOT TRACE_TO_TOOL"
  let ?st2 = "?st1\<lparr>g_dotrace := ?d\<rparr>"
  have url: "filter_url H ?st1 = Some ?st2"
    using assms(9-11) by (simp add: filter_url_def content_in_def strstr_found_def occurs_in_sublist)
  have eq: "PHP_RINIT H st = request_process H PT_FRAME_ENTRY ''> '' ?st2"
    using assms(3-5) cmd url by (simp add: PHP_RINIT_def CTRL_IS_ACTIVE_def)
  show ?thesis
  proof (cases ?found)
    case True
    then have "to_tool ?st2" using tool_bit_on [of "g_dotrace st"] by (simp add: to_tool_def)
    with request_delivered [OF assms(1) _ this, of ?k PT_FRAME_ENTRY "''> ''"] b(1) assms(8) True show ?thesis
      unfolding eq by (auto simp: after_cmds_def to_tool_def)
  next
    case False
    then have "?d AND TRACE_TO_TOOL = 0" by (simp add: tool_bit_off)
    with False show ?thesis unfolding eq by (auto simp: request_process_def to_tool_def Let_def after_cmds_def)
  qed
qed

theorem url_filter_decides_witness:
  "(\<exists>st' k'. PHP_RINIT (sample_host\<lparr>ho_zend := sample_web\<rparr>) (url_ext ''a'') = Some st' \<and> nt_fds (w_net st') 3 = Some k' \<and> to_tool st' \<and>
     sk_out k' = enc_msg PT_MSG_REQ 7 (enc_request (request_build sample_web PT_FRAME_ENTRY))) \<and>
   (\<exists>st' k'. PHP_RINIT (sample_host\<lparr>ho_zend := sample_web\<rparr>) (url_ext ''b'') = Some st' \<and> nt_fds (w_net st') 3 = Some k' \<and>
     \<not> to_tool st' \<and> sk_out k' = [])"
proof -
  let ?H = "sample_host\<lparr>ho_zend := sample_web\<rparr>"
  have H: "host_ok ?H" "ze_request_uri (ho_zend ?H) = Some ''/a''"
    using sample_web_ok by (simp_all add: host_ok_def) (simp add: sample_web_def)
  have st: "g_enable (url_ext s)" "g_pid (url_ext s) = 7" "ft_type (g_pft (url_ext s)) AND PT_FILTER_URL \<noteq> 0"
    "ft_content (g_pft (url_ext s)) = Some (mk_sds s)" "g_sock_fd (url_ext s) = 3"
    "nt_fds (w_net (url_ext s)) 3 = Some \<lparr>sk_in = [Idle], sk_out = [], sk_fails = []\<rparr>" for s
    by (simp_all add: url_ext_def sample_ext_def PT_FILTER_URL_def)
  have "sublist ''a'' ''/a''" "\<not> sublist ''b'' ''/a''" by (simp_all flip: occurs_in_sublist)
  with url_filter_decides [OF H(1) url_ext_ok(1) st(1) _ url_ext_ok(2), of "''a''" "\<lparr>sk_in = [Idle], sk_out = [], sk_fails = []\<rparr>" "[]" "mk_sds ''a''" "''/a''"]
    url_filter_decides [OF H(1) url_ext_ok(1) st(1) _ url_ext_ok(2), of "''b''" "\<lparr>sk_in = [Idle], sk_out = [], sk_fails = []\<rparr>" "[]" "mk_sds ''b''" "''/a''"]
  show ?thesis using H(2) st by (simp add: mk_sds_def)
qed

end
