(* ===== verification/Trace_Display.thy ===== *)
theory Trace_Display
  imports Ext_Frame
begin

unbundle bit_operations_syntax

text \<open>
  The text that \<open>pt_type_display_frame\<close>, \<open>pt_type_display_request\<close> and \<open>pt_type_display_status\<close>
  (\<open>common/trace_type.c\<close>) print, with the colours of \<open>common/trace_color.h\<close>.

  The result is the text written to the standard output, \<open>None\<close> for an access outside an array. A
  \<open>NULL\<close> printed with \<open>%s\<close> appears as \<open>(null)\<close>, as in the C library of Linux. The text of a
  floating point number with \<open>%.<p>f\<close> is a parameter: \<open>F p n d\<close> is that of \<open>n / d\<close>.
\<close>

section \<open>Colours and formats\<close>

definition ESC :: char where "ESC = CHR 0x1B"

definition PTC_RESET :: bytes where "PTC_RESET = ESC # ''[0m''"
definition PTC_GREEN :: bytes where "PTC_GREEN = ESC # ''[32m''"
definition PTC_YELLOW :: bytes where "PTC_YELLOW = ESC # ''[33m''"
definition PTC_MAGENTA :: bytes where "PTC_MAGENTA = ESC # ''[35m''"
definition PTC_BBLACK :: bytes where "PTC_BBLACK = ESC # ''[1;30m''"

lemmas ptc_codes = PTC_RESET_def PTC_GREEN_def PTC_YELLOW_def PTC_MAGENTA_def PTC_BBLACK_def

text \<open>The answer of \<open>isatty(1)\<close> is asked for once and kept in \<open>output_is_tty\<close>.\<close>

definition has_color :: "int \<Rightarrow> int \<Rightarrow> bool \<times> int" where
  "has_color isatty_1 output_is_tty =
     (let output_is_tty = (if output_is_tty = -1 then isatty_1 else output_is_tty)
      in (output_is_tty = 1, output_is_tty))"

definition paint :: "bool \<Rightarrow> bytes \<Rightarrow> bytes \<Rightarrow> bytes" where
  "paint color code s = (if color then code @ s @ PTC_RESET else s)"

definition fmt_s :: "bytes option \<Rightarrow> bytes" where
  "fmt_s s = (case s of None \<Rightarrow> ''(null)'' | Some s \<Rightarrow> cstr s)"

definition fmt_sds :: "sds \<Rightarrow> bytes" where
  "fmt_sds s = fmt_s (map_option sh_buf s)"

definition fmt_u32_d :: "u32 \<Rightarrow> bytes" where
  "fmt_u32_d n = dec_int (sint n)"

definition pad_right :: "nat \<Rightarrow> bytes \<Rightarrow> bytes" where
  "pad_right w s = s @ replicate (w - length s) CHR '' ''"

definition newline :: bytes where "newline = [CHR 0x0A]"

type_synonym fixed_fmt = "nat \<Rightarrow> int \<Rightarrow> nat \<Rightarrow> bytes"

section \<open>Frames\<close>

text \<open>\<open>printf("%*s", (level - 1) * 4, "")\<close>: a negative width pads on the other side.\<close>

definition indent_text :: "u32 \<Rightarrow> bytes" where
  "indent_text level = replicate (nat \<bar>sint ((level - 1) * 4)\<bar>) CHR '' ''"

text \<open>The name and whether the arguments are in brackets.\<close>

definition frame_title :: "pt_frame_t \<Rightarrow> bytes \<times> bool" where
  "frame_title f =
     (let t = fr_functype f AND PT_FUNC_TYPES in
      if t = PT_FUNC_NORMAL \<or> t AND PT_FUNC_INCLUDES \<noteq> 0 then (fmt_sds (fr_function f), True)
      else if t = PT_FUNC_MEMBER then (fmt_sds (fr_class f) @ ''->'' @ fmt_sds (fr_function f), True)
      else if t = PT_FUNC_STATIC then (fmt_sds (fr_class f) @ ''::'' @ fmt_sds (fr_function f), True)
      else if t = PT_FUNC_EVAL then (fmt_sds (fr_function f), False)
      else (''unknown'', False))"

fun display_args :: "bool \<Rightarrow> nat \<Rightarrow> sds list \<Rightarrow> bytes option" where
  "display_args color 0 xs = Some []"
| "display_args color (Suc n) [] = None"
| "display_args color (Suc n) (x # xs) = do {
     rest \<leftarrow> display_args color n xs;
     Some (paint color PTC_MAGENTA (fmt_sds x) @ (if 0 < n then '', '' else []) @ rest)
   }"

definition pt_type_display_frame :: "bool \<Rightarrow> fixed_fmt \<Rightarrow> bool \<Rightarrow> bytes \<Rightarrow> pt_frame_t \<Rightarrow> bytes option" where
  "pt_type_display_frame color F indent format f = do {
     args \<leftarrow> display_args color (unat (fr_arg_count f)) (arr (fr_args f));
     let (title, has_bracket) = frame_title f;
     Some ((if indent then indent_text (fr_level f) else []) @ format @
       paint color PTC_GREEN title @
       (if has_bracket then ''('' else []) @ args @ (if has_bracket then '')'' else []) @
       (if fr_type f = PT_FRAME_EXIT \<and> fr_retval f \<noteq> None
        then '' = '' @ paint color PTC_MAGENTA (fmt_sds (fr_retval f)) else []) @
       '' called at ['' @ paint color PTC_BBLACK (fmt_sds (fr_filename f) @ '':'' @ fmt_u32_d (fr_lineno f)) @ '']'' @
       (if fr_type f = PT_FRAME_EXIT
        then '' ~ '' @ F 3 (sint (fr_inc_time f)) 1000000 @ ''s '' @ F 3 (sint (fr_exc_time f)) 1000000 @ ''s'' @ newline
        else newline))
   }"

section \<open>Requests\<close>

text \<open>The strings of a request are C strings in the traced process and \<open>sds\<close> in the tool: \<open>mem\<close> gives the memory at one.\<close>

fun display_argv :: "('s \<Rightarrow> bytes) \<Rightarrow> bool \<Rightarrow> bool \<Rightarrow> nat \<Rightarrow> 's option list \<Rightarrow> bytes option" where
  "display_argv mem color first 0 xs = Some []"
| "display_argv mem color first (Suc n) [] = None"
| "display_argv mem color first (Suc n) (x # xs) = do {
     rest \<leftarrow> display_argv mem color False n xs;
     Some (paint (first \<and> color) PTC_GREEN (fmt_s (map_option mem x) @ '' '') @ rest)
   }"

definition pt_type_display_request :: "('s \<Rightarrow> bytes) \<Rightarrow> bool \<Rightarrow> bytes \<Rightarrow> 's pt_request_t \<Rightarrow> bytes option" where
  "pt_type_display_request mem color format r = do {
     args \<leftarrow> (if rq_method r \<noteq> None then Some []
             else display_argv mem color True (nat (sint (rq_argc r))) (arr (rq_argv r)));
     Some (format @ paint color PTC_BBLACK (fmt_s (map_option mem (rq_sapi r)) @ '' '') @
       (if rq_method r \<noteq> None
        then if color
             then PTC_YELLOW @ fmt_s (map_option mem (rq_method r)) @ '' '' @
               PTC_GREEN @ fmt_s (map_option mem (rq_uri r)) @ PTC_RESET
             else fmt_s (map_option mem (rq_method r)) @ '' '' @ fmt_s (map_option mem (rq_uri r))
        else paint color PTC_YELLOW ''php '' @ args) @ newline)
   }"

section \<open>Statuses\<close>

fun status_argv :: "('s \<Rightarrow> bytes) \<Rightarrow> nat \<Rightarrow> nat \<Rightarrow> 's option list \<Rightarrow> bytes option" where
  "status_argv mem i 0 xs = Some []"
| "status_argv mem i (Suc n) [] = None"
| "status_argv mem i (Suc n) (x # xs) = do {
     rest \<leftarrow> status_argv mem (Suc i) n xs;
     Some (''$'' @ pad_right 10 (dec_nat i) @ ''        '' @ fmt_s (map_option mem x) @ newline @ rest)
   }"

fun status_backtrace :: "bool \<Rightarrow> fixed_fmt \<Rightarrow> nat \<Rightarrow> nat \<Rightarrow> pt_frame_t list \<Rightarrow> bytes option" where
  "status_backtrace color F i 0 fs = Some []"
| "status_backtrace color F i (Suc n) [] = None"
| "status_backtrace color F i (Suc n) (f # fs) = do {
     line \<leftarrow> pt_type_display_frame color F False (''#'' @ pad_right 3 (dec_nat i)) f;
     rest \<leftarrow> status_backtrace color F (Suc i) n fs;
     Some (line @ rest)
   }"

definition ruler_status :: bytes where
  "ruler_status = ''------------------------------- Status --------------------------------''"
definition ruler_request :: bytes where
  "ruler_request = ''------------------------------- Request -------------------------------''"
definition ruler_arguments :: bytes where
  "ruler_arguments = ''------------------------------ Arguments ------------------------------''"
definition ruler_backtrace :: bytes where
  "ruler_backtrace = ''------------------------------ Backtrace ------------------------------''"

text \<open>\<open>now\<close> is what \<open>pt_time_usec\<close> returns.\<close>

definition status_head :: "('s \<Rightarrow> bytes) \<Rightarrow> fixed_fmt \<Rightarrow> int \<Rightarrow> 's pt_status_t \<Rightarrow> bytes" where
  "status_head mem F now s =
     (let r = st_request s; elapse = (if rq_time r \<noteq> 0 then now - sint (rq_time r) else 0) in
      ruler_status @ newline @
      ''PHP Version:       '' @ fmt_sds (st_php_version s) @ newline @
      ''SAPI:              '' @ fmt_s (map_option mem (rq_sapi r)) @ newline @
      ''script:            '' @ fmt_s (map_option mem (rq_script r)) @ newline @
      (if elapse \<noteq> 0 then ''elapse:            '' @ F 3 elapse 1000000 @ ''s'' @ newline else []) @
      (if st_mem s \<noteq> 0 \<or> st_mempeak s \<noteq> 0 \<or> st_mem_real s \<noteq> 0 \<or> st_mempeak_real s \<noteq> 0
       then ''memory:            '' @ F 2 (sint (st_mem s)) 1048576 @ ''m'' @ newline @
         ''memory peak:       '' @ F 2 (sint (st_mempeak s)) 1048576 @ ''m'' @ newline @
         ''real-memory:       '' @ F 2 (sint (st_mem_real s)) 1048576 @ ''m'' @ newline @
         ''real-memory peak   '' @ F 2 (sint (st_mempeak_real s)) 1048576 @ ''m'' @ newline
       else []) @
      (if rq_method r \<noteq> None \<or> rq_uri r \<noteq> None
       then ruler_request @ newline @
         (if rq_method r \<noteq> None then ''request method:    '' @ fmt_s (map_option mem (rq_method r)) @ newline else []) @
         (if rq_uri r \<noteq> None then ''request uri:       '' @ fmt_s (map_option mem (rq_uri r)) @ newline else [])
       else []))"

definition pt_type_display_status ::
  "('s \<Rightarrow> bytes) \<Rightarrow> bool \<Rightarrow> fixed_fmt \<Rightarrow> int \<Rightarrow> 's pt_status_t \<Rightarrow> bytes option" where
  "pt_type_display_status mem color F now s = do {
     args \<leftarrow> status_argv mem 0 (nat (sint (rq_argc (st_request s)))) (arr (rq_argv (st_request s)));
     frames \<leftarrow> status_backtrace color F 0 (unat (st_frame_count s)) (arr (st_frames s));
     Some (status_head mem F now s @
       (if rq_argc (st_request s) \<noteq> 0
        then ruler_arguments @ newline @ args else []) @
       (if st_frame_count s \<noteq> 0
        then ruler_backtrace @ newline @ frames else []))
   }"

section \<open>What a terminal shows\<close>

text \<open>A terminal does not show an escape sequence, which ends with the letter \<open>m\<close>.\<close>

fun visible :: "bool \<Rightarrow> bytes \<Rightarrow> bytes" where
  "visible inside [] = []"
| "visible True (c # cs) = visible (c \<noteq> CHR ''m'') cs"
| "visible False (c # cs) = (if c = ESC then visible True cs else c # visible False cs)"

definition esc_free :: "bytes \<Rightarrow> bool" where
  "esc_free s \<longleftrightarrow> ESC \<notin> set s"

text \<open>The text \<open>a\<close> appears as \<open>b\<close>, wherever it stands.\<close>

definition appears :: "bytes \<Rightarrow> bytes \<Rightarrow> bool" where
  "appears a b \<longleftrightarrow> (\<forall>r. visible False (a @ r) = b @ visible False r)"

lemma appears_visible: "appears a b \<Longrightarrow> visible False a = b"
  by (metis appears_def append_Nil2 visible.simps(1))

lemma appears_append: "appears a b \<Longrightarrow> appears a' b' \<Longrightarrow> appears (a @ a') (b @ b')"
  by (simp add: appears_def)

lemma appears_plain: "esc_free s \<Longrightarrow> appears s s"
proof -
  have "esc_free s \<Longrightarrow> visible False (s @ r) = s @ visible False r" for r
    by (induction s) (auto simp: esc_free_def)
  then show "esc_free s \<Longrightarrow> appears s s" by (simp add: appears_def)
qed

lemma appears_Cons: "c \<noteq> ESC \<Longrightarrow> appears a b \<Longrightarrow> appears (c # a) (c # b)"
  by (simp add: appears_def)

lemma appears_code:
  "appears PTC_RESET []" "appears PTC_GREEN []" "appears PTC_YELLOW []" "appears PTC_MAGENTA []" "appears PTC_BBLACK []"
  by (simp_all add: appears_def ptc_codes)

lemma appears_paint:
  assumes "appears code []" and "esc_free s"
  shows "appears (paint color code s) s"
  using appears_append [OF assms(1) appears_append [OF appears_plain [OF assms(2)] appears_code(1)]]
    appears_plain [OF assms(2)] by (simp add: paint_def)

lemma appears_if: "(c \<Longrightarrow> appears a b) \<Longrightarrow> appears (if c then a else []) (if c then b else [])"
  using appears_plain [of "[]"] by (simp add: esc_free_def)

lemma esc_free_simps [simp]:
  "esc_free []" "esc_free (c # s) \<longleftrightarrow> c \<noteq> ESC \<and> esc_free s" "esc_free (a @ b) \<longleftrightarrow> esc_free a \<and> esc_free b"
  by (auto simp: esc_free_def)

lemma esc_free_newline [simp]: "esc_free newline"
  by (simp add: newline_def ESC_def)

lemma esc_free_ruler [simp]:
  "esc_free ruler_status" "esc_free ruler_request" "esc_free ruler_arguments" "esc_free ruler_backtrace"
  by (simp_all add: ruler_status_def ruler_request_def ruler_arguments_def ruler_backtrace_def ESC_def)

lemma esc_free_indent: "esc_free (indent_text l)"
  by (simp add: indent_text_def esc_free_def ESC_def)

text \<open>Strings that hold no escape character themselves.\<close>

definition sds_plain :: "sds \<Rightarrow> bool" where
  "sds_plain s = esc_free (fmt_sds s)"

definition frame_plain :: "pt_frame_t \<Rightarrow> bool" where
  "frame_plain f \<longleftrightarrow> sds_plain (fr_filename f) \<and> sds_plain (fr_class f) \<and> sds_plain (fr_function f) \<and>
     sds_plain (fr_retval f) \<and> list_all sds_plain (arr (fr_args f))"

definition fixed_plain :: "fixed_fmt \<Rightarrow> bool" where
  "fixed_plain F \<longleftrightarrow> (\<forall>p n d. esc_free (F p n d))"

lemma esc_free_dec_nat: "esc_free (dec_nat n)"
proof (induction n rule: dec_nat.induct)
  case (1 n)
  have "char_of (48 + k) \<noteq> ESC" if "k < 10" for k :: nat
    using that by (auto simp: ESC_def char_of_eq_iff take_bit_eq_mod)
  with 1 show ?case by (auto simp: dec_nat.simps [of n])
qed

lemma esc_free_dec_int: "esc_free (dec_int i)"
  using esc_free_dec_nat by (simp add: dec_int_def ESC_def)

lemma appears_args:
  "list_all sds_plain xs \<Longrightarrow>
   (case (display_args True n xs, display_args False n xs) of
      (Some a, Some b) \<Rightarrow> appears a b | (None, None) \<Rightarrow> True | _ \<Rightarrow> False)"
proof (induction n arbitrary: xs)
  case (Suc n)
  have sep: "appears (if 0 < n then '', '' else []) (if 0 < n then '', '' else [])"
    by (intro appears_plain) (simp add: ESC_def)
  show ?case
  proof (cases xs)
    case (Cons x ys)
    then have "appears (paint True PTC_MAGENTA (fmt_sds x)) (fmt_sds x)"
      using Suc.prems by (intro appears_paint appears_code) (simp add: sds_plain_def)
    with Suc.IH [of ys] Suc.prems Cons sep show ?thesis
      by (auto simp: paint_def [of False] ESC_def intro!: appears_append appears_Cons split: option.splits)
  qed simp
qed (simp add: appears_plain)

lemma frame_title_plain: "frame_plain f \<Longrightarrow> esc_free (fst (frame_title f))"
  by (auto simp: frame_plain_def sds_plain_def frame_title_def Let_def ESC_def)

text \<open>A frame line is a sequence of parts; the colours only change three of them.\<close>

definition frame_line :: "bool \<Rightarrow> fixed_fmt \<Rightarrow> bool \<Rightarrow> bytes \<Rightarrow> pt_frame_t \<Rightarrow> bytes \<Rightarrow> bytes list" where
  "frame_line color F indent format f args =
     [if indent then indent_text (fr_level f) else [], format, paint color PTC_GREEN (fst (frame_title f)),
      if snd (frame_title f) then ''('' else [], args, if snd (frame_title f) then '')'' else [],
      if fr_type f = PT_FRAME_EXIT \<and> fr_retval f \<noteq> None then '' = '' else [],
      if fr_type f = PT_FRAME_EXIT \<and> fr_retval f \<noteq> None then paint color PTC_MAGENTA (fmt_sds (fr_retval f)) else [],
      '' called at ['', paint color PTC_BBLACK (fmt_sds (fr_filename f) @ '':'' @ fmt_u32_d (fr_lineno f)), '']'',
      if fr_type f = PT_FRAME_EXIT
      then '' ~ '' @ F 3 (sint (fr_inc_time f)) 1000000 @ ''s '' @ F 3 (sint (fr_exc_time f)) 1000000 @ ''s'' @ newline
      else newline]"

lemma display_frame_line:
  "pt_type_display_frame color F indent format f =
     map_option (\<lambda>args. concat (frame_line color F indent format f args))
       (display_args color (unat (fr_arg_count f)) (arr (fr_args f)))"
  by (cases "display_args color (unat (fr_arg_count f)) (arr (fr_args f))")
    (auto simp: pt_type_display_frame_def frame_line_def Let_def case_prod_beta)

lemma appears_concat: "list_all2 appears as bs \<Longrightarrow> appears (concat as) (concat bs)"
  by (induction as bs rule: list_all2_induct) (auto simp: appears_plain intro: appears_append)

lemma appears_frame:
  assumes "frame_plain f" and "fixed_plain F" and "esc_free format"
  shows "case (pt_type_display_frame True F indent format f, pt_type_display_frame False F indent format f) of
      (Some a, Some b) \<Rightarrow> appears a b | (None, None) \<Rightarrow> True | _ \<Rightarrow> False"
proof -
  have title: "esc_free (fst (frame_title f))" by (rule frame_title_plain [OF assms(1)])
  have args: "list_all sds_plain (arr (fr_args f))" and fname: "esc_free (fmt_sds (fr_filename f))"
    and ret: "esc_free (fmt_sds (fr_retval f))" using assms(1) by (simp_all add: frame_plain_def sds_plain_def)
  have place: "esc_free (fmt_sds (fr_filename f) @ '':'' @ fmt_u32_d (fr_lineno f))"
    using fname by (simp add: fmt_u32_d_def esc_free_dec_int ESC_def)
  have lits: "esc_free ''(''" "esc_free '')''" "esc_free '' = ''" "esc_free '' called at [''" "esc_free '']''"
    "esc_free '' ~ ''" "esc_free ''s ''" "esc_free ''s''" by (simp_all add: ESC_def)
  have times: "esc_free ('' ~ '' @ F 3 (sint (fr_inc_time f)) 1000000 @ ''s '' @ F 3 (sint (fr_exc_time f)) 1000000 @ ''s'' @ newline)"
    using assms(2) lits by (simp add: fixed_plain_def)
  have plain: "paint False code s = s" for code s by (simp add: paint_def)
  have paint: "appears (paint True PTC_GREEN (fst (frame_title f))) (fst (frame_title f))"
    "appears (paint True PTC_MAGENTA (fmt_sds (fr_retval f))) (fmt_sds (fr_retval f))"
    "appears (paint True PTC_BBLACK (fmt_sds (fr_filename f) @ '':'' @ fmt_u32_d (fr_lineno f)))
       (fmt_sds (fr_filename f) @ '':'' @ fmt_u32_d (fr_lineno f))"
    using title ret place by (simp_all only: appears_paint appears_code)
  have "appears (concat (frame_line True F indent format f a)) (concat (frame_line False F indent format f b))"
    if "appears a b" for a b
    unfolding frame_line_def plain list.rel_inject
    using that paint appears_plain [OF times] assms(3) appears_plain [OF lits(1)] appears_plain [OF lits(2)]
      appears_plain [OF lits(3)] appears_plain [OF lits(4)] appears_plain [OF lits(5)] appears_plain [OF esc_free_newline]
      appears_plain [OF esc_free_indent] appears_plain [OF esc_free_simps(1)]
    by (intro appears_concat) (simp only: list.rel_inject list.rel_intros(1) appears_plain if_split HOL.simp_thms, auto)
  with appears_args [OF args, of "unat (fr_arg_count f)"] show ?thesis
    unfolding display_frame_line by (auto split: option.splits)
qed

text \<open>The first call asks the terminal, every later call gives the same answer.\<close>

lemma has_color_stable:
  assumes "tty = 0 \<or> tty = 1" and "has_color tty c = (color, c')" and "c = -1 \<or> c = tty"
  shows "color = (tty = 1) \<and> c' = tty \<and> has_color tty' c' = (color, c')"
  using assms by (auto simp: has_color_def)

lemma appears_backtrace:
  "list_all frame_plain fs \<Longrightarrow> fixed_plain F \<Longrightarrow>
   (case (status_backtrace True F i n fs, status_backtrace False F i n fs) of
      (Some a, Some b) \<Rightarrow> appears a b | (None, None) \<Rightarrow> True | _ \<Rightarrow> False)"
proof (induction n arbitrary: i fs)
  case (Suc n)
  show ?case
  proof (cases fs)
    case (Cons f gs)
    have "esc_free (''#'' @ pad_right 3 (dec_nat i))"
      using esc_free_dec_nat by (simp add: pad_right_def esc_free_def ESC_def)
    from appears_frame [OF _ Suc.prems(2) this, of f False] Suc.IH [OF _ Suc.prems(2), of gs "Suc i"] Suc.prems Cons
    show ?thesis by (auto intro!: appears_append split: option.splits)
  qed simp
qed (simp add: appears_plain)

definition status_plain :: "('s \<Rightarrow> bytes) \<Rightarrow> 's pt_status_t \<Rightarrow> bool" where
  "status_plain mem s \<longleftrightarrow> sds_plain (st_php_version s) \<and>
     list_all (\<lambda>x. esc_free (fmt_s (map_option mem x)))
       ([rq_sapi (st_request s), rq_script (st_request s), rq_method (st_request s), rq_uri (st_request s)] @
        arr (rq_argv (st_request s))) \<and>
     list_all frame_plain (arr (st_frames s))"

lemma status_argv_plain:
  "list_all (\<lambda>x. esc_free (fmt_s (map_option mem x))) xs \<Longrightarrow> status_argv mem i n xs = Some t \<Longrightarrow> esc_free t"
proof (induction mem i n xs arbitrary: t rule: status_argv.induct)
  case (3 mem i n x xs)
  have "esc_free (''$'' @ pad_right 10 (dec_nat i) @ ''        '')"
    using esc_free_dec_nat by (simp add: pad_right_def esc_free_def ESC_def)
  with 3 show ?case by (auto simp: bind_eq_Some_conv)
qed auto

text \<open>Texts without the escape character, one after the other.\<close>

lemma appears_join: "appears a b \<Longrightarrow> esc_free t \<Longrightarrow> appears (t @ a) (t @ b)"
  by (intro appears_append appears_plain)

lemma status_head_plain:
  assumes "status_plain mem s" and "fixed_plain F"
  shows "esc_free (status_head mem F now s)"
proof -
  have F: "esc_free (F p n d)" for p n d using assms(2) by (simp add: fixed_plain_def)
  show ?thesis
    using assms(1) unfolding status_head_def Let_def status_plain_def
    by (simp add: F sds_plain_def) (simp add: ESC_def)
qed

text \<open>
  C32: Colours are only decoration: for a status (and so for every frame of its backtrace) whose strings
  hold no escape character, what a terminal shows of the coloured output is, byte for byte, the output
  without colours; and the one is printed without an access outside an array exactly when the other is.
\<close>

theorem display_status_colours:
  assumes "status_plain mem s" and "fixed_plain F"
  shows "map_option (visible False) (pt_type_display_status mem True F now s) = pt_type_display_status mem False F now s"
proof -
  let ?n = "nat (sint (rq_argc (st_request s)))" and ?argv = "arr (rq_argv (st_request s))"
  have head: "esc_free (status_head mem F now s)" by (rule status_head_plain [OF assms])
  have argv: "list_all (\<lambda>x. esc_free (fmt_s (map_option mem x))) ?argv" and "list_all frame_plain (arr (st_frames s))"
    using assms(1) by (simp_all add: status_plain_def)
  note frames = appears_backtrace [OF this(2) assms(2), of 0 "unat (st_frame_count s)"]
  show ?thesis
  proof (cases "status_argv mem 0 ?n ?argv")
    case None
    then show ?thesis by (simp add: pt_type_display_status_def)
  next
    case (Some args)
    let ?args = "if rq_argc (st_request s) \<noteq> 0
      then ruler_arguments @ newline @ args else []"
    have "esc_free ?args" using status_argv_plain [OF argv Some] by simp
    then have "appears (status_head mem F now s @ ?args @ (if st_frame_count s \<noteq> 0
          then ruler_backtrace @ newline @ a else []))
        (status_head mem F now s @ ?args @ (if st_frame_count s \<noteq> 0
          then ruler_backtrace @ newline @ b else []))"
      if "appears a b" for a b
      using that head by (intro appears_join appears_if) simp_all
    from appears_visible [OF this] frames Some show ?thesis
      by (auto simp: pt_type_display_status_def split: option.splits)
  qed
qed

theorem display_status_colours_witness:
  "map_option (visible False) (pt_type_display_status id True (\<lambda>_ _ _. ''0.001'') 9 sample_status) =
     pt_type_display_status id False (\<lambda>_ _ _. ''0.001'') 9 sample_status"
proof -
  have "status_plain id sample_status"
    by (simp add: status_plain_def sample_status_def sample_request_def sample_frame_def frame_plain_def sds_plain_def
        fmt_sds_def fmt_s_def mk_sds_def arr_def ESC_def)
  moreover have "fixed_plain (\<lambda>_ _ _. ''0.001'')" by (simp add: fixed_plain_def ESC_def)
  ultimately show ?thesis by (rule display_status_colours)
qed

end
