(* ===== verification/Cli_Context.thy ===== *)
theory Cli_Context
  imports Trace_Display Trace_Filter Trace_Stream Trace_Ctrl
begin

text \<open>
  The state of the command line tool: the context of \<open>src/cli.h\<close>, the log of \<open>src/cli.c\<close>, and what
  the tool shares with the outside (descriptors, files, the message buffer, its output).
\<close>

section \<open>The context\<close>

datatype command = CMD_UNKNOWN | CMD_INVALID | CMD_TRACE | CMD_STATUS | CMD_VERSION

definition PT_PID_INVALID :: int where "PT_PID_INVALID = -1"

text \<open>\<open>0xF0000001\<close> stored in an \<open>int\<close>.\<close>

definition PT_PID_ALL :: int where "PT_PID_ALL = 0xF0000001 - 2 ^ 32"
definition PT_LIMIT_UNLIMITED :: int where "PT_LIMIT_UNLIMITED = -1"

definition PT_ERROR :: int where "PT_ERROR = 0"
definition PT_WARNING :: int where "PT_WARNING = 1"
definition PT_INFO :: int where "PT_INFO = 2"
definition PT_DEBUG :: int where "PT_DEBUG = 3"

record pt_context_t =
  cx_command :: command
  cx_verbose :: int
  cx_pid :: int
  cx_ptrace :: bool
  cx_ctrl :: pt_segment_t
  cx_ctrl_file :: bytes
  cx_sfd :: int
  cx_listen_addr :: bytes
  cx_pft :: pt_filter_t
  cx_limit_frame :: int
  cx_limit_request :: int

text \<open>The globals are zero before \<open>context_init\<close>: the filter has no content yet.\<close>

definition context_init :: "mem_env \<Rightarrow> pt_context_t option" where
  "context_init E = do {
     pft \<leftarrow> pt_filter_ctr E \<lparr>ft_type = 0, ft_content = None\<rparr>;
     Some \<lparr>cx_command = CMD_UNKNOWN, cx_verbose = PT_ERROR, cx_pid = PT_PID_INVALID, cx_ptrace = False,
       cx_ctrl = \<lparr>seg_size = 0, seg_addr = None\<rparr>, cx_ctrl_file = [], cx_sfd = -1, cx_listen_addr = [],
       cx_pft = pft, cx_limit_frame = PT_LIMIT_UNLIMITED, cx_limit_request = PT_LIMIT_UNLIMITED\<rparr>
   }"

section \<open>The tool\<close>

text \<open>What the tool prints, in order; a log line is represented by its level.\<close>

datatype out = Attached | Detached | Out_Frame u32 bool bytes pt_frame_t | Out_Request u32 bytes "sdshdr pt_request_t"
  | Out_Status "sdshdr pt_status_t" | Out_Text bytes | Log int

record tool =
  tl_ctx :: pt_context_t
  tl_net :: net
  tl_files :: files
  tl_buf :: pt_comm_buffer_t
  tl_out :: "out list"

definition say :: "out \<Rightarrow> tool \<Rightarrow> tool" where
  "say x st = st\<lparr>tl_out := tl_out st @ [x]\<rparr>"

definition pt_log :: "int \<Rightarrow> tool \<Rightarrow> tool" where
  "pt_log level st = (if level > cx_verbose (tl_ctx st) then st else say (Log level) st)"

text \<open>
  \<open>pt_comm_recv_msg\<close> and the debug line after it, which reads the length of the message whatever the
  verbosity is: without a buffer for the header there is no message to read.
\<close>

definition tool_recv :: "mem_env \<Rightarrow> int \<Rightarrow> tool \<Rightarrow> (u32 \<times> tool) option" where
  "tool_recv E fd st =
     (case buf_prepare E PT_MSG_HEADER_SIZE (tl_buf st) of (rc, b) \<Rightarrow>
        if rc = -1 \<or> bf_data b = None then None
        else do {
          (c, w, buf) \<leftarrow> fd_recv_msg E fd (tl_net st) (tl_buf st);
          Some (c, pt_log PT_DEBUG (st\<lparr>tl_net := w, tl_buf := buf\<rparr>))
        })"

definition tool_close :: "int \<Rightarrow> tool \<Rightarrow> tool" where
  "tool_close fd st = st\<lparr>tl_net := snd (pt_comm_close fd None (tl_net st))\<rparr>"

text \<open>\<open>pt_comm_send_type\<close> on a descriptor.\<close>

definition tool_send_type :: "mem_env \<Rightarrow> int \<Rightarrow> u32 \<Rightarrow> tool \<Rightarrow> (int \<times> tool) option" where
  "tool_send_type E fd type st = do {
     (rc, buf) \<leftarrow> pt_comm_build_msg E 0 type (tl_buf st);
     if rc = -1 then Some (-1, st\<lparr>tl_buf := buf\<rparr>)
     else do {
       msg \<leftarrow> bf_data buf;
       (rc, w) \<leftarrow> fd_send_msg fd msg (tl_net st);
       Some (rc, st\<lparr>tl_net := w, tl_buf := buf\<rparr>)
     }
   }"

section \<open>Waiting\<close>

text \<open>What \<open>select\<close> answers.\<close>

datatype select_result = Sel_EINTR | Sel_Error | Sel_Timeout | Sel_Ready "int \<Rightarrow> bool"

definition FD_SETSIZE :: int where "FD_SETSIZE = 1024"

text \<open>A descriptor outside the range of an \<open>fd_set\<close>, -1 of a failed \<open>accept\<close> among them, is written outside the set.\<close>

definition FD_SET :: "int \<Rightarrow> (int \<Rightarrow> bool) \<Rightarrow> (int \<Rightarrow> bool) option" where
  "FD_SET fd s = (if 0 \<le> fd \<and> fd < FD_SETSIZE then Some (s(fd := True)) else None)"

section \<open>What does not change\<close>

text \<open>The logs do not touch anything else.\<close>

lemma say_fields [simp]:
  "tl_ctx (say x st) = tl_ctx st" "tl_net (say x st) = tl_net st" "tl_files (say x st) = tl_files st"
  "tl_buf (say x st) = tl_buf st" "tl_out (say x st) = tl_out st @ [x]"
  by (simp_all add: say_def)

lemma pt_log_fields [simp]:
  "tl_ctx (pt_log l st) = tl_ctx st" "tl_net (pt_log l st) = tl_net st" "tl_files (pt_log l st) = tl_files st"
  "tl_buf (pt_log l st) = tl_buf st"
  by (simp_all add: pt_log_def)

definition is_log :: "out \<Rightarrow> bool" where
  "is_log x = (case x of Log l \<Rightarrow> True | _ \<Rightarrow> False)"

definition printed :: "out list \<Rightarrow> out list" where
  "printed xs = filter (\<lambda>x. \<not> is_log x) xs"

lemma printed_append [simp]: "printed (a @ b) = printed a @ printed b"
  by (simp add: printed_def)

lemma printed_shown [simp]: "printed [Out_Frame p i m f] = [Out_Frame p i m f]" "printed [Out_Request p m r] = [Out_Request p m r]"
  "printed [Attached] = [Attached]" "printed [Detached] = [Detached]" "printed [] = []" "printed [Out_Status s] = [Out_Status s]" "printed [Out_Text t] = [Out_Text t]"
  by (simp_all add: printed_def is_log_def)

lemma printed_log [simp]: "printed (tl_out (pt_log l st)) = printed (tl_out st)"
  by (simp add: pt_log_def is_log_def printed_def)

lemma tool_close_fds [simp]: "nt_fds (tl_net (tool_close fd st)) = (nt_fds (tl_net st))(fd := None)"
  by (auto simp: tool_close_def pt_comm_close_def fd_close_def Let_def)

lemma tool_close_rest [simp]: "nt_next (tl_net (tool_close fd st)) = nt_next (tl_net st)"
  "nt_accepts (tl_net (tool_close fd st)) = nt_accepts (tl_net st)"
  by (simp_all add: tool_close_def pt_comm_close_def fd_close_def Let_def)

lemma tool_close_fields [simp]:
  "tl_ctx (tool_close fd st) = tl_ctx st" "tl_files (tool_close fd st) = tl_files st"
  "tl_buf (tool_close fd st) = tl_buf st" "tl_out (tool_close fd st) = tl_out st"
  by (simp_all add: tool_close_def)

end
