(* ===== verification/Cli_Peers.thy ===== *)
theory Cli_Peers
  imports Cli_Context
begin

unbundle bit_operations_syntax

text \<open>
  The processes that the tool talks to, as far as both its commands need them: the messages they send,
  the invariant of the tool, and receiving from and sending to processes that keep the protocol.
\<close>

section \<open>Peers that keep the protocol\<close>

text \<open>What a traced process sends.\<close>

datatype peer_msg = Frame_Msg pt_frame_t | Req_Msg "bytes pt_request_t" | Status_Msg "bytes pt_status_t"

fun peer_type :: "peer_msg \<Rightarrow> u32" where
  "peer_type (Frame_Msg f) = PT_MSG_FRAME"
| "peer_type (Req_Msg r) = PT_MSG_REQ"
| "peer_type (Status_Msg s) = PT_MSG_STATUS"

fun peer_body :: "peer_msg \<Rightarrow> bytes" where
  "peer_body (Frame_Msg f) = enc_frame f"
| "peer_body (Req_Msg r) = enc_request r"
| "peer_body (Status_Msg s) = enc_status s"

fun peer_ok :: "peer_msg \<Rightarrow> bool" where
  "peer_ok (Frame_Msg f) \<longleftrightarrow> frame_ok f \<and> length (enc_frame f) \<le> 1024 * 1024"
| "peer_ok (Req_Msg r) \<longleftrightarrow> request_ok r \<and> length (enc_request r) \<le> 1024 * 1024"
| "peer_ok (Status_Msg s) \<longleftrightarrow> status_ok s \<and> length (enc_status s) \<le> 1024 * 1024"

interpretation peers: protocol peer_type peer_body peer_ok
proof
  show "\<not> recv_code (peer_type m)" for m by (cases m) (simp_all add: recv_code_def msg_codes)
  show "length (peer_body m) \<le> 1024 * 1024" if "peer_ok m" for m using that by (cases m) simp_all
qed

abbreviation peer_polite :: "sock_ev list \<Rightarrow> bool" where
  "peer_polite \<equiv> polite peer_type peer_body peer_ok"

abbreviation peer_net :: "net \<Rightarrow> bool" where
  "peer_net \<equiv> polite_net peer_type peer_body peer_ok"

text \<open>The message buffer: not allocated yet, or at least of its first size.\<close>

definition buf_big :: "pt_comm_buffer_t \<Rightarrow> bool" where
  "buf_big buf \<longleftrightarrow> buf_ok buf \<and> (bf_size buf = 0 \<or> 4096 \<le> bf_size buf)"

lemma prepare_size: "buf_prepare E n buf = (rc, buf') \<Longrightarrow> bf_size buf' = bf_size buf \<or> 4096 \<le> bf_size buf'"
  by (auto simp: buf_prepare_def Let_def split: if_splits)

lemma recv_done_size: "bf_size (snd (snd (recv_done n buf r))) = bf_size buf"
  by (cases "(n, buf, r)" rule: recv_done.cases) simp_all

lemma recv_after_header_size:
  assumes "recv_after_header E k buf msg = Some (c, k', buf')"
  shows "bf_size buf' = bf_size buf \<or> 4096 \<le> bf_size buf'"
proof -
  have same: "bf_size b' = bf_size b" if "recv_done n b r = (c, k', b')" for n b r b'
    using recv_done_size [of n b r] that by simp
  from assms show ?thesis
    by (auto simp: recv_after_header_def Let_def bind_eq_Some_conv dest!: prepare_size same split: if_splits prod.splits)
qed

lemma recv_size:
  assumes "pt_comm_recv_msg E k buf = Some (c, k', buf')"
  shows "bf_size buf' = bf_size buf \<or> 4096 \<le> bf_size buf'"
proof -
  obtain rc b where b: "buf_prepare E PT_MSG_HEADER_SIZE buf = (rc, b)" by force
  have "bf_size buf' = bf_size b \<or> 4096 \<le> bf_size buf'"
    using assms b by (auto simp: pt_comm_recv_msg_def bind_eq_Some_conv with_data_def
        dest!: recv_after_header_size split: if_splits prod.splits recv_result.splits)
  with prepare_size [OF b] show ?thesis by auto
qed

lemma fd_recv_size: "fd_recv_msg E fd w buf = Some (c, w', buf') \<Longrightarrow> bf_size buf' = bf_size buf \<or> 4096 \<le> bf_size buf'"
  by (auto simp: fd_recv_msg_def bind_eq_Some_conv dest!: recv_size split: option.splits)

section \<open>The invariant of the tool\<close>

definition tool_inv :: "tool \<Rightarrow> bool" where
  "tool_inv st \<longleftrightarrow> buf_big (tl_buf st) \<and> net_ok (tl_net st) \<and> peer_net (tl_net st) \<and>
     sds_ok (ft_content (cx_pft (tl_ctx st))) \<and> length (enc_filter (cx_pft (tl_ctx st))) + PT_MSG_HEADER_SIZE \<le> 4096"

text \<open>What handling the data of a process leaves alone.\<close>

definition same_tool :: "tool \<Rightarrow> tool \<Rightarrow> bool" where
  "same_tool st st' \<longleftrightarrow> tl_files st' = tl_files st \<and> same_shape (tl_net st) (tl_net st') \<and>
     cx_ctrl (tl_ctx st') = cx_ctrl (tl_ctx st) \<and> cx_pid (tl_ctx st') = cx_pid (tl_ctx st) \<and>
     cx_sfd (tl_ctx st') = cx_sfd (tl_ctx st) \<and> cx_pft (tl_ctx st') = cx_pft (tl_ctx st) \<and>
     cx_listen_addr (tl_ctx st') = cx_listen_addr (tl_ctx st)"

lemma same_tool_refl [simp]: "same_tool st st"
  by (simp add: same_tool_def)

lemma same_tool_trans [trans]: "same_tool a b \<Longrightarrow> same_tool b c \<Longrightarrow> same_tool a c"
  using same_shape_trans by (auto simp: same_tool_def)

lemma log_inv [simp]: "tool_inv (pt_log l st) \<longleftrightarrow> tool_inv st" "tool_inv (say x st) \<longleftrightarrow> tool_inv st"
  "same_tool st (pt_log l st')  \<longleftrightarrow> same_tool st st'" "same_tool st (say x st') \<longleftrightarrow> same_tool st st'"
  by (simp_all add: tool_inv_def same_tool_def)

text \<open>Receiving from a polite peer.\<close>

lemma tool_recv_polite:
  assumes "roomy E" and "tool_inv st"
  shows "\<exists>c st'. tool_recv E fd st = Some (c, st') \<and> tool_inv st' \<and> same_tool st st' \<and>
    (c = PT_MSG_PEERDOWN \<or> c = PT_MSG_EMPTY \<or> c = PT_MSG_ERR_SOCK \<or>
     (\<exists>m pid r. peer_ok m \<and> c = peer_type m \<and> bf_data (tl_buf st') = Some (enc_msg (peer_type m) pid (peer_body m) @ r)))"
proof -
  have ok: "buf_ok (tl_buf st)" "net_ok (tl_net st)" "peer_net (tl_net st)" using assms(2) by (auto simp: tool_inv_def buf_big_def)
  obtain d0 where prep: "buf_prepare E PT_MSG_HEADER_SIZE (tl_buf st) = (0, data_buf d0)"
    using buf_prepare_spec [OF ok(1) assms(1), of PT_MSG_HEADER_SIZE] by (auto simp: PT_MSG_HEADER_SIZE_def)
  from peers.fd_recv_polite [OF ok(1) assms(1) ok(2,3), of fd] obtain c w d where
    r: "fd_recv_msg E fd (tl_net st) (tl_buf st) = Some (c, w, data_buf d)" "net_ok w" "peer_net w" "same_shape (tl_net st) w"
      "c = PT_MSG_PEERDOWN \<or> c = PT_MSG_EMPTY \<or> c = PT_MSG_ERR_SOCK \<or>
       (\<exists>m pid r. peer_ok m \<and> c = peer_type m \<and> d = enc_msg (peer_type m) pid (peer_body m) @ r)" by blast
  let ?st = "st\<lparr>tl_net := w, tl_buf := data_buf d\<rparr>"
  have "buf_big (data_buf d)" using fd_recv_size [OF r(1)] assms(2) by (auto simp: tool_inv_def buf_big_def)
  then have "tool_inv ?st" "same_tool st ?st" using r assms(2) by (simp_all add: tool_inv_def same_tool_def)
  moreover have "tool_recv E fd st = Some (c, pt_log PT_DEBUG ?st)" using prep r(1) by (simp add: tool_recv_def)
  ultimately show ?thesis using r(5) by auto
qed

lemma enc_msg_fields [simp]: "msg_data (enc_msg t pid b @ r) = b @ r" "msg_pid (enc_msg t pid b @ r) = pid"
  by (simp_all add: enc_msg_def)

text \<open>A stream of messages with the pieces in which they arrive, and the sender of each.\<close>

type_synonym delivery = "bytes list \<times> u32 \<times> peer_msg"

fun delivery_ok :: "delivery \<Rightarrow> bool" where
  "delivery_ok (cs, pid, m) \<longleftrightarrow> peer_ok m \<and> delivers cs (enc_msg (peer_type m) pid (peer_body m))"

definition stream :: "delivery list \<Rightarrow> sock_ev list" where
  "stream xs = concat (map (\<lambda>(cs, _). map Chunk cs) xs)"

lemma stream_simps [simp]: "stream [] = []" "stream ((cs, m) # xs) = map Chunk cs @ stream xs"
  by (simp_all add: stream_def)

lemma tool_recv_delivered:
  assumes "roomy E" and "buf_ok (tl_buf st)" and k: "nt_fds (tl_net st) fd = Some k" "sk_in k = map Chunk cs @ es"
    and m: "delivery_ok (cs, pid, m)"
  shows "\<exists>st1 r. tool_recv E fd st = Some (peer_type m, st1) \<and> buf_ok (tl_buf st1) \<and>
    bf_data (tl_buf st1) = Some (enc_msg (peer_type m) pid (peer_body m) @ r) \<and> tl_ctx st1 = tl_ctx st \<and>
    printed (tl_out st1) = printed (tl_out st) \<and> nt_fds (tl_net st1) fd = Some (k\<lparr>sk_in := es\<rparr>)"
proof -
  obtain d0 where prep: "buf_prepare E PT_MSG_HEADER_SIZE (tl_buf st) = (0, data_buf d0)"
    using buf_prepare_spec [OF assms(2,1), of PT_MSG_HEADER_SIZE] by (auto simp: PT_MSG_HEADER_SIZE_def)
  have "pieces []" by (simp add: pieces_def)
  from recv_delivered [OF assms(2,1) _ this peers.body_fits, of cs "peer_type m" pid m k es] k(2) m obtain d where
    "pt_comm_recv_msg E k (tl_buf st) = Some (peer_type m, k\<lparr>sk_in := es\<rparr>, data_buf (enc_msg (peer_type m) pid (peer_body m) @ d))"
    by auto
  with prep k(1) show ?thesis by (auto simp: tool_recv_def fd_recv_msg_def buf_ok_def)
qed

lemma tool_recv_idle:
  assumes "roomy E" and "buf_ok (tl_buf st)" and k: "nt_fds (tl_net st) fd = Some k" "sk_in k = Idle # es"
  shows "\<exists>st1. tool_recv E fd st = Some (PT_MSG_EMPTY, st1) \<and> tl_ctx st1 = tl_ctx st \<and> buf_ok (tl_buf st1) \<and>
    printed (tl_out st1) = printed (tl_out st) \<and> nt_fds (tl_net st1) fd = Some (k\<lparr>sk_in := es\<rparr>)"
proof -
  obtain d0 where prep: "buf_prepare E PT_MSG_HEADER_SIZE (tl_buf st) = (0, data_buf d0)"
    using buf_prepare_spec [OF assms(2,1), of PT_MSG_HEADER_SIZE] by (auto simp: PT_MSG_HEADER_SIZE_def)
  obtain d where "pt_comm_recv_msg E k (tl_buf st) = Some (PT_MSG_EMPTY, k\<lparr>sk_in := es\<rparr>, data_buf d)"
    using recv_nothing [OF assms(2,1), of "Idle # es" PT_MSG_EMPTY es k] k(2) by auto
  with prep k(1) show ?thesis by (auto simp: tool_recv_def fd_recv_msg_def buf_ok_def)
qed

section \<open>Sending and closing\<close>

text \<open>Sending to a new process: nothing but the buffer and what is on the wire changes.\<close>

lemma tool_inv_send:
  assumes "tool_inv st" and "fd_send_msg fd m (tl_net st) = Some (rc, w)" and "buf_big buf"
  shows "tool_inv (st\<lparr>tl_net := w, tl_buf := buf\<rparr>) \<and> same_tool st (st\<lparr>tl_net := w, tl_buf := buf\<rparr>)"
proof -
  have "same_shape (tl_net st) w" by (rule fd_send_shape [OF assms(2)])
  moreover have "peer_net w" using peers.send_polite [OF _ assms(2)] assms(1) by (simp add: tool_inv_def)
  ultimately show ?thesis using assms(1,3) same_shape_ok by (auto simp: tool_inv_def same_tool_def)
qed

lemma build_msg_big:
  assumes "buf_big buf" and "roomy E" and "sz < 2 ^ 31"
  shows "\<exists>pid d. pt_comm_build_msg E sz type buf = Some (0, data_buf (enc_header (word_of_nat sz) type pid @ d)) \<and>
    sz \<le> length d \<and> 4096 \<le> PT_MSG_HEADER_SIZE + length d"
proof -
  have ok: "buf_ok buf" using assms(1) by (simp add: buf_big_def)
  obtain pid d where b: "pt_comm_build_msg E sz type buf = Some (0, data_buf (enc_header (word_of_nat sz) type pid @ d))" "sz \<le> length d"
    using build_msg_spec [OF ok assms(2,3)] by blast
  obtain rc b1 where p: "buf_prepare E ((PT_MSG_HEADER_SIZE + sz) mod 2 ^ 64) buf = (rc, b1)" by force
  have "bf_size (data_buf (enc_header (word_of_nat sz) type pid @ d)) = bf_size b1"
    using b(1) p by (cases b1) (auto simp: pt_comm_build_msg_def with_data_def bind_eq_Some_conv split: if_splits)
  then have "bf_size b1 = PT_MSG_HEADER_SIZE + length d" by simp
  moreover have "PT_MSG_HEADER_SIZE \<noteq> 0" by (simp add: PT_MSG_HEADER_SIZE_def)
  ultimately show ?thesis using b prepare_size [OF p] assms(1) by (auto simp: buf_big_def)
qed

lemma buf_big_data: "buf_big (data_buf d) \<longleftrightarrow> d = [] \<or> 4096 \<le> length d"
  by (simp add: buf_big_def)

lemma send_type_spec:
  assumes "roomy E" and "tool_inv st"
  shows "\<exists>pid r. tool_send_type E fd t st = do {
      (rc, w) \<leftarrow> fd_send_msg fd (enc_msg t pid [] @ r) (tl_net st); Some (rc, st\<lparr>tl_net := w, tl_buf := data_buf (enc_msg t pid [] @ r)\<rparr>) } \<and>
    buf_big (data_buf (enc_msg t pid [] @ r))"
proof -
  have ok: "buf_big (tl_buf st)" using assms(2) by (simp add: tool_inv_def)
  from build_msg_big [OF ok assms(1), of 0 t] obtain pid d where
    b: "pt_comm_build_msg E 0 t (tl_buf st) = Some (0, data_buf (enc_msg t pid [] @ d))" "4096 \<le> PT_MSG_HEADER_SIZE + length d"
    by (auto simp: enc_msg_def)
  then have "tool_send_type E fd t st = do {
      (rc, w) \<leftarrow> fd_send_msg fd (enc_msg t pid [] @ d) (tl_net st); Some (rc, st\<lparr>tl_net := w, tl_buf := data_buf (enc_msg t pid [] @ d)\<rparr>) }"
    by (simp add: tool_send_type_def)
  with b(2) show ?thesis by (intro exI [of _ pid] exI [of _ d]) (simp add: buf_big_def buf_ok_def)
qed

lemma send_type_inv:
  assumes "roomy E" and "tool_inv st"
  shows "\<exists>rc st'. tool_send_type E fd t st = Some (rc, st') \<and> tool_inv st' \<and> same_tool st st' \<and> tl_out st' = tl_out st"
proof -
  from send_type_spec [OF assms, of fd t] obtain pid r where
    s: "tool_send_type E fd t st = do {
      (rc, w) \<leftarrow> fd_send_msg fd (enc_msg t pid [] @ r) (tl_net st); Some (rc, st\<lparr>tl_net := w, tl_buf := data_buf (enc_msg t pid [] @ r)\<rparr>) }"
      "buf_big (data_buf (enc_msg t pid [] @ r))" by blast
  obtain rc w where w: "fd_send_msg fd (enc_msg t pid [] @ r) (tl_net st) = Some (rc, w)"
    using fd_send_total [of "[]"] by fastforce
  with s tool_inv_send [OF assms(2) w s(2)] show ?thesis by simp
qed

lemma tool_close_inv: "tool_inv st \<Longrightarrow> tool_inv (tool_close fd st)"
proof -
  assume inv: "tool_inv st"
  then have "peer_net (tl_net (tool_close fd st))" using peers.close_polite by (simp add: tool_inv_def tool_close_def)
  moreover have "net_ok (tl_net (tool_close fd st))" using inv by (simp add: tool_inv_def net_ok_def)
  ultimately show ?thesis using inv by (simp add: tool_inv_def)
qed

end
