(* ===== verification/Cli_Trace.thy ===== *)
theory Cli_Trace
  imports Cli_Peers
begin

unbundle bit_operations_syntax

text \<open>
  The \<open>trace\<close> command of the tool (\<open>src/trace.c\<close>): the loop over \<open>select\<close>, accepting processes,
  sending them commands and showing what they send.

  What the outside does is a list of ticks, one for each round of the loop: whether a signal has set
  \<open>interrupted\<close>, and what \<open>select\<close> answers. The result is \<open>None\<close> for undefined behaviour; the loop
  has no result yet when the ticks are used up and it would wait again.
\<close>

section \<open>Reading from one process\<close>

text \<open>\<open>PT_DECR_LIMIT\<close> and \<open>PT_STOP_MATCH\<close>.\<close>

definition decr_limit :: "int \<Rightarrow> int" where
  "decr_limit limit = (if limit \<noteq> PT_LIMIT_UNLIMITED then limit - 1 else limit)"

definition stop_match :: "int \<Rightarrow> bool" where
  "stop_match limit \<longleftrightarrow> limit = 0"

definition set_limit_frame :: "int \<Rightarrow> tool \<Rightarrow> tool" where
  "set_limit_frame l st = st\<lparr>tl_ctx := (tl_ctx st)\<lparr>cx_limit_frame := l\<rparr>\<rparr>"

definition set_limit_request :: "int \<Rightarrow> tool \<Rightarrow> tool" where
  "set_limit_request l st = st\<lparr>tl_ctx := (tl_ctx st)\<lparr>cx_limit_request := l\<rparr>\<rparr>"

text \<open>\<open>PT_MSG_FRAME\<close>: the flag says that the limit is reached.\<close>

definition trace_frame :: "mem_env \<Rightarrow> bool \<Rightarrow> tool \<Rightarrow> (bool \<times> tool) option" where
  "trace_frame E indent st = do {
     msg \<leftarrow> bf_data (tl_buf st);
     (f, _) \<leftarrow> pt_type_unpack_frame E (msg_data msg);
     if fr_type f = PT_FRAME_ENTRY then Some (False, say (Out_Frame (msg_pid msg) indent ''> '' f) st)
     else do {
       let l = decr_limit (cx_limit_frame (tl_ctx st));
       Some (stop_match l, set_limit_frame l (say (Out_Frame (msg_pid msg) indent ''< '' f) st))
     }
   }"

definition trace_request :: "mem_env \<Rightarrow> tool \<Rightarrow> (bool \<times> tool) option" where
  "trace_request E st = do {
     msg \<leftarrow> bf_data (tl_buf st);
     (r, _) \<leftarrow> pt_type_unpack_request E (msg_data msg);
     if rq_type r = PT_FRAME_ENTRY then Some (False, say (Out_Request (msg_pid msg) ''> '' r) st)
     else do {
       let l = decr_limit (cx_limit_request (tl_ctx st));
       Some (stop_match l, set_limit_request l (say (Out_Request (msg_pid msg) ''< '' r) st))
     }
   }"

text \<open>The indentation is switched off for the rest of the call by the first frame under a name filter.\<close>

definition name_filter :: "tool \<Rightarrow> bool" where
  "name_filter st \<longleftrightarrow> ft_type (cx_pft (tl_ctx st)) AND (PT_FILTER_FUNCTION_NAME OR PT_FILTER_CLASS_NAME) \<noteq> 0"

fun trace_single_process :: "mem_env \<Rightarrow> int \<Rightarrow> nat \<Rightarrow> tool \<Rightarrow> (int \<times> tool) option" where
  "trace_single_process E fd 0 st = Some (0, st)"
| "trace_single_process E fd (Suc n) st = do {
     (c, st) \<leftarrow> tool_recv E fd st;
     if c = PT_MSG_PEERDOWN \<or> c = PT_MSG_ERR_SOCK \<or> c = PT_MSG_ERR_BUF \<or> c = PT_MSG_INVALID
     then Some (-1, pt_log PT_WARNING st)
     else if c = PT_MSG_EMPTY then Some (0, st)
     else if c = PT_MSG_FRAME then do {
       (stop, st) \<leftarrow> trace_frame E (\<not> name_filter st) st;
       if stop then Some (-2, st) else trace_single_process E fd n st
     }
     else if c = PT_MSG_REQ then do {
       (stop, st) \<leftarrow> trace_request E st;
       if stop then Some (-2, st) else trace_single_process E fd n st
     }
     else trace_single_process E fd n (pt_log PT_ERROR st)
   }"

section \<open>Commands for a new process\<close>

definition pt_send_filter :: "mem_env \<Rightarrow> int \<Rightarrow> tool \<Rightarrow> (int \<times> tool) option" where
  "pt_send_filter E fd st = do {
     (rc, buf) \<leftarrow> pt_comm_build_msg E PT_FILTER_SIZE PT_MSG_DO_FILTER (tl_buf st);
     if rc = -1 then Some (-1, st\<lparr>tl_buf := buf\<rparr>)
     else do {
       d \<leftarrow> bf_data buf;
       (d, _) \<leftarrow> pt_filter_pack_filter_msg (cx_pft (tl_ctx st)) (d, PT_MSG_HEADER_SIZE);
       (rc, w) \<leftarrow> fd_send_msg fd d (tl_net st);
       Some (rc, st\<lparr>tl_net := w, tl_buf := buf\<lparr>bf_data := Some d\<rparr>\<rparr>)
     }
   }"

definition pt_send_msg :: "mem_env \<Rightarrow> int \<Rightarrow> tool \<Rightarrow> (int \<times> tool) option" where
  "pt_send_msg E fd st = do {
     (rc, st) \<leftarrow> (if ft_type (cx_pft (tl_ctx st)) \<noteq> PT_FILTER_EMPTY then pt_send_filter E fd st else Some (0, st));
     if rc = -1 then Some (-1, st)
     else if ft_type (cx_pft (tl_ctx st)) \<noteq> PT_FILTER_URL then tool_send_type E fd PT_MSG_DO_TRACE st
     else Some (0, st)
   }"

section \<open>The loop\<close>

record tick =
  tk_interrupted :: bool
  tk_select :: select_result

text \<open>The local variables \<open>maxfd\<close> and \<open>client_fds\<close> of \<open>trace_ext\<close>, with the state of the tool.\<close>

record loop_state =
  lp_maxfd :: int
  lp_clients :: "int \<Rightarrow> bool"
  lp_tool :: tool

definition trace_accept :: "mem_env \<Rightarrow> loop_state \<Rightarrow> loop_state option" where
  "trace_accept E l = do {
     let st = lp_tool l;
     let (cfd, w) = pt_comm_accept (cx_sfd (tl_ctx st)) (tl_net st);
     let st = say Attached (st\<lparr>tl_net := w\<rparr>);
     clients \<leftarrow> FD_SET cfd (lp_clients l);
     let st = (if cfd > lp_maxfd l then pt_log PT_INFO st else st);
     (rc, st) \<leftarrow> pt_send_msg E cfd st;
     let st = (if rc = -1 then pt_log PT_ERROR st else st);
     Some \<lparr>lp_maxfd = max (lp_maxfd l) cfd, lp_clients = clients, lp_tool = st\<rparr>
   }"

text \<open>The loop over the descriptors; \<open>True\<close> when the limit was reached.\<close>

fun trace_clients :: "mem_env \<Rightarrow> (int \<Rightarrow> bool) \<Rightarrow> int list \<Rightarrow> loop_state \<Rightarrow> (bool \<times> loop_state) option" where
  "trace_clients E ready [] l = Some (False, l)"
| "trace_clients E ready (cfd # fds) l =
     (if \<not> ready cfd then trace_clients E ready fds l
      else do {
        (ret, st) \<leftarrow> trace_single_process E cfd 10 (lp_tool l);
        let l = (if ret = -1
                 then l\<lparr>lp_clients := (lp_clients l)(cfd := False), lp_tool := say Detached (tool_close cfd st)\<rparr>
                 else l\<lparr>lp_tool := st\<rparr>);
        if ret = -2 then Some (True, l) else trace_clients E ready fds l
      })"

definition trace_deinit :: "loop_state \<Rightarrow> tool" where
  "trace_deinit l =
     fold (\<lambda>cfd st. if lp_clients l cfd then say Detached (tool_close cfd st) else st)
       [cx_sfd (tl_ctx (lp_tool l)) + 1..lp_maxfd l] (lp_tool l)"

text \<open>One round: the code to return, if the loop ends.\<close>

definition trace_round :: "mem_env \<Rightarrow> tick \<Rightarrow> loop_state \<Rightarrow> (int option \<times> loop_state) option" where
  "trace_round E t l =
     (if tk_interrupted t then Some (Some 0, l)
      else do {
        let sfd = cx_sfd (tl_ctx (lp_tool l));
        _ \<leftarrow> FD_SET sfd (lp_clients l);
        case tk_select t of
          Sel_EINTR \<Rightarrow> Some (None, l)
        | Sel_Error \<Rightarrow> Some (Some (-1), l\<lparr>lp_tool := pt_log PT_ERROR (lp_tool l)\<rparr>)
        | Sel_Timeout \<Rightarrow> Some (None, l)
        | Sel_Ready ready \<Rightarrow>
            if ready sfd then map_option (\<lambda>l. (None, l)) (trace_accept E l)
            else do {
              (stop, l) \<leftarrow> trace_clients E (\<lambda>fd. ready fd \<and> lp_clients l fd) [sfd + 1..lp_maxfd l] l;
              Some (if stop then Some (-2) else None, l)
            }
      })"

fun trace_loop :: "mem_env \<Rightarrow> tick list \<Rightarrow> loop_state \<Rightarrow> (int option \<times> tool) option" where
  "trace_loop E [] l = Some (None, lp_tool l)"
| "trace_loop E (t # ts) l = do {
     (ret, l) \<leftarrow> trace_round E t l;
     case ret of None \<Rightarrow> trace_loop E ts l | Some r \<Rightarrow> Some (Some r, trace_deinit l)
   }"

definition trace_ext :: "mem_env \<Rightarrow> tick list \<Rightarrow> tool \<Rightarrow> (int option \<times> tool) option" where
  "trace_ext E ts st =
     trace_loop E ts \<lparr>lp_maxfd = cx_sfd (tl_ctx st), lp_clients = (\<lambda>_. False), lp_tool = st\<rparr>"

section \<open>The command\<close>

definition ctrl_switch :: "bool \<Rightarrow> tool \<Rightarrow> tool option" where
  "ctrl_switch on st = do {
     let seg = cx_ctrl (tl_ctx st);
     let pid = cx_pid (tl_ctx st);
     fs \<leftarrow> (if pid = PT_PID_ALL
           then if on then pt_ctrl_set_all seg PT_CTRL_ACTIVE (tl_files st) else pt_ctrl_clear_all seg (tl_files st)
           else if on then pt_ctrl_set_active seg pid (tl_files st) else pt_ctrl_set_inactive seg pid (tl_files st));
     Some (pt_log PT_DEBUG (st\<lparr>tl_files := fs\<rparr>))
   }"

definition pt_trace_main :: "mem_env \<Rightarrow> tick list \<Rightarrow> tool \<Rightarrow> (int option \<times> tool) option" where
  "pt_trace_main E ts st = do {
     st \<leftarrow> ctrl_switch True st;
     (ret, st) \<leftarrow> trace_ext E ts st;
     case ret of
       None \<Rightarrow> Some (None, st)
     | Some r \<Rightarrow> do { st \<leftarrow> ctrl_switch False st; Some (Some r, st) }
   }"

section \<open>Handling one message\<close>

lemma limit_inv [simp]: "tool_inv (set_limit_frame l st) \<longleftrightarrow> tool_inv st" "tool_inv (set_limit_request l st) \<longleftrightarrow> tool_inv st"
  "same_tool st (set_limit_frame l st') \<longleftrightarrow> same_tool st st'" "same_tool st (set_limit_request l st') \<longleftrightarrow> same_tool st st'"
  by (simp_all add: tool_inv_def same_tool_def set_limit_frame_def set_limit_request_def)

text \<open>Handling one message: what is shown, what is left of the limits, and whether one is reached.\<close>

type_synonym limits = "int \<times> int"

fun shown_msg :: "bool \<Rightarrow> u32 \<times> peer_msg \<Rightarrow> out list" where
  "shown_msg indent (pid, Frame_Msg f) = [Out_Frame pid indent (if fr_type f = PT_FRAME_ENTRY then ''> '' else ''< '') (img_frame f)]"
| "shown_msg indent (pid, Req_Msg r) = [Out_Request pid (if rq_type r = PT_FRAME_ENTRY then ''> '' else ''< '') (img_request r)]"
| "shown_msg indent (pid, Status_Msg s) = []"

fun spend :: "peer_msg \<Rightarrow> limits \<Rightarrow> limits" where
  "spend (Frame_Msg f) (a, b) = (if fr_type f = PT_FRAME_ENTRY then a else decr_limit a, b)"
| "spend (Req_Msg r) (a, b) = (a, if rq_type r = PT_FRAME_ENTRY then b else decr_limit b)"
| "spend (Status_Msg s) l = l"

fun stops :: "peer_msg \<Rightarrow> limits \<Rightarrow> bool" where
  "stops (Frame_Msg f) (a, b) \<longleftrightarrow> fr_type f \<noteq> PT_FRAME_ENTRY \<and> decr_limit a = 0"
| "stops (Req_Msg r) (a, b) \<longleftrightarrow> rq_type r \<noteq> PT_FRAME_ENTRY \<and> decr_limit b = 0"
| "stops (Status_Msg s) l \<longleftrightarrow> False"

definition limits_of :: "tool \<Rightarrow> limits" where
  "limits_of st = (cx_limit_frame (tl_ctx st), cx_limit_request (tl_ctx st))"

lemma limits_of_simps [simp]:
  "limits_of (say x st) = limits_of st" "limits_of (pt_log l st) = limits_of st" "limits_of (tool_close fd st) = limits_of st"
  "limits_of (set_limit_frame a st) = (a, snd (limits_of st))" "limits_of (set_limit_request b st) = (fst (limits_of st), b)"
  by (simp_all add: limits_of_def set_limit_frame_def set_limit_request_def)

lemma set_limit_fields [simp]:
  "tl_net (set_limit_frame a st) = tl_net st" "tl_out (set_limit_frame a st) = tl_out st" "tl_buf (set_limit_frame a st) = tl_buf st"
  "tl_net (set_limit_request a st) = tl_net st" "tl_out (set_limit_request a st) = tl_out st"
  "tl_buf (set_limit_request a st) = tl_buf st"
  by (simp_all add: set_limit_frame_def set_limit_request_def)

lemma trace_single_step:
  assumes "roomy E" and "tool_recv E fd st = Some (peer_type m, st1)" and "peer_ok m"
    and "bf_data (tl_buf st1) = Some (enc_msg (peer_type m) pid (peer_body m) @ r)"
  shows "\<exists>st2. trace_single_process E fd (Suc n) st =
      (if stops m (limits_of st1) then Some (-2, st2) else trace_single_process E fd n st2) \<and>
    tl_net st2 = tl_net st1 \<and> tl_buf st2 = tl_buf st1 \<and> (tool_inv st2 \<longleftrightarrow> tool_inv st1) \<and> same_tool st1 st2 \<and>
    limits_of st2 = spend m (limits_of st1) \<and>
    printed (tl_out st2) = printed (tl_out st1) @ shown_msg (\<not> name_filter st1) (pid, m)"
proof -
  have code: "\<not> recv_code (peer_type m)" by (rule peers.mtype_user)
  obtain a b where l: "limits_of st1 = (a, b)" by force
  then have ab: "cx_limit_frame (tl_ctx st1) = a" "cx_limit_request (tl_ctx st1) = b" by (simp_all add: limits_of_def)
  show ?thesis
  proof (cases m)
    case (Frame_Msg f)
    let ?st2 = "if fr_type f = PT_FRAME_ENTRY then say (Out_Frame pid (\<not> name_filter st1) ''> '' (img_frame f)) st1
        else set_limit_frame (decr_limit a) (say (Out_Frame pid (\<not> name_filter st1) ''< '' (img_frame f)) st1)"
    have "trace_frame E (\<not> name_filter st1) st1 = Some (stops m (limits_of st1), ?st2)"
      using assms Frame_Msg l ab by (simp add: trace_frame_def frame_unpack_enc stop_match_def img_frame_def Let_def)
    with code assms(2) Frame_Msg l show ?thesis by (intro exI [of _ ?st2]) (auto simp: recv_code_def)
  next
    case (Req_Msg q)
    let ?st2 = "if rq_type q = PT_FRAME_ENTRY then say (Out_Request pid ''> '' (img_request q)) st1
        else set_limit_request (decr_limit b) (say (Out_Request pid ''< '' (img_request q)) st1)"
    have "trace_request E st1 = Some (stops m (limits_of st1), ?st2)"
      using assms Req_Msg l ab by (simp add: trace_request_def request_unpack_enc stop_match_def img_request_def Let_def)
    moreover have "PT_MSG_REQ \<noteq> PT_MSG_FRAME" by (simp add: msg_codes)
    ultimately show ?thesis using code assms(2) Req_Msg l by (intro exI [of _ ?st2]) (auto simp: recv_code_def)
  next
    case (Status_Msg s)
    have "PT_MSG_STATUS \<noteq> PT_MSG_FRAME" "PT_MSG_STATUS \<noteq> PT_MSG_REQ" by (simp_all add: msg_codes)
    with code assms(2) Status_Msg l show ?thesis
      by (intro exI [of _ "pt_log PT_ERROR st1"]) (auto simp: recv_code_def)
  qed
qed

lemma trace_single_polite:
  assumes "roomy E" and "tool_inv st"
  shows "\<exists>ret st'. trace_single_process E fd n st = Some (ret, st') \<and> tool_inv st' \<and> same_tool st st' \<and> ret \<in> {0, -1, -2}"
  using assms(2)
proof (induction n arbitrary: st)
  case (Suc n)
  from tool_recv_polite [OF assms(1) Suc.prems, of fd] obtain c st1 where
    r: "tool_recv E fd st = Some (c, st1)" "tool_inv st1" "same_tool st st1"
      "c = PT_MSG_PEERDOWN \<or> c = PT_MSG_EMPTY \<or> c = PT_MSG_ERR_SOCK \<or>
       (\<exists>m pid r. peer_ok m \<and> c = peer_type m \<and> bf_data (tl_buf st1) = Some (enc_msg (peer_type m) pid (peer_body m) @ r))"
    by blast
  show ?case
  proof (cases "c = PT_MSG_PEERDOWN \<or> c = PT_MSG_EMPTY \<or> c = PT_MSG_ERR_SOCK")
    case True
    with r show ?thesis by (auto simp: msg_codes)
  next
    case False
    with r(4) obtain m pid q where m: "peer_ok m" "c = peer_type m"
      "bf_data (tl_buf st1) = Some (enc_msg (peer_type m) pid (peer_body m) @ q)" by blast
    from trace_single_step [OF assms(1) r(1) [unfolded m(2)] m(1,3), of n] obtain st2 where
      st2: "trace_single_process E fd (Suc n) st =
        (if stops m (limits_of st1) then Some (-2, st2) else trace_single_process E fd n st2)"
        "tool_inv st2" "same_tool st1 st2" using r(2) by blast
    have "same_tool st st2" by (rule same_tool_trans [OF r(3) st2(3)])
    with Suc.IH [OF st2(2)] st2(1,2) same_tool_trans show ?thesis by (cases "stops m (limits_of st1)") (simp, metis)
  qed
qed simp

section \<open>Showing a stream of messages\<close>

definition shown_all :: "bool \<Rightarrow> delivery list \<Rightarrow> out list" where
  "shown_all indent xs = concat (map (\<lambda>(cs, m). shown_msg indent m) xs)"

lemma shown_all_simps [simp]: "shown_all i [] = []" "shown_all i ((cs, m) # xs) = shown_msg i m @ shown_all i xs"
  "shown_all i (xs @ ys) = shown_all i xs @ shown_all i ys"
  by (simp_all add: shown_all_def)

text \<open>The reference: how many of the messages are handled by a number of calls, whether a limit stops it, and the limits left.\<close>

fun handled :: "nat \<Rightarrow> limits \<Rightarrow> delivery list \<Rightarrow> nat \<times> bool \<times> limits" where
  "handled 0 l xs = (0, False, l)"
| "handled n l [] = (0, False, l)"
| "handled (Suc n) l ((cs, pid, m) # xs) =
     (if stops m l then (1, True, spend m l)
      else case handled n (spend m l) xs of (c, s, l) \<Rightarrow> (Suc c, s, l))"

lemma name_filter_same: "same_tool st st' \<Longrightarrow> name_filter st' = name_filter st"
  by (simp add: same_tool_def name_filter_def)

lemma trace_single_handled:
  assumes "roomy E" and "buf_ok (tl_buf st)" and "nt_fds (tl_net st) fd = Some k" "sk_in k = stream xs @ Idle # rest"
    and "list_all delivery_ok xs" and "handled n (limits_of st) xs = (c, stop, l)"
  shows "\<exists>st'. trace_single_process E fd n st = Some (if stop then -2 else 0, st') \<and> limits_of st' = l \<and> buf_ok (tl_buf st') \<and>
    cx_pft (tl_ctx st') = cx_pft (tl_ctx st) \<and> cx_sfd (tl_ctx st') = cx_sfd (tl_ctx st) \<and>
    printed (tl_out st') = printed (tl_out st) @ shown_all (\<not> name_filter st) (take c xs) \<and>
    nt_fds (tl_net st') fd = Some (k\<lparr>sk_in := if stop \<or> c = n then stream (drop c xs) @ Idle # rest else rest\<rparr>)"
  using assms(2-)
proof (induction n "limits_of st" xs arbitrary: st k c stop l rule: handled.induct)
  case (1 xs)
  then show ?case by auto
next
  case (2 n)
  then have "sk_in k = Idle # rest" by simp
  from tool_recv_idle [OF assms(1) "2.prems"(1,2) this] obtain st1 where
    "tool_recv E fd st = Some (PT_MSG_EMPTY, st1)" "tl_ctx st1 = tl_ctx st" "buf_ok (tl_buf st1)"
    "printed (tl_out st1) = printed (tl_out st)" "nt_fds (tl_net st1) fd = Some (k\<lparr>sk_in := rest\<rparr>)" by blast
  with "2.prems"(5) show ?case by (auto simp: limits_of_def msg_codes)
next
  case (3 n cs pid m xs)
  have ok: "delivery_ok (cs, pid, m)" "peer_ok m" "list_all delivery_ok xs" using "3.prems"(4) by auto
  from tool_recv_delivered [OF assms(1) "3.prems"(1,2) _ ok(1), of "stream xs @ Idle # rest"] "3.prems"(3)
  obtain st1 r where st1: "tool_recv E fd st = Some (peer_type m, st1)" "buf_ok (tl_buf st1)"
    "bf_data (tl_buf st1) = Some (enc_msg (peer_type m) pid (peer_body m) @ r)" "tl_ctx st1 = tl_ctx st"
    "printed (tl_out st1) = printed (tl_out st)" "nt_fds (tl_net st1) fd = Some (k\<lparr>sk_in := stream xs @ Idle # rest\<rparr>)"
    by auto
  have same: "limits_of st1 = limits_of st" "name_filter st1 = name_filter st"
    using st1(4) by (simp_all add: limits_of_def name_filter_def)
  from trace_single_step [OF assms(1) st1(1) ok(2) st1(3), of n] obtain st2 where
    st2: "trace_single_process E fd (Suc n) st = (if stops m (limits_of st) then Some (-2, st2) else trace_single_process E fd n st2)"
      "tl_net st2 = tl_net st1" "tl_buf st2 = tl_buf st1" "same_tool st1 st2" "limits_of st2 = spend m (limits_of st)"
      "printed (tl_out st2) = printed (tl_out st) @ shown_msg (\<not> name_filter st) (pid, m)"
    unfolding same st1(5) by blast
  have pft: "cx_pft (tl_ctx st2) = cx_pft (tl_ctx st)" "cx_sfd (tl_ctx st2) = cx_sfd (tl_ctx st)"
    "name_filter st2 = name_filter st" using st2(4) st1(4) by (simp_all add: same_tool_def name_filter_def)
  show ?case
  proof (cases "stops m (limits_of st)")
    case True
    with "3.prems"(5) st1 st2 pft show ?thesis by auto
  next
    case False
    obtain c' where r: "handled n (limits_of st2) xs = (c', stop, l)" "c = Suc c'"
      using "3.prems"(5) False st2(5) by (auto split: prod.splits)
    from "3.hyps" [OF False st2(5) [symmetric] _ _ _ ok(3) r(1), of "k\<lparr>sk_in := stream xs @ Idle # rest\<rparr>"] st1(2,6) st2(2,3)
    obtain st' where "trace_single_process E fd n st2 = Some (if stop then -2 else 0, st')" "limits_of st' = l" "buf_ok (tl_buf st')"
      "cx_pft (tl_ctx st') = cx_pft (tl_ctx st2)" "cx_sfd (tl_ctx st') = cx_sfd (tl_ctx st2)"
      "printed (tl_out st') = printed (tl_out st2) @ shown_all (\<not> name_filter st2) (take c' xs)"
      "nt_fds (tl_net st') fd = Some (k\<lparr>sk_in := if stop \<or> c' = n then stream (drop c' xs) @ Idle # rest else rest\<rparr>)" by auto
    with False st2 r(2) pft show ?thesis by auto
  qed
qed

lemma handled_add:
  "handled (a + b) l xs = (case handled a l xs of (c, s, l') \<Rightarrow>
     if s \<or> c < a then (c, s, l') else case handled b l' (drop c xs) of (c', s', l'') \<Rightarrow> (c + c', s', l''))"
proof (induction a l xs rule: handled.induct)
  case (1 l xs)
  then show ?case by (auto split: prod.splits)
qed (auto split: prod.splits)

lemma handled_le: "handled n l xs = (c, s, l') \<Longrightarrow> c \<le> n \<and> c \<le> length xs"
  by (induction n l xs arbitrary: c rule: handled.induct) (auto split: if_splits prod.splits)

text \<open>The messages that count for the limit on frames.\<close>

fun exit_frame :: "delivery \<Rightarrow> bool" where
  "exit_frame (cs, pid, Frame_Msg f) \<longleftrightarrow> fr_type f \<noteq> PT_FRAME_ENTRY"
| "exit_frame _ \<longleftrightarrow> False"

definition exits :: "delivery list \<Rightarrow> nat" where
  "exits xs = length (filter exit_frame xs)"

lemma handled_limit:
  assumes "exit_frame x" and "exits as < L"
  shows "handled (length as + 1) (int L, PT_LIMIT_UNLIMITED) (as @ x # bs) =
    (length as + 1, L = exits as + 1, int L - int (exits as + 1), PT_LIMIT_UNLIMITED)"
  using assms(2)
proof (induction as arbitrary: L)
  case Nil
  obtain cs pid f where "x = (cs, pid, Frame_Msg f)" "fr_type f \<noteq> PT_FRAME_ENTRY"
    using assms(1) by (cases x rule: exit_frame.cases) auto
  with Nil show ?case by (auto simp: exits_def decr_limit_def PT_LIMIT_UNLIMITED_def)
next
  case (Cons a as)
  obtain cs pid m where a: "a = (cs, pid, m)" by (cases a)
  show ?case
  proof (cases "exit_frame a")
    case True
    obtain L' where L: "L = Suc L'" "exits as < L'" using Cons.prems True by (cases L) (auto simp: exits_def)
    with True a Cons.IH [of L'] show ?thesis
      by (cases m) (auto simp: exits_def decr_limit_def PT_LIMIT_UNLIMITED_def)
  next
    case False
    with a Cons show ?thesis
      by (cases m) (auto simp: exits_def decr_limit_def PT_LIMIT_UNLIMITED_def)
  qed
qed

text \<open>A round in which only one process has something to say.\<close>

definition ready_tick :: "int \<Rightarrow> tick" where
  "ready_tick fd = \<lparr>tk_interrupted = False, tk_select = Sel_Ready (\<lambda>f. f = fd)\<rparr>"

definition one_client :: "int \<Rightarrow> loop_state \<Rightarrow> bool" where
  "one_client fd l \<longleftrightarrow> 0 \<le> cx_sfd (tl_ctx (lp_tool l)) \<and> cx_sfd (tl_ctx (lp_tool l)) < FD_SETSIZE \<and>
     cx_sfd (tl_ctx (lp_tool l)) < fd \<and> lp_maxfd l = fd \<and> lp_clients l = (\<lambda>f. f = fd)"

lemma upto_split: "a \<le> (b :: int) \<Longrightarrow> [a..b] = [a..b - 1] @ [b]"
  by (rule upto_rec2)

lemma trace_clients_skip: "list_all (\<lambda>f. \<not> ready f) fds \<Longrightarrow> trace_clients E ready (fds @ gs) l = trace_clients E ready gs l"
  by (induction fds) auto

lemma round_one_client:
  assumes "one_client fd l" and "trace_single_process E fd 10 (lp_tool l) = Some (ret, st)" and "ret \<noteq> -1"
  shows "trace_round E (ready_tick fd) l = Some (if ret = -2 then Some (-2) else None, l\<lparr>lp_tool := st\<rparr>)"
proof -
  let ?s = "cx_sfd (tl_ctx (lp_tool l))"
  have fds: "[?s + 1..fd] = [?s + 1..fd - 1] @ [fd]" using assms(1) by (intro upto_split) (simp add: one_client_def)
  have "list_all (\<lambda>f. \<not> f = fd) [?s + 1..fd - 1]" by (auto simp: list_all_iff)
  from trace_clients_skip [OF this, of E "[fd]" l] show ?thesis
    using assms by (auto simp: trace_round_def ready_tick_def one_client_def FD_SET_def Let_def fds)
qed

lemma deinit_one_client:
  assumes "one_client fd l"
  shows "trace_deinit l = say Detached (tool_close fd (lp_tool l))"
proof -
  let ?s = "cx_sfd (tl_ctx (lp_tool l))"
  have fds: "[?s + 1..fd] = [?s + 1..fd - 1] @ [fd]" using assms(1) by (intro upto_split) (simp add: one_client_def)
  have "fold (\<lambda>cfd st. if cfd = fd then say Detached (tool_close cfd st) else st) xs st = st" if "fd \<notin> set xs" for xs st
    using that by (induction xs) auto
  then show ?thesis using assms by (simp add: trace_deinit_def one_client_def fds)
qed

lemma handled_stop:
  "handled n l xs = (c, True, l') \<Longrightarrow> 0 < c \<and> c \<le> length xs \<and> (c \<le> m \<longrightarrow> handled m l xs = (c, True, l')) \<and>
    (m < c \<longrightarrow> (\<exists>l1. handled m l xs = (m, False, l1)))"
proof (induction n l xs arbitrary: c m rule: handled.induct)
  case (3 n l cs pid x xs)
  show ?case
  proof (cases "stops x l")
    case True
    with 3 show ?thesis by (cases m) auto
  next
    case False
    obtain c' where c': "handled n (spend x l) xs = (c', True, l')" "c = Suc c'"
      using "3.prems" False by (auto split: prod.splits)
    with "3.IH" [OF False c'(1), of "m - 1"] False show ?thesis by (cases m) auto
  qed
qed auto

lemma handled_rest:
  assumes "handled c l xs = (c, True, l')" and "m < c"
  shows "\<exists>l1. handled m l xs = (m, False, l1) \<and> handled (c - m) l1 (drop m xs) = (c - m, True, l')"
proof -
  obtain l1 where l1: "handled m l xs = (m, False, l1)" using handled_stop [OF assms(1)] assms(2) by blast
  with handled_add [of m "c - m" l xs] assms show ?thesis by (auto split: prod.splits)
qed

lemma session_stops:
  assumes "roomy E" and "one_client fd l" and "buf_ok (tl_buf (lp_tool l))" and "nt_fds (tl_net (lp_tool l)) fd = Some k"
    and "sk_in k = stream xs @ Idle # rest" and "list_all delivery_ok xs" and "handled c (limits_of (lp_tool l)) xs = (c, True, lim)"
    and "c \<le> 10 * n"
  shows "\<exists>st'. trace_loop E (replicate n (ready_tick fd)) l = Some (Some (-2), st') \<and> nt_fds (tl_net st') fd = None \<and>
    limits_of st' = lim \<and> printed (tl_out st') =
      printed (tl_out (lp_tool l)) @ shown_all (\<not> name_filter (lp_tool l)) (take c xs) @ [Detached]"
  using assms(2-)
proof (induction n arbitrary: l k xs c)
  case 0
  then show ?case using handled_stop [of c _ xs c lim] by auto
next
  case (Suc n)
  let ?l = "limits_of (lp_tool l)"
  show ?case
  proof (cases "c \<le> 10")
    case True
    have "handled 10 ?l xs = (c, True, lim)" using handled_stop [OF Suc.prems(6)] True by blast
    from trace_single_handled [OF assms(1) Suc.prems(2-5) this] obtain st where
      st: "trace_single_process E fd 10 (lp_tool l) = Some (-2, st)" "limits_of st = lim"
        "cx_sfd (tl_ctx st) = cx_sfd (tl_ctx (lp_tool l))"
        "printed (tl_out st) = printed (tl_out (lp_tool l)) @ shown_all (\<not> name_filter (lp_tool l)) (take c xs)" by auto
    have "one_client fd (l\<lparr>lp_tool := st\<rparr>)" using Suc.prems(1) st(3) by (simp add: one_client_def)
    from deinit_one_client [OF this] round_one_client [OF Suc.prems(1) st(1)] st show ?thesis by simp
  next
    case False
    obtain l1 where l1: "handled 10 ?l xs = (10, False, l1)" "handled (c - 10) l1 (drop 10 xs) = (c - 10, True, lim)"
      using handled_rest [OF Suc.prems(6), of 10] False by auto
    from trace_single_handled [OF assms(1) Suc.prems(2-5) l1(1)] obtain st where
      st: "trace_single_process E fd 10 (lp_tool l) = Some (0, st)" "limits_of st = l1" "buf_ok (tl_buf st)"
        "cx_pft (tl_ctx st) = cx_pft (tl_ctx (lp_tool l))" "cx_sfd (tl_ctx st) = cx_sfd (tl_ctx (lp_tool l))"
        "printed (tl_out st) = printed (tl_out (lp_tool l)) @ shown_all (\<not> name_filter (lp_tool l)) (take 10 xs)"
        "nt_fds (tl_net st) fd = Some (k\<lparr>sk_in := stream (drop 10 xs) @ Idle # rest\<rparr>)" by auto
    let ?l1 = "l\<lparr>lp_tool := st\<rparr>"
    have "one_client fd ?l1" using Suc.prems(1) st(5) by (simp add: one_client_def)
    moreover have "list_all delivery_ok (drop 10 xs)" using Suc.prems(5) by (auto simp: list_all_iff dest: in_set_dropD)
    moreover have "c - 10 \<le> 10 * n" using Suc.prems(7) by simp
    ultimately obtain st' where "trace_loop E (replicate n (ready_tick fd)) ?l1 = Some (Some (-2), st')"
      "nt_fds (tl_net st') fd = None" "limits_of st' = lim"
      "printed (tl_out st') = printed (tl_out st) @ shown_all (\<not> name_filter st) (take (c - 10) (drop 10 xs)) @ [Detached]"
      using Suc.IH [of ?l1 "k\<lparr>sk_in := stream (drop 10 xs) @ Idle # rest\<rparr>" "drop 10 xs" "c - 10"] st l1(2) by auto
    moreover have "name_filter st = name_filter (lp_tool l)" using st(4) by (simp add: name_filter_def)
    moreover have "take c xs = take 10 xs @ take (c - 10) (drop 10 xs)" using False take_add [of 10 "c - 10" xs] by simp
    ultimately show ?thesis using round_one_client [OF Suc.prems(1) st(1)] st(6) by simp
  qed
qed

section \<open>Properties of tracing: the limit\<close>

text \<open>A tool with one attached process that sends two frames, for the witness.\<close>

definition sample_ctx :: pt_context_t where
  "sample_ctx = \<lparr>cx_command = CMD_TRACE, cx_verbose = PT_ERROR, cx_pid = 7, cx_ptrace = False,
     cx_ctrl = \<lparr>seg_size = PT_CTRL_SIZE, seg_addr = Some ''c''\<rparr>, cx_ctrl_file = ''c'', cx_sfd = 3, cx_listen_addr = [],
     cx_pft = \<lparr>ft_type = PT_FILTER_EMPTY, ft_content = Some (mk_sds [])\<rparr>, cx_limit_frame = 1, cx_limit_request = PT_LIMIT_UNLIMITED\<rparr>"

definition sample_delivery :: "u8 \<Rightarrow> delivery" where
  "sample_delivery t = (let f = sample_frame\<lparr>fr_type := t\<rparr> in ([enc_msg PT_MSG_FRAME 7 (enc_frame f)], 7, Frame_Msg f))"

definition sample_session :: "sock_ev list \<Rightarrow> loop_state" where
  "sample_session es = \<lparr>lp_maxfd = 4, lp_clients = (\<lambda>f. f = 4), lp_tool = \<lparr>tl_ctx = sample_ctx,
     tl_net = (empty_net [])\<lparr>nt_fds := (\<lambda>f. if f = 4 then Some \<lparr>sk_in = es, sk_out = [], sk_fails = []\<rparr> else None), nt_next := 5\<rparr>,
     tl_files = (\<lambda>_. None), tl_buf = bufst, tl_out = []\<rparr>\<rparr>"

text \<open>
  C10: The limit is exact. With \<open>-l L\<close>, however the stream cuts the messages into pieces, the tool
  shows the messages of a process in order up to and including the one that ends the L-th function,
  shows nothing after it although more is there, detaches, closes the connection and returns -2. It
  needs at most one round of the loop for ten messages.
\<close>

theorem frame_limit_exact:
  assumes "roomy E" and "one_client fd l" and "buf_ok (tl_buf (lp_tool l))" and "nt_fds (tl_net (lp_tool l)) fd = Some k"
    and "limits_of (lp_tool l) = (int (exits as + 1), PT_LIMIT_UNLIMITED)"
    and "sk_in k = stream (as @ x # bs) @ Idle # rest" and "list_all delivery_ok (as @ x # bs)" and "exit_frame x"
    and "length as + 1 \<le> 10 * n"
  shows "\<exists>st'. trace_loop E (replicate n (ready_tick fd)) l = Some (Some (-2), st') \<and> nt_fds (tl_net st') fd = None \<and>
    printed (tl_out st') = printed (tl_out (lp_tool l)) @ shown_all (\<not> name_filter (lp_tool l)) (as @ [x]) @ [Detached]"
proof -
  have "handled (length as + 1) (limits_of (lp_tool l)) (as @ x # bs) = (length as + 1, True, 0, PT_LIMIT_UNLIMITED)"
    using handled_limit [OF assms(8), of as "exits as + 1" bs] assms(5) by simp
  from session_stops [OF assms(1-4,6,7) this assms(9)] show ?thesis by (auto simp del: shown_all_simps)
qed

theorem frame_limit_exact_witness:
  "\<exists>st'. trace_loop full_env (replicate 1 (ready_tick 4))
      (sample_session (stream [sample_delivery PT_FRAME_ENTRY, sample_delivery PT_FRAME_EXIT, sample_delivery PT_FRAME_ENTRY] @ [Idle])) =
      Some (Some (-2), st') \<and>
    printed (tl_out st') = [Out_Frame 7 True ''> '' (img_frame (sample_frame\<lparr>fr_type := PT_FRAME_ENTRY\<rparr>)),
      Out_Frame 7 True ''< '' (img_frame (sample_frame\<lparr>fr_type := PT_FRAME_EXIT\<rparr>)), Detached]"
proof -
  have ok: "delivery_ok (sample_delivery t)" for t
  proof -
    have f: "frame_ok (sample_frame\<lparr>fr_type := t\<rparr>)" using sample_ok(1) by (simp add: frame_ok_def)
    have "pt_type_len_frame (sample_frame\<lparr>fr_type := t\<rparr>) = pt_type_len_frame sample_frame" by (simp add: pt_type_len_frame_def)
    with f frame_len_enc [OF f] sample_len show ?thesis by (simp add: sample_delivery_def Let_def delivers_whole)
  qed
  let ?as = "[sample_delivery PT_FRAME_ENTRY]" and ?x = "sample_delivery PT_FRAME_EXIT"
  let ?l = "sample_session (stream (?as @ ?x # ?as) @ Idle # [])"
  have "one_client 4 ?l" "limits_of (lp_tool ?l) = (int (exits ?as + 1), PT_LIMIT_UNLIMITED)" "exit_frame ?x"
    "\<not> name_filter (lp_tool ?l)"
    by (simp_all add: one_client_def sample_session_def sample_ctx_def FD_SETSIZE_def limits_of_def sample_delivery_def exits_def Let_def
        name_filter_def PT_FILTER_EMPTY_def PT_FILTER_FUNCTION_NAME_def PT_FILTER_CLASS_NAME_def PT_FRAME_ENTRY_def PT_FRAME_EXIT_def)
  moreover have "buf_ok (tl_buf (lp_tool ?l))" "printed (tl_out (lp_tool ?l)) = []"
    "nt_fds (tl_net (lp_tool ?l)) 4 = Some \<lparr>sk_in = stream (?as @ ?x # ?as) @ Idle # [], sk_out = [], sk_fails = []\<rparr>"
    by (simp_all add: sample_session_def)
  moreover have "shown_all True [sample_delivery PT_FRAME_ENTRY, sample_delivery PT_FRAME_EXIT] =
      [Out_Frame 7 True ''> '' (img_frame (sample_frame\<lparr>fr_type := PT_FRAME_ENTRY\<rparr>)),
       Out_Frame 7 True ''< '' (img_frame (sample_frame\<lparr>fr_type := PT_FRAME_EXIT\<rparr>))]"
    by (simp add: sample_delivery_def Let_def PT_FRAME_ENTRY_def PT_FRAME_EXIT_def)
  ultimately show ?thesis
    using frame_limit_exact [of full_env 4 ?l "\<lparr>sk_in = stream (?as @ ?x # ?as) @ [Idle], sk_out = [], sk_fails = []\<rparr>"
      ?as ?x ?as "[]" 1] ok by (auto simp del: trace_loop.simps)
qed

section \<open>Ending a session\<close>

text \<open>The message with the filter: the type and the content, cut to the size of the structure.\<close>

definition filter_body :: "pt_filter_t \<Rightarrow> bytes \<Rightarrow> bytes" where
  "filter_body f d = take PT_FILTER_SIZE (enc_filter f @ drop (length (enc_filter f)) d)"

lemma pack_filter:
  assumes "sds_ok (ft_content f)" and "length (enc_filter f) \<le> length d"
  shows "pt_filter_pack_filter_msg f (enc_header l t pid @ d, PT_MSG_HEADER_SIZE) =
    Some (enc_header l t pid @ enc_filter f @ drop (length (enc_filter f)) d, PT_MSG_HEADER_SIZE + length (enc_filter f))"
  using filter_wire.pk_enc [of f full_env] assms by (simp add: poke_room)

lemma filter_size_small: "PT_FILTER_SIZE < 2 ^ 31"
  by (simp add: PT_FILTER_SIZE_def)

lemma send_filter_spec:
  assumes "roomy E" and "tool_inv st"
  shows "\<exists>pid d r. length d \<ge> PT_FILTER_SIZE \<and> 4096 \<le> PT_MSG_HEADER_SIZE + length d \<and>
    pt_send_filter E fd st = do {
      (rc, w) \<leftarrow> fd_send_msg fd (enc_msg PT_MSG_DO_FILTER pid (filter_body (cx_pft (tl_ctx st)) d) @ r) (tl_net st);
      Some (rc, st\<lparr>tl_net := w, tl_buf := data_buf (enc_msg PT_MSG_DO_FILTER pid (filter_body (cx_pft (tl_ctx st)) d) @ r)\<rparr>) } \<and>
    buf_big (data_buf (enc_msg PT_MSG_DO_FILTER pid (filter_body (cx_pft (tl_ctx st)) d) @ r))"
proof -
  let ?f = "cx_pft (tl_ctx st)"
  have ok: "buf_big (tl_buf st)" "sds_ok (ft_content ?f)" "length (enc_filter ?f) + PT_MSG_HEADER_SIZE \<le> 4096"
    using assms(2) by (auto simp: tool_inv_def)
  obtain pid d where b: "pt_comm_build_msg E PT_FILTER_SIZE PT_MSG_DO_FILTER (tl_buf st) =
      Some (0, data_buf (enc_header (word_of_nat PT_FILTER_SIZE) PT_MSG_DO_FILTER pid @ d))"
    "PT_FILTER_SIZE \<le> length d" "4096 \<le> PT_MSG_HEADER_SIZE + length d"
    using build_msg_big [OF ok(1) assms(1) filter_size_small] by blast
  define b where "b = enc_filter ?f @ drop (length (enc_filter ?f)) d"
  have len: "length b = length d" using ok(3) b(3) by (simp add: b_def)
  have body: "filter_body ?f d = take PT_FILTER_SIZE b" by (simp only: filter_body_def b_def)
  let ?m = "enc_msg PT_MSG_DO_FILTER pid (filter_body ?f d) @ drop PT_FILTER_SIZE b"
  have m: "enc_header (word_of_nat PT_FILTER_SIZE) PT_MSG_DO_FILTER pid @ b = ?m"
    using len b(2) by (simp add: enc_msg_def body)
  have pack: "pt_filter_pack_filter_msg ?f (enc_header (word_of_nat PT_FILTER_SIZE) PT_MSG_DO_FILTER pid @ d, PT_MSG_HEADER_SIZE) =
      Some (?m, PT_MSG_HEADER_SIZE + length (enc_filter ?f))"
    unfolding m [symmetric] unfolding b_def using ok(3) b(3) by (intro pack_filter [OF ok(2)]) simp
  have "length ?m = PT_MSG_HEADER_SIZE + length d" using len unfolding m [symmetric] by simp
  then have big: "buf_big (data_buf ?m)" "PT_MSG_HEADER_SIZE + length d = length ?m" using b(3) unfolding buf_big_data by simp_all
  have "pt_send_filter E fd st = do {
      (rc, w) \<leftarrow> fd_send_msg fd ?m (tl_net st); Some (rc, st\<lparr>tl_net := w, tl_buf := data_buf ?m\<rparr>) }"
    using pack big(2) by (simp add: pt_send_filter_def b(1) add.assoc)
  with b big(1) show ?thesis by blast
qed

lemma send_filter_inv:
  assumes "roomy E" and "tool_inv st"
  shows "\<exists>rc st'. pt_send_filter E fd st = Some (rc, st') \<and> tool_inv st' \<and> same_tool st st' \<and> tl_out st' = tl_out st"
proof -
  from send_filter_spec [OF assms, of fd] obtain pid d r where
    p: "pt_send_filter E fd st = do {
      (rc, w) \<leftarrow> fd_send_msg fd (enc_msg PT_MSG_DO_FILTER pid (filter_body (cx_pft (tl_ctx st)) d) @ r) (tl_net st);
      Some (rc, st\<lparr>tl_net := w, tl_buf := data_buf (enc_msg PT_MSG_DO_FILTER pid (filter_body (cx_pft (tl_ctx st)) d) @ r)\<rparr>) }"
      "buf_big (data_buf (enc_msg PT_MSG_DO_FILTER pid (filter_body (cx_pft (tl_ctx st)) d) @ r))" by blast
  let ?m = "filter_body (cx_pft (tl_ctx st)) d"
  have "length ?m \<le> PT_FILTER_SIZE" by (simp add: filter_body_def)
  with filter_size_small have "length ?m < 2 ^ 31" by (rule le_less_trans [rotated])
  then obtain rc w where w: "fd_send_msg fd (enc_msg PT_MSG_DO_FILTER pid ?m @ r) (tl_net st) = Some (rc, w)"
    using fd_send_total by blast
  with p tool_inv_send [OF assms(2) w p(2)] show ?thesis by simp
qed

lemma pt_send_msg_inv:
  assumes "roomy E" and "tool_inv st"
  shows "\<exists>rc st'. pt_send_msg E fd st = Some (rc, st') \<and> tool_inv st' \<and> same_tool st st' \<and> tl_out st' = tl_out st"
proof -
  obtain rc st1 where st1: "(if ft_type (cx_pft (tl_ctx st)) \<noteq> PT_FILTER_EMPTY then pt_send_filter E fd st else Some (0, st)) = Some (rc, st1)"
    "tool_inv st1" "same_tool st st1" "tl_out st1 = tl_out st"
    using send_filter_inv [OF assms, of fd] assms(2) by (cases "ft_type (cx_pft (tl_ctx st)) = PT_FILTER_EMPTY") auto
  obtain rc' st2 where "tool_send_type E fd PT_MSG_DO_TRACE st1 = Some (rc', st2)" "tool_inv st2" "same_tool st1 st2" "tl_out st2 = tl_out st1"
    using send_type_inv [OF assms(1) st1(2)] by blast
  with st1 same_tool_trans [OF st1(3)] show ?thesis unfolding pt_send_msg_def st1(1) by auto
qed

text \<open>
  The state between two rounds: the tool is consistent, the listening socket is open, and the open
  descriptors above it are those of the attached processes.
\<close>

definition loop_ok :: "loop_state \<Rightarrow> bool" where
  "loop_ok l \<longleftrightarrow> (let sfd = cx_sfd (tl_ctx (lp_tool l)); w = tl_net (lp_tool l) in
     tool_inv (lp_tool l) \<and> 0 \<le> sfd \<and> sfd < FD_SETSIZE \<and> sfd < nt_next w \<and> nt_fds w sfd \<noteq> None \<and> sfd \<le> lp_maxfd l \<and>
     (\<forall>fd. lp_clients l fd \<longrightarrow> sfd < fd \<and> fd \<le> lp_maxfd l) \<and> (\<forall>fd>sfd. nt_fds w fd \<noteq> None \<longleftrightarrow> lp_clients l fd))"

text \<open>What the loop never touches.\<close>

definition same_run :: "tool \<Rightarrow> tool \<Rightarrow> bool" where
  "same_run st st' \<longleftrightarrow> tl_files st' = tl_files st \<and> cx_ctrl (tl_ctx st') = cx_ctrl (tl_ctx st) \<and>
     cx_pid (tl_ctx st') = cx_pid (tl_ctx st) \<and> cx_sfd (tl_ctx st') = cx_sfd (tl_ctx st) \<and> cx_pft (tl_ctx st') = cx_pft (tl_ctx st) \<and>
     cx_listen_addr (tl_ctx st') = cx_listen_addr (tl_ctx st)"

lemma same_run_refl [simp]: "same_run st st"
  by (simp add: same_run_def)

lemma same_run_trans: "same_run a b \<Longrightarrow> same_run b c \<Longrightarrow> same_run a c"
  by (simp add: same_run_def)

lemma same_run_log [simp]: "same_run st (pt_log l st') \<longleftrightarrow> same_run st st'" "same_run st (say x st') \<longleftrightarrow> same_run st st'"
  "same_run st (tool_close fd st') \<longleftrightarrow> same_run st st'"
  by (simp_all add: same_run_def)

lemma same_tool_run: "same_tool st st' \<Longrightarrow> same_run st st'"
  by (simp add: same_tool_def same_run_def)

lemma loop_ok_same:
  assumes "loop_ok l" and "tool_inv st" and "same_tool (lp_tool l) st"
  shows "loop_ok (l\<lparr>lp_tool := st\<rparr>)"
  using assms by (simp add: loop_ok_def same_tool_def same_shape_def Let_def del: not_None_eq)

lemma loop_ok_drop:
  assumes "loop_ok l" and "cx_sfd (tl_ctx (lp_tool l)) < fd"
  shows "loop_ok (l\<lparr>lp_clients := (lp_clients l)(fd := False), lp_tool := say x (tool_close fd (lp_tool l))\<rparr>)"
  using assms tool_close_inv [of "lp_tool l" fd] by (simp add: loop_ok_def Let_def)

lemma trace_clients_ok:
  assumes "roomy E" and "loop_ok l" and "list_all (\<lambda>fd. cx_sfd (tl_ctx (lp_tool l)) < fd) fds"
  shows "\<exists>b l'. trace_clients E ready fds l = Some (b, l') \<and> loop_ok l' \<and> same_run (lp_tool l) (lp_tool l') \<and>
    nt_accepts (tl_net (lp_tool l')) = nt_accepts (tl_net (lp_tool l)) \<and> nt_next (tl_net (lp_tool l')) = nt_next (tl_net (lp_tool l))"
  using assms(2,3)
proof (induction fds arbitrary: l)
  case Nil
  then show ?case by (intro exI [of _ False] exI [of _ l]) simp
next
  case (Cons fd fds)
  have fd: "cx_sfd (tl_ctx (lp_tool l)) < fd" using Cons.prems(2) by simp
  obtain ret st where st: "trace_single_process E fd 10 (lp_tool l) = Some (ret, st)" "tool_inv st" "same_tool (lp_tool l) st"
    using trace_single_polite [OF assms(1), of "lp_tool l" fd 10] Cons.prems(1) by (auto simp: loop_ok_def Let_def)
  note ok = loop_ok_same [OF Cons.prems(1) st(2,3)]
  let ?l = "if ret = -1 then l\<lparr>lp_clients := (lp_clients l)(fd := False), lp_tool := say Detached (tool_close fd st)\<rparr>
            else l\<lparr>lp_tool := st\<rparr>"
  have l: "loop_ok ?l" using ok loop_ok_drop [OF ok, of fd Detached] fd st(3) by (simp add: same_tool_def)
  have same: "same_run (lp_tool l) (lp_tool ?l)" "nt_accepts (tl_net (lp_tool ?l)) = nt_accepts (tl_net (lp_tool l))"
    "nt_next (tl_net (lp_tool ?l)) = nt_next (tl_net (lp_tool l))" "cx_sfd (tl_ctx (lp_tool ?l)) = cx_sfd (tl_ctx (lp_tool l))"
    using same_tool_run [OF st(3)] st(3) by (auto simp: same_tool_def same_shape_def)
  have eq: "trace_clients E ready (fd # fds) l =
      (if \<not> ready fd then trace_clients E ready fds l else if ret = -2 then Some (True, ?l) else trace_clients E ready fds ?l)"
    using st(1) by (simp add: Let_def)
  show ?case
  proof (cases "ready fd")
    case True
    have "list_all (\<lambda>f. cx_sfd (tl_ctx (lp_tool ?l)) < f) fds" unfolding same(4) using Cons.prems(2) by simp
    from Cons.IH [OF l this]
    obtain b l' where "trace_clients E ready fds ?l = Some (b, l')" "loop_ok l'" "same_run (lp_tool ?l) (lp_tool l')"
      "nt_accepts (tl_net (lp_tool l')) = nt_accepts (tl_net (lp_tool l))" "nt_next (tl_net (lp_tool l')) = nt_next (tl_net (lp_tool l))"
      unfolding same(2,3) by blast
    with l same same_run_trans [OF same(1)] True show ?thesis unfolding eq by metis
  next
    case False
    then show ?thesis using Cons.IH [OF Cons.prems(1)] Cons.prems(2) unfolding eq by simp
  qed
qed

lemma trace_accept_ok:
  assumes "roomy E" and "loop_ok l" and acc: "nt_accepts (tl_net (lp_tool l)) = Some k # as" and room: "nt_next (tl_net (lp_tool l)) < FD_SETSIZE"
  shows "\<exists>l'. trace_accept E l = Some l' \<and> loop_ok l' \<and> same_run (lp_tool l) (lp_tool l') \<and> nt_accepts (tl_net (lp_tool l')) = as \<and>
    nt_next (tl_net (lp_tool l')) = nt_next (tl_net (lp_tool l)) + 1"
proof -
  let ?st = "lp_tool l" and ?w = "tl_net (lp_tool l)" and ?sfd = "cx_sfd (tl_ctx (lp_tool l))"
  let ?fd = "nt_next (tl_net (lp_tool l))"
  have ok: "tool_inv ?st" "0 \<le> ?sfd" "?sfd < ?fd" "nt_fds ?w ?sfd \<noteq> None" "?sfd \<le> lp_maxfd l"
    "\<forall>fd. lp_clients l fd \<longrightarrow> ?sfd < fd \<and> fd \<le> lp_maxfd l" "\<forall>fd>?sfd. nt_fds ?w fd \<noteq> None \<longleftrightarrow> lp_clients l fd" "?sfd < FD_SETSIZE"
    using assms(2) by (auto simp: loop_ok_def Let_def)
  define w where "w = snd (pt_comm_accept ?sfd ?w)"
  have a: "pt_comm_accept ?sfd ?w = (?fd, w)" using ok(4) acc by (auto simp: w_def pt_comm_accept_def fd_open_def)
  have w: "nt_fds w = (nt_fds ?w)(?fd \<mapsto> k)" "nt_next w = ?fd + 1" "nt_accepts w = as"
    using ok(4) acc by (auto simp: w_def pt_comm_accept_def fd_open_def)
  have "net_ok w" using ok(1,2,3) w by (auto simp: tool_inv_def net_ok_def)
  moreover have "peer_net w" using peers.accept_polite [OF _ a] ok(1) by (simp add: tool_inv_def)
  ultimately have inv: "tool_inv (?st\<lparr>tl_net := w\<rparr>)" using ok(1) by (simp add: tool_inv_def)
  let ?st1 = "if ?fd > lp_maxfd l then pt_log PT_INFO (say Attached (?st\<lparr>tl_net := w\<rparr>)) else say Attached (?st\<lparr>tl_net := w\<rparr>)"
  have st1: "tool_inv ?st1" "tl_net ?st1 = w" "same_run ?st ?st1" using inv by (auto simp: same_run_def)
  obtain rc st2 where st2: "pt_send_msg E ?fd ?st1 = Some (rc, st2)" "tool_inv st2" "same_tool ?st1 st2"
    using pt_send_msg_inv [OF assms(1) st1(1)] by blast
  define st3 where "st3 = (if rc = -1 then pt_log PT_ERROR st2 else st2)"
  have st3: "tool_inv st3" "same_tool ?st1 st3" using st2 by (auto simp: st3_def)
  let ?l = "\<lparr>lp_maxfd = max (lp_maxfd l) ?fd, lp_clients = (lp_clients l)(?fd := True), lp_tool = st3\<rparr>"
  have sh: "same_shape w (tl_net st3)" using st3(2) st1(2) by (simp add: same_tool_def)
  have run: "same_run ?st st3" using same_run_trans [OF st1(3) same_tool_run [OF st3(2)]] .
  have "trace_accept E l = Some ?l"
    using a st2(1) room ok(2,3) by (simp add: trace_accept_def FD_SET_def Let_def st3_def)
  moreover have "loop_ok ?l"
    using st3(1) sh run w ok by (auto simp: loop_ok_def Let_def same_run_def same_shape_def simp del: not_None_eq)
  moreover have "nt_accepts (tl_net st3) = as" "nt_next (tl_net st3) = ?fd + 1" using sh w by (simp_all add: same_shape_def)
  ultimately show ?thesis using run by auto
qed

text \<open>The rounds that accept a process, and a system that has one to accept in each of them.\<close>

definition accept_tick :: "int \<Rightarrow> tick \<Rightarrow> bool" where
  "accept_tick sfd t \<longleftrightarrow> \<not> tk_interrupted t \<and> (case tk_select t of Sel_Ready ready \<Rightarrow> ready sfd | _ \<Rightarrow> False)"

definition served :: "int \<Rightarrow> tick list \<Rightarrow> net \<Rightarrow> bool" where
  "served sfd ts w \<longleftrightarrow> None \<notin> set (nt_accepts w) \<and> length (filter (accept_tick sfd) ts) \<le> length (nt_accepts w) \<and>
     nt_next w + int (length (filter (accept_tick sfd) ts)) \<le> FD_SETSIZE"

lemma trace_round_ok:
  assumes "roomy E" and "loop_ok l" and "served (cx_sfd (tl_ctx (lp_tool l))) (t # ts) (tl_net (lp_tool l))"
  shows "\<exists>ret l'. trace_round E t l = Some (ret, l') \<and> loop_ok l' \<and> same_run (lp_tool l) (lp_tool l') \<and>
    served (cx_sfd (tl_ctx (lp_tool l'))) ts (tl_net (lp_tool l')) \<and> (tk_interrupted t \<longrightarrow> ret \<noteq> None) \<and> ret \<in> {None, Some 0, Some (-1), Some (-2)}"
proof -
  let ?sfd = "cx_sfd (tl_ctx (lp_tool l))" and ?w = "tl_net (lp_tool l)"
  have set: "FD_SET ?sfd c = Some (c(?sfd := True))" for c using assms(2) by (simp add: FD_SET_def loop_ok_def Let_def)
  have sv: "served ?sfd ts w'" if "nt_accepts w' = nt_accepts ?w" "nt_next w' = nt_next ?w" for w'
    using assms(3) that by (auto simp: served_def split: if_splits)
  consider (stay) "tk_interrupted t \<or> (\<forall>r. tk_select t \<noteq> Sel_Ready r)"
    | (accept) "accept_tick ?sfd t" | (read) ready where "\<not> tk_interrupted t" "tk_select t = Sel_Ready ready" "\<not> ready ?sfd"
    by (cases "tk_select t") (auto simp: accept_tick_def)
  then show ?thesis
  proof cases
    case stay
    have "loop_ok (l\<lparr>lp_tool := pt_log PT_ERROR (lp_tool l)\<rparr>)" using assms(2) by (simp add: loop_ok_def)
    with stay assms(2) sv set show ?thesis by (cases "tk_select t") (auto simp: trace_round_def)
  next
    case accept
    obtain k as where acc: "nt_accepts ?w = Some k # as" "None \<notin> set as" "length (filter (accept_tick ?sfd) ts) \<le> length as"
      using assms(3) accept by (cases "nt_accepts ?w"; cases "hd (nt_accepts ?w)") (auto simp: served_def)
    have "nt_next ?w < FD_SETSIZE" using assms(3) accept by (simp add: served_def)
    from trace_accept_ok [OF assms(1,2) acc(1) this] obtain l' where
      l': "trace_accept E l = Some l'" "loop_ok l'" "same_run (lp_tool l) (lp_tool l')" "nt_accepts (tl_net (lp_tool l')) = as"
        "nt_next (tl_net (lp_tool l')) = nt_next ?w + 1" by blast
    have "served ?sfd ts (tl_net (lp_tool l'))" using assms(3) accept acc l' by (simp add: served_def)
    moreover have "trace_round E t l = Some (None, l')"
      using accept l'(1) set by (auto simp: trace_round_def accept_tick_def split: select_result.splits)
    moreover have "\<not> tk_interrupted t" using accept by (simp add: accept_tick_def)
    ultimately show ?thesis using l'(2,3) by (simp add: same_run_def)
  next
    case read
    have "list_all (\<lambda>fd. ?sfd < fd) [?sfd + 1..lp_maxfd l]" by (auto simp: list_all_iff)
    from trace_clients_ok [OF assms(1,2) this, of "\<lambda>fd. ready fd \<and> lp_clients l fd"] obtain b l' where
      l': "trace_clients E (\<lambda>fd. ready fd \<and> lp_clients l fd) [?sfd + 1..lp_maxfd l] l = Some (b, l')" "loop_ok l'"
        "same_run (lp_tool l) (lp_tool l')" "nt_accepts (tl_net (lp_tool l')) = nt_accepts ?w" "nt_next (tl_net (lp_tool l')) = nt_next ?w"
      by blast
    have "trace_round E t l = Some (if b then Some (-2) else None, l')" using read l'(1) set by (simp add: trace_round_def)
    with l' sv [OF l'(4,5)] read show ?thesis by (simp add: same_run_def)
  qed
qed

lemma deinit_fold:
  fixes st :: tool
  defines "g cs \<equiv> \<lambda>cfd st. if cs cfd then say Detached (tool_close cfd st) else st"
  shows "same_run st (fold (g cs) fds st)"
    and "nt_fds (tl_net (fold (g cs) fds st)) f = (if f \<in> set fds \<and> cs f then None else nt_fds (tl_net st) f)"
proof (induction fds arbitrary: st)
  case (Cons a fds)
  case 1
  have "same_run st (g cs a st)" by (simp add: g_def)
  then show ?case using Cons(1) [of "g cs a st"] same_run_trans by simp
  case 2
  show ?case using Cons(2) [of "g cs a st"] by (simp add: g_def)
qed simp_all

lemma trace_deinit_ok:
  assumes "loop_ok l"
  shows "same_run (lp_tool l) (trace_deinit l)"
    and "nt_fds (tl_net (trace_deinit l)) fd = (if cx_sfd (tl_ctx (lp_tool l)) < fd then None else nt_fds (tl_net (lp_tool l)) fd)"
  using deinit_fold [where cs = "lp_clients l"] assms by (auto simp: trace_deinit_def loop_ok_def Let_def)

lemma trace_loop_ok:
  assumes "roomy E" and "loop_ok l" and "served (cx_sfd (tl_ctx (lp_tool l))) ts (tl_net (lp_tool l))" and "list_ex tk_interrupted ts"
  shows "\<exists>r st'. trace_loop E ts l = Some (Some r, st') \<and> r \<in> {0, -1, -2} \<and> same_run (lp_tool l) st' \<and>
    (\<forall>fd > cx_sfd (tl_ctx (lp_tool l)). nt_fds (tl_net st') fd = None) \<and> nt_fds (tl_net st') (cx_sfd (tl_ctx (lp_tool l))) \<noteq> None"
  using assms(2-4)
proof (induction ts arbitrary: l)
  case (Cons t ts)
  from trace_round_ok [OF assms(1) Cons.prems(1,2)] obtain ret l' where
    l': "trace_round E t l = Some (ret, l')" "loop_ok l'" "same_run (lp_tool l) (lp_tool l')"
      "served (cx_sfd (tl_ctx (lp_tool l'))) ts (tl_net (lp_tool l'))" "tk_interrupted t \<longrightarrow> ret \<noteq> None"
      "ret \<in> {None, Some 0, Some (-1), Some (-2)}" by blast
  have sfd: "cx_sfd (tl_ctx (lp_tool l')) = cx_sfd (tl_ctx (lp_tool l))" using l'(3) by (simp add: same_run_def)
  show ?case
  proof (cases ret)
    case None
    with l'(5) Cons.prems(3) have "list_ex tk_interrupted ts" by auto
    from Cons.IH [OF l'(2,4) this] obtain r st' where "trace_loop E ts l' = Some (Some r, st')" "r \<in> {0, -1, -2}"
      "same_run (lp_tool l') st'" "\<forall>fd > cx_sfd (tl_ctx (lp_tool l)). nt_fds (tl_net st') fd = None"
      "nt_fds (tl_net st') (cx_sfd (tl_ctx (lp_tool l))) \<noteq> None" unfolding sfd by blast
    with None l'(1) same_run_trans [OF l'(3)] show ?thesis by auto
  next
    case (Some r)
    have "nt_fds (tl_net (lp_tool l')) (cx_sfd (tl_ctx (lp_tool l'))) \<noteq> None" using l'(2) by (simp add: loop_ok_def Let_def)
    with Some l'(1,6) sfd trace_deinit_ok [OF l'(2)] same_run_trans [OF l'(3)] show ?thesis by auto
  qed
qed simp

section \<open>Properties of tracing: leaving no trace\<close>

text \<open>The flags that the tool is about.\<close>

definition chosen :: "int \<Rightarrow> int \<Rightarrow> bool" where
  "chosen pid p \<longleftrightarrow> pid = PT_PID_ALL \<or> p = pid"

lemma pid_all_bad: "\<not> pid_ok PT_PID_ALL"
  by (simp add: pid_ok_def PT_PID_ALL_def)

lemma ctrl_switch_spec:
  assumes "ctrl_ok (cx_ctrl (tl_ctx st)) (tl_files st)" and "pid_ok (cx_pid (tl_ctx st)) \<or> cx_pid (tl_ctx st) = PT_PID_ALL"
  shows "\<exists>fs. ctrl_switch b st = Some (pt_log PT_DEBUG (st\<lparr>tl_files := fs\<rparr>)) \<and> ctrl_ok (cx_ctrl (tl_ctx st)) fs \<and>
    (\<forall>p. pid_ok p \<longrightarrow> pt_ctrl_is_active (cx_ctrl (tl_ctx st)) p fs =
      (if chosen (cx_pid (tl_ctx st)) p then Some b else pt_ctrl_is_active (cx_ctrl (tl_ctx st)) p (tl_files st)))"
proof (cases "cx_pid (tl_ctx st) = PT_PID_ALL")
  case True
  obtain fs where fs: "pt_ctrl_set_all (cx_ctrl (tl_ctx st)) (if b then PT_CTRL_ACTIVE else PT_CTRL_CLEAR) (tl_files st) = Some fs"
    "ctrl_ok (cx_ctrl (tl_ctx st)) fs" "\<forall>p. pid_ok p \<longrightarrow> pt_ctrl_is_active (cx_ctrl (tl_ctx st)) p fs =
      Some ((if b then PT_CTRL_ACTIVE else PT_CTRL_CLEAR) AND PT_CTRL_ACTIVE \<noteq> 0)" using ctrl_set_all_spec [OF assms(1)] by blast
  have "((if b then PT_CTRL_ACTIVE else PT_CTRL_CLEAR) AND PT_CTRL_ACTIVE \<noteq> 0) \<longleftrightarrow> b"
    by (simp add: PT_CTRL_CLEAR_def PT_CTRL_ACTIVE_def)
  with fs True show ?thesis by (cases b) (auto simp: ctrl_switch_def pt_ctrl_clear_all_def chosen_def)
next
  case False
  then have "pid_ok (cx_pid (tl_ctx st))" using assms(2) by simp
  from ctrl_put_spec [OF assms(1) this, of b] False show ?thesis
    by (auto simp: ctrl_switch_def ctrl_put_def chosen_def)
qed

lemma trace_main_ends:
  assumes "roomy E" and "tool_inv st" and "ctrl_ok (cx_ctrl (tl_ctx st)) (tl_files st)"
    and "pid_ok (cx_pid (tl_ctx st)) \<or> cx_pid (tl_ctx st) = PT_PID_ALL"
    and "0 \<le> cx_sfd (tl_ctx st)" and "nt_fds (tl_net st) (cx_sfd (tl_ctx st)) \<noteq> None" and "nt_next (tl_net st) = cx_sfd (tl_ctx st) + 1"
    and "served (cx_sfd (tl_ctx st)) ts (tl_net st)" and "list_ex tk_interrupted ts"
  shows "\<exists>r st'. pt_trace_main E ts st = Some (Some r, st') \<and> r \<in> {0, -1, -2} \<and>
    (\<forall>p. pid_ok p \<longrightarrow> pt_ctrl_is_active (cx_ctrl (tl_ctx st)) p (tl_files st') =
      (if chosen (cx_pid (tl_ctx st)) p then Some False else pt_ctrl_is_active (cx_ctrl (tl_ctx st)) p (tl_files st))) \<and>
    (\<forall>fd > cx_sfd (tl_ctx st). nt_fds (tl_net st') fd = None) \<and> nt_fds (tl_net st') (cx_sfd (tl_ctx st)) \<noteq> None \<and>
    cx_sfd (tl_ctx st') = cx_sfd (tl_ctx st) \<and> cx_listen_addr (tl_ctx st') = cx_listen_addr (tl_ctx st)"
proof -
  from ctrl_switch_spec [OF assms(3,4), of True] obtain fs where
    on: "ctrl_switch True st = Some (pt_log PT_DEBUG (st\<lparr>tl_files := fs\<rparr>))" "ctrl_ok (cx_ctrl (tl_ctx st)) fs"
      "\<forall>p. pid_ok p \<longrightarrow> pt_ctrl_is_active (cx_ctrl (tl_ctx st)) p fs =
        (if chosen (cx_pid (tl_ctx st)) p then Some True else pt_ctrl_is_active (cx_ctrl (tl_ctx st)) p (tl_files st))" by blast
  define st1 where "st1 = pt_log PT_DEBUG (st\<lparr>tl_files := fs\<rparr>)"
  have st1: "tl_ctx st1 = tl_ctx st" "tl_net st1 = tl_net st" "tl_files st1 = fs" "tool_inv st1"
    using assms(2) by (simp_all add: st1_def tool_inv_def)
  let ?l = "\<lparr>lp_maxfd = cx_sfd (tl_ctx st1), lp_clients = (\<lambda>_. False), lp_tool = st1\<rparr>"
  have "cx_sfd (tl_ctx st) < FD_SETSIZE" using assms(7,8) by (simp add: served_def)
  moreover have "nt_fds (tl_net st) fd = None" if "cx_sfd (tl_ctx st) < fd" for fd
    using assms(2,7) that by (simp add: tool_inv_def net_ok_def)
  ultimately have "loop_ok ?l" using st1 assms(5-7) by (simp add: loop_ok_def Let_def)
  from trace_loop_ok [OF assms(1) this, of ts] obtain r st2 where
    st2: "trace_ext E ts st1 = Some (Some r, st2)" "r \<in> {0, -1, -2}" "same_run st1 st2"
      "\<forall>fd > cx_sfd (tl_ctx st). nt_fds (tl_net st2) fd = None" "nt_fds (tl_net st2) (cx_sfd (tl_ctx st)) \<noteq> None"
    using assms(8,9) st1 by (auto simp: trace_ext_def)
  have ctx: "cx_sfd (tl_ctx st2) = cx_sfd (tl_ctx st)" "cx_listen_addr (tl_ctx st2) = cx_listen_addr (tl_ctx st)" "cx_ctrl (tl_ctx st2) = cx_ctrl (tl_ctx st)" "cx_pid (tl_ctx st2) = cx_pid (tl_ctx st)" "tl_files st2 = fs"
    using st2(3) st1 by (simp_all add: same_run_def)
  obtain fs2 where
    off: "ctrl_switch False st2 = Some (pt_log PT_DEBUG (st2\<lparr>tl_files := fs2\<rparr>))"
      "\<forall>p. pid_ok p \<longrightarrow> pt_ctrl_is_active (cx_ctrl (tl_ctx st)) p fs2 =
        (if chosen (cx_pid (tl_ctx st)) p then Some False else pt_ctrl_is_active (cx_ctrl (tl_ctx st)) p fs)"
    using ctrl_switch_spec [of st2 False] ctx on(2) assms(4) by auto
  have "pt_trace_main E ts st = Some (Some r, pt_log PT_DEBUG (st2\<lparr>tl_files := fs2\<rparr>))"
    using on(1) st2(1) off(1) by (simp add: pt_trace_main_def flip: st1_def)
  with st2 off(2) on(3) ctx(1,2) show ?thesis by simp
qed

text \<open>A tool that listens and traces process 7, and one round that accepts it before a signal comes.\<close>

definition sample_tool :: "sock \<Rightarrow> tool" where
  "sample_tool k = \<lparr>tl_ctx = sample_ctx, tl_net = (empty_net [])\<lparr>nt_fds := [3 \<mapsto> dead_sock], nt_next := 4, nt_accepts := [Some k]\<rparr>,
     tl_files = [''c'' \<mapsto> ftruncate empty_file PT_CTRL_SIZE], tl_buf = bufst, tl_out = []\<rparr>"

definition sample_ticks :: "tick list" where
  "sample_ticks = [\<lparr>tk_interrupted = False, tk_select = Sel_Ready (\<lambda>f. f = 3)\<rparr>, \<lparr>tk_interrupted = True, tk_select = Sel_EINTR\<rparr>]"

section \<open>Properties of tracing: the filter on the wire\<close>

text \<open>
  What is in front of the receiver when the message is followed by other bytes in its buffer: the
  content that was sent, of which only the first eleven bytes were in the message.
\<close>

definition cut_content :: "bytes \<Rightarrow> bytes \<Rightarrow> bytes" where
  "cut_content s d = take 11 s @ take (length s - 11) d"

lemma filter_body_follow:
  assumes "sds_wf s" and "length (sds_str s) - 11 \<le> length d" and "PT_FILTER_SIZE \<le> length d0"
    and "length (enc_filter \<lparr>ft_type = t, ft_content = Some s\<rparr>) \<le> length d0"
  shows "\<exists>r. filter_body \<lparr>ft_type = t, ft_content = Some s\<rparr> d0 @ d =
    enc_filter \<lparr>ft_type = t, ft_content = Some (mk_sds (cut_content (sds_str s) d))\<rparr> @ r"
proof -
  let ?s = "sds_str s"
  let ?h = "enc_int t @ enc_int (word_of_nat (length ?s) :: u32)"
  have len: "length (enc_int t) = 1" "length (enc_int (word_of_nat (length ?s) :: u32)) = 4" by simp_all
  have enc: "enc_filter \<lparr>ft_type = t, ft_content = Some s\<rparr> = ?h @ ?s"
    "enc_filter \<lparr>ft_type = t, ft_content = Some (mk_sds (cut_content ?s d))\<rparr> = ?h @ cut_content ?s d"
    using assms(2) by (auto simp: enc_filter_def enc_str_def cut_content_def min_def)
  show ?thesis
  proof (cases "length ?s \<le> 11")
    case True
    then have "filter_body \<lparr>ft_type = t, ft_content = Some s\<rparr> d0 @ d =
        (?h @ cut_content ?s d) @ take (11 - length ?s) (drop (5 + length ?s) d0) @ d"
      using len by (simp add: filter_body_def enc cut_content_def PT_FILTER_SIZE_def)
    then show ?thesis unfolding enc by blast
  next
    case False
    then have "filter_body \<lparr>ft_type = t, ft_content = Some s\<rparr> d0 @ d = (?h @ cut_content ?s d) @ drop (length ?s - 11) d"
      using len by (simp add: filter_body_def enc cut_content_def PT_FILTER_SIZE_def)
    then show ?thesis unfolding enc by blast
  qed
qed

text \<open>
  C38: The filter is sent in a message of \<open>sizeof(pt_filter_t)\<close> bytes, whatever the length of its
  content. A content of up to eleven bytes arrives as it was. Of a longer one only the first eleven
  bytes are sent, with the full length in front of them, and the process unpacks the rest from what
  happens to lie behind the message in its receive buffer: it filters by something that was never
  asked for.
\<close>

theorem filter_sent_cut:
  assumes "roomy E" and "tool_inv st" and f: "cx_pft (tl_ctx st) = \<lparr>ft_type = t, ft_content = Some s\<rparr>"
    and k: "nt_fds (tl_net st) fd = Some k" "sk_fails k = []"
  shows "\<exists>st' m. pt_send_filter E fd st = Some (0, st') \<and> nt_fds (tl_net st') fd = Some (k\<lparr>sk_out := sk_out k @ m\<rparr>) \<and>
    length m = PT_MSG_HEADER_SIZE + PT_FILTER_SIZE \<and> msg_type m = PT_MSG_DO_FILTER \<and>
    (\<forall>d. length (sds_str s) - 11 \<le> length d \<longrightarrow>
      (\<exists>r. pt_filter_unpack_filter_msg E (msg_data (m @ d)) =
        Some (\<lparr>ft_type = t, ft_content = img_str (Some (cut_content (sds_str s) d))\<rparr>, r)))"
proof -
  let ?f = "cx_pft (tl_ctx st)"
  have ok: "sds_wf s" "length (enc_filter ?f) + PT_MSG_HEADER_SIZE \<le> 4096" using assms(2) f by (simp_all add: tool_inv_def sds_ok_def)
  from send_filter_spec [OF assms(1,2), of fd] obtain pid d0 r where
    s: "PT_FILTER_SIZE \<le> length d0" "4096 \<le> PT_MSG_HEADER_SIZE + length d0" "pt_send_filter E fd st = do {
      (rc, w) \<leftarrow> fd_send_msg fd (enc_msg PT_MSG_DO_FILTER pid (filter_body ?f d0) @ r) (tl_net st);
      Some (rc, st\<lparr>tl_net := w, tl_buf := data_buf (enc_msg PT_MSG_DO_FILTER pid (filter_body ?f d0) @ r)\<rparr>) }" by blast
  let ?m = "enc_msg PT_MSG_DO_FILTER pid (filter_body ?f d0)"
  have le: "length (enc_filter ?f) \<le> length d0" using ok(2) s(2) by simp
  have len: "length (filter_body ?f d0) = PT_FILTER_SIZE" using s(1) le by (simp add: filter_body_def)
  then have "length (filter_body ?f d0) < 2 ^ 31" using filter_size_small by simp
  from send_msg_spec [OF this k(2)] have "fd_send_msg fd (?m @ r) (tl_net st) =
      Some (0, (tl_net st)\<lparr>nt_fds := (nt_fds (tl_net st))(fd \<mapsto> k\<lparr>sk_out := sk_out k @ ?m\<rparr>)\<rparr>)"
    using k(1) by (simp add: fd_send_msg_def)
  then obtain st' where st': "pt_send_filter E fd st = Some (0, st')" "nt_fds (tl_net st') fd = Some (k\<lparr>sk_out := sk_out k @ ?m\<rparr>)"
    using s(3) by simp
  have "\<exists>q. pt_filter_unpack_filter_msg E (msg_data (?m @ d)) =
      Some (\<lparr>ft_type = t, ft_content = img_str (Some (cut_content (sds_str s) d))\<rparr>, q)" if d: "length (sds_str s) - 11 \<le> length d" for d
  proof -
    obtain q where q: "filter_body ?f d0 @ d =
        enc_filter \<lparr>ft_type = t, ft_content = Some (mk_sds (cut_content (sds_str s) d))\<rparr> @ q"
      using filter_body_follow [OF ok(1) d s(1)] le unfolding f by blast
    have "length (cut_content (sds_str s) d) < 2 ^ 31" using sds_bytes(3) [OF ok(1)] d by (simp add: cut_content_def min_def)
    then have "sds_ok (Some (mk_sds (cut_content (sds_str s) d)))" by (simp add: sds_ok_def)
    with filter_wire.dec_enc [of "\<lparr>ft_type = t, ft_content = Some (mk_sds (cut_content (sds_str s) d))\<rparr>" E q] assms(1)
    show ?thesis by (simp add: q img_filter_def img_sds_def)
  qed
  moreover have "msg_type ?m = PT_MSG_DO_FILTER" using header_fields(2) by (simp add: enc_msg_def)
  ultimately show ?thesis using st' len by (intro exI [of _ st'] exI [of _ ?m]) simp
qed

theorem filter_sent_cut_witness:
  "\<exists>st' m k. pt_send_filter full_env 3 (sample_tool dead_sock\<lparr>tl_net := (empty_net [])\<lparr>nt_fds := [3 \<mapsto> \<lparr>sk_in = [], sk_out = [], sk_fails = []\<rparr>], nt_next := 4\<rparr>,
       tl_ctx := sample_ctx\<lparr>cx_pft := \<lparr>ft_type = PT_FILTER_FUNCTION_NAME, ft_content = Some (mk_sds ''mysqli_connect'')\<rparr>\<rparr>\<rparr>) = Some (0, st') \<and>
     nt_fds (tl_net st') 3 = Some k \<and> sk_out k = m \<and>
     (\<exists>r. pt_filter_unpack_filter_msg full_env (msg_data (m @ ''XYZ'')) =
        Some (\<lparr>ft_type = PT_FILTER_FUNCTION_NAME, ft_content = Some (mk_sds ''mysqli_connXYZ'')\<rparr>, r))"
proof -
  let ?f = "\<lparr>ft_type = PT_FILTER_FUNCTION_NAME, ft_content = Some (mk_sds ''mysqli_connect'')\<rparr>"
  let ?k = "\<lparr>sk_in = [], sk_out = [], sk_fails = []\<rparr> :: sock"
  let ?st = "sample_tool dead_sock\<lparr>tl_net := (empty_net [])\<lparr>nt_fds := [3 \<mapsto> ?k], nt_next := 4\<rparr>, tl_ctx := sample_ctx\<lparr>cx_pft := ?f\<rparr>\<rparr>"
  have "length (enc_filter ?f) = 19" by (simp add: length_enc_filter sds_ok_def)
  then have "tool_inv ?st"
    by (auto simp: tool_inv_def sample_tool_def sample_ctx_def buf_big_def bufst_def buf_ok_def net_ok_def empty_net_def
        polite_net_def sds_ok_def PT_MSG_HEADER_SIZE_def)
  from filter_sent_cut [OF roomy_full_env this, of PT_FILTER_FUNCTION_NAME "mk_sds ''mysqli_connect''" 3 ?k] obtain st' m where
    "pt_send_filter full_env 3 ?st = Some (0, st')" "nt_fds (tl_net st') 3 = Some (?k\<lparr>sk_out := m\<rparr>)"
    "\<forall>d. length (sds_str (mk_sds ''mysqli_connect'')) - 11 \<le> length d \<longrightarrow> (\<exists>r. pt_filter_unpack_filter_msg full_env (msg_data (m @ d)) =
      Some (\<lparr>ft_type = PT_FILTER_FUNCTION_NAME, ft_content = img_str (Some (cut_content (sds_str (mk_sds ''mysqli_connect'')) d))\<rparr>, r))"
    by auto
  from this(1,2) spec [OF this(3), of "''XYZ''"] show ?thesis by (simp add: cut_content_def img_str_def)
qed

end
