(* ===== verification/Cli_Ptrace.thy ===== *)
theory Cli_Ptrace
  imports Ext_Frame
begin

unbundle bit_operations_syntax

text \<open>
  Reading the status of a stopped PHP process from outside (\<open>src/ptrace.c\<close>).

  The memory of the process is what \<open>ptrace(PTRACE_PEEKDATA, ...)\<close> returns for an address: a word
  of eight bytes, or -1, which is both the answer of a failed call and that of a word of all ones.
  An operation returns \<open>None\<close> for undefined behaviour, and where it does not return.
\<close>

section \<open>Fetching strings and numbers\<close>

type_synonym target = "u64 \<Rightarrow> u64"

text \<open>The word after which a string begins in \<open>buf\<close> at \<open>i\<close>; the loop over the words of the string.\<close>

function fetch_loop :: "target \<Rightarrow> u64 \<Rightarrow> nat \<Rightarrow> nat \<Rightarrow> bytes \<Rightarrow> (int \<times> bytes) option" where
  "fetch_loop T addr sz i buf =
     (if i < sz then
        (if T addr = -1 then Some (-1, buf)
         else do {
           buf \<leftarrow> store i (take (sz - i) (le_bytes 8 (unat (T addr)))) buf;
           fetch_loop T (addr + 8) sz (i + min 8 (sz - i)) buf
         })
      else do { buf \<leftarrow> store i [NUL] buf; Some (int i, buf) })"
  by pat_completeness auto
termination
  by (relation "measure (\<lambda>(T, addr, sz, i, buf). sz - i)") auto

declare fetch_loop.simps [simp del]

definition ptrace_fetch_str :: "target \<Rightarrow> u64 \<Rightarrow> bytes \<Rightarrow> nat \<Rightarrow> (int \<times> bytes) option" where
  "ptrace_fetch_str T addr buf sz = fetch_loop T addr sz 0 buf"

definition ptrace_fetch_long :: "target \<Rightarrow> u64 \<Rightarrow> u64" where
  "ptrace_fetch_long T addr = T addr"

definition fetch_int :: "target \<Rightarrow> u64 \<Rightarrow> u32" where
  "fetch_int T addr = ucast (ptrace_fetch_long T addr AND 0xFFFFFFFF)"

text \<open>A \<open>zend_string\<close>: its length at 16, its bytes from 24.\<close>

definition fetch_zstr :: "target \<Rightarrow> u64 \<Rightarrow> bytes \<Rightarrow> (int \<times> bytes) option" where
  "fetch_zstr T addr buf = ptrace_fetch_str T (addr + 24) buf (unat (ptrace_fetch_long T (addr + 16)))"

text \<open>\<open>sdsnew(buf)\<close> of an array that must hold the end of the string.\<close>

definition sdsnew_buf :: "mem_env \<Rightarrow> bytes \<Rightarrow> sds option" where
  "sdsnew_buf E buf = (if NUL \<in> set buf then sdsnew E (Some buf) else None)"

section \<open>Presets\<close>

record pt_ptrace_preset_t =
  pp_version :: int
  pp_has_zend_string :: bool
  SM_name :: u64
  SG_request_info_path_translated :: u64
  SG_request_info_request_method :: u64
  SG_request_info_request_uri :: u64
  SG_request_info_argc :: u64
  SG_request_info_argv :: u64
  SG_global_request_time :: u64
  EG_current_execute_data :: u64
  EX_opline :: u64
  EX_prev_execute_data :: u64
  EX_func :: u64
  EX_This :: u64
  EX_FUNC_name :: u64
  EX_FUNC_scope :: u64
  EX_FUNC_oparray_filename :: u64
  EX_FUNC_SCOPE_name :: u64
  EX_OPLINE_extended_value :: u64
  EX_OPLINE_lineno :: u64
  pp_sapi_module :: u64
  pp_sapi_globals :: u64
  pp_executor_globals :: u64

definition preset_70012 :: pt_ptrace_preset_t where
  "preset_70012 = \<lparr>pp_version = 70012, pp_has_zend_string = True, SM_name = 0, SG_request_info_path_translated = 40,
     SG_request_info_request_method = 8, SG_request_info_request_uri = 48, SG_request_info_argc = 140,
     SG_request_info_argv = 144, SG_global_request_time = 440, EG_current_execute_data = 480, EX_opline = 0,
     EX_prev_execute_data = 56, EX_func = 24, EX_This = 32, EX_FUNC_name = 8, EX_FUNC_scope = 16,
     EX_FUNC_oparray_filename = 120, EX_FUNC_SCOPE_name = 8, EX_OPLINE_extended_value = 20, EX_OPLINE_lineno = 24,
     pp_sapi_module = 0, pp_sapi_globals = 0, pp_executor_globals = 0\<rparr>"

definition preset_50619 :: pt_ptrace_preset_t where
  "preset_50619 = \<lparr>pp_version = 50619, pp_has_zend_string = False, SM_name = 0, SG_request_info_path_translated = 40,
     SG_request_info_request_method = 8, SG_request_info_request_uri = 48, SG_request_info_argc = 140,
     SG_request_info_argv = 144, SG_global_request_time = 440, EG_current_execute_data = 1120, EX_opline = 0,
     EX_prev_execute_data = 48, EX_func = 8, EX_This = 32, EX_FUNC_name = 8, EX_FUNC_scope = 16,
     EX_FUNC_oparray_filename = 152, EX_FUNC_SCOPE_name = 8, EX_OPLINE_extended_value = 32, EX_OPLINE_lineno = 40,
     pp_sapi_module = 0, pp_sapi_globals = 0, pp_executor_globals = 0\<rparr>"

definition preset_50533 :: pt_ptrace_preset_t where
  "preset_50533 = \<lparr>pp_version = 50533, pp_has_zend_string = False, SM_name = 0, SG_request_info_path_translated = 64,
     SG_request_info_request_method = 8, SG_request_info_request_uri = 72, SG_request_info_argc = 156,
     SG_request_info_argv = 160, SG_global_request_time = 448, EG_current_execute_data = 1120, EX_opline = 0,
     EX_prev_execute_data = 48, EX_func = 8, EX_This = 32, EX_FUNC_name = 8, EX_FUNC_scope = 16,
     EX_FUNC_oparray_filename = 152, EX_FUNC_SCOPE_name = 8, EX_OPLINE_extended_value = 32, EX_OPLINE_lineno = 40,
     pp_sapi_module = 0, pp_sapi_globals = 0, pp_executor_globals = 0\<rparr>"

definition presets :: "pt_ptrace_preset_t list" where
  "presets = [preset_70012, preset_50619, preset_50533]"

text \<open>The size of the array in bytes: two \<open>int\<close>s and 21 words of eight bytes for each of three.\<close>

definition sizeof_presets :: nat where
  "sizeof_presets = 3 * (2 * 4 + 21 * 8)"

text \<open>The loop \<open>for (i = 0; i < sizeof(presets); i++)\<close>, \<open>n\<close> rounds before its end.\<close>

fun preset_loop :: "int \<Rightarrow> nat \<Rightarrow> pt_ptrace_preset_t list \<Rightarrow> pt_ptrace_preset_t option option" where
  "preset_loop version 0 ps = Some None"
| "preset_loop version (Suc n) [] = None"
| "preset_loop version (Suc n) (p # ps) =
     (if version \<ge> pp_version p then Some (Some p) else preset_loop version n ps)"

definition pt_ptrace_preset :: "int \<Rightarrow> u64 \<Rightarrow> u64 \<Rightarrow> u64 \<Rightarrow> pt_ptrace_preset_t option option" where
  "pt_ptrace_preset version addr_sapi_module addr_sapi_globals addr_executor_globals =
     map_option (map_option (\<lambda>p. p\<lparr>pp_sapi_module := addr_sapi_module, pp_sapi_globals := addr_sapi_globals,
       pp_executor_globals := addr_executor_globals\<rparr>)) (preset_loop version sizeof_presets presets)"

definition pt_ptrace_fetch_current_ex :: "target \<Rightarrow> pt_ptrace_preset_t \<Rightarrow> u64" where
  "pt_ptrace_fetch_current_ex T P = ptrace_fetch_long T (pp_executor_globals P + EG_current_execute_data P)"

section \<open>Requests\<close>

text \<open>\<open>if (addr != NULL)\<close>: fetch into the static buffer and make a string; the result of the fetch is ignored.\<close>

definition sizeof_request_buf :: nat where "sizeof_request_buf = 4096"

definition fetch_opt_str :: "mem_env \<Rightarrow> target \<Rightarrow> u64 \<Rightarrow> bytes \<Rightarrow> (sds \<times> bytes) option" where
  "fetch_opt_str E T field buf =
     (let addr = ptrace_fetch_long T field in
      if addr = 0 then Some (None, buf)
      else do {
        (_, buf) \<leftarrow> ptrace_fetch_str T addr buf sizeof_request_buf;
        s \<leftarrow> sdsnew_buf E buf;
        Some (s, buf)
      })"

text \<open>The arguments are fetched from the array of pointers itself.\<close>

fun fetch_argv :: "mem_env \<Rightarrow> target \<Rightarrow> u64 \<Rightarrow> nat \<Rightarrow> bytes \<Rightarrow> (sds list \<times> bytes) option" where
  "fetch_argv E T addr 0 buf = Some ([], buf)"
| "fetch_argv E T addr (Suc n) buf = do {
     (_, buf) \<leftarrow> ptrace_fetch_str T addr buf sizeof_request_buf;
     s \<leftarrow> sdsnew_buf E buf;
     (ss, buf) \<leftarrow> fetch_argv E T (addr + 8) n buf;
     Some (s # ss, buf)
   }"

text \<open>\<open>to_long\<close> is the conversion of the bits of a \<open>double\<close> to \<open>long\<close>.\<close>

definition pt_ptrace_build_request :: "mem_env \<Rightarrow> (u64 \<Rightarrow> int) \<Rightarrow> target \<Rightarrow> pt_ptrace_preset_t \<Rightarrow> bytes \<Rightarrow>
  (sdshdr pt_request_t \<times> bytes) option" where
  "pt_ptrace_build_request E to_long T P buf = do {
     (sapi, buf) \<leftarrow> fetch_opt_str E T (pp_sapi_module P + SM_name P) buf;
     (script, buf) \<leftarrow> fetch_opt_str E T (pp_sapi_globals P + SG_request_info_path_translated P) buf;
     (method, buf) \<leftarrow> fetch_opt_str E T (pp_sapi_globals P + SG_request_info_request_method P) buf;
     (uri, buf) \<leftarrow> fetch_opt_str E T (pp_sapi_globals P + SG_request_info_request_uri P) buf;
     let argc = fetch_int T (pp_sapi_globals P + SG_request_info_argc P);
     (argv, buf) \<leftarrow>
       (if argc = 0 then Some (None, buf)
        else do {
          let addr = ptrace_fetch_long T (pp_sapi_globals P + SG_request_info_argv P);
          (ss, buf) \<leftarrow> fetch_argv E T addr (nat (sint argc)) buf;
          argv \<leftarrow> calloc_array E (nat (sint argc)) 8 ss;
          Some (argv, buf)
        });
     let val = ptrace_fetch_long T (pp_sapi_globals P + SG_global_request_time P);
     Some (\<lparr>rq_type = PT_FRAME_STACK, rq_sapi = sapi, rq_script = script,
            rq_time = word_of_int (to_long val * 1000000), rq_method = method, rq_uri = uri,
            rq_argc = argc, rq_argv = argv\<rparr>, buf)
   }"

section \<open>Frames\<close>

text \<open>A name, from a \<open>zend_string\<close> or a C string, through the static buffer of \<open>pt_ptrace_build_frame\<close>.\<close>

definition fetch_name :: "mem_env \<Rightarrow> target \<Rightarrow> pt_ptrace_preset_t \<Rightarrow> u64 \<Rightarrow> bytes \<Rightarrow> (sds \<times> bytes) option" where
  "fetch_name E T P addr buf = do {
     (_, buf) \<leftarrow> (if pp_has_zend_string P then fetch_zstr T addr buf else ptrace_fetch_str T addr buf 4096);
     s \<leftarrow> sdsnew_buf E buf;
     Some (s, buf)
   }"

text \<open>The values of \<open>ZEND_EVAL\<close> and the others are bits 0 to 4.\<close>

definition ptrace_special :: "u64 \<Rightarrow> u8 \<times> bytes" where
  "ptrace_special ev =
     (if ev = push_bit 2 1 then (PT_FUNC_INCLUDE_ONCE, ''include_once'')
      else if ev = push_bit 4 1 then (PT_FUNC_REQUIRE_ONCE, ''require_once'')
      else if ev = push_bit 1 1 then (PT_FUNC_INCLUDE, ''include'')
      else if ev = push_bit 3 1 then (PT_FUNC_REQUIRE, ''require'')
      else if ev = push_bit 0 1 then (PT_FUNC_EVAL, ''{eval}'')
      else (PT_FUNC_NORMAL, ''{main}''))"

definition ptrace_names :: "mem_env \<Rightarrow> target \<Rightarrow> pt_ptrace_preset_t \<Rightarrow> u64 \<Rightarrow> u64 \<Rightarrow> bytes \<Rightarrow> pt_frame_t \<Rightarrow>
  (pt_frame_t \<times> bytes) option" where
  "ptrace_names E T P addr_current_ex opline buf frame = do {
     let func = ptrace_fetch_long T (addr_current_ex + EX_func P);
     let name = ptrace_fetch_long T (func + EX_FUNC_name P);
     let scope = ptrace_fetch_long T (func + EX_FUNC_scope P);
     let this = ptrace_fetch_long T (addr_current_ex + EX_This P);
     if name \<noteq> 0 then do {
       (function, buf) \<leftarrow> fetch_name E T P name buf;
       let frame = frame\<lparr>fr_function := function\<rparr>;
       if scope \<noteq> 0 then do {
         (cls, buf) \<leftarrow> fetch_name E T P (ptrace_fetch_long T (scope + EX_FUNC_SCOPE_name P)) buf;
         Some (frame\<lparr>fr_class := cls, fr_functype := fr_functype frame OR (if this \<noteq> 0 then PT_FUNC_MEMBER else PT_FUNC_STATIC)\<rparr>, buf)
       }
       else Some (frame\<lparr>fr_functype := fr_functype frame OR PT_FUNC_NORMAL\<rparr>, buf)
     }
     else do {
       let ev = (if opline \<noteq> 0 then ptrace_fetch_long T (opline + EX_OPLINE_extended_value P) else 0);
       function \<leftarrow> sdsnew E (Some (snd (ptrace_special ev)));
       Some (frame\<lparr>fr_functype := fr_functype frame OR fst (ptrace_special ev), fr_function := function\<rparr>, buf)
     }
   }"

text \<open>\<open>ZEND_USER_CODE(type)\<close> of \<open>ptrace.c\<close>: bit 0 of the type is clear.\<close>

definition ptrace_user_code :: "u8 \<Rightarrow> bool" where
  "ptrace_user_code type \<longleftrightarrow> type AND 1 = 0"

definition pt_ptrace_build_frame :: "mem_env \<Rightarrow> target \<Rightarrow> pt_ptrace_preset_t \<Rightarrow> u64 \<Rightarrow> bytes \<Rightarrow>
  (pt_frame_t \<times> bytes) option" where
  "pt_ptrace_build_frame E T P addr_current_ex buf = do {
     let prev = ptrace_fetch_long T (addr_current_ex + EX_prev_execute_data P);
     let caller = (if prev \<noteq> 0 then prev else addr_current_ex);
     let opline = ptrace_fetch_long T (caller + EX_opline P);
     let caller_func = ptrace_fetch_long T (caller + EX_func P);
     let file = ptrace_fetch_long T (caller_func + EX_FUNC_oparray_filename P);
     (frame, buf) \<leftarrow> ptrace_names E T P addr_current_ex (if caller \<noteq> 0 then opline else 0) buf
       (zero_frame\<lparr>fr_type := PT_FRAME_STACK, fr_level := 1\<rparr>);
     let frame = frame\<lparr>fr_lineno := (if caller \<noteq> 0 \<and> opline \<noteq> 0 then fetch_int T (opline + EX_OPLINE_lineno P) else 0)\<rparr>;
     let func_type = (ucast (ptrace_fetch_long T caller_func AND 0xFF) :: u8);
     if file \<noteq> 0 \<and> ptrace_user_code func_type then do {
       (filename, buf) \<leftarrow> fetch_name E T P file buf;
       Some (frame\<lparr>fr_filename := filename\<rparr>, buf)
     }
     else Some (frame\<lparr>fr_filename := None\<rparr>, buf)
   }"

section \<open>Statuses\<close>

text \<open>The depth of the stack; the loop does not end when the chain of calls never reaches 0.\<close>

partial_function (option) depth_loop :: "target \<Rightarrow> u64 \<Rightarrow> nat \<Rightarrow> u64 \<Rightarrow> nat option" where
  "depth_loop T off i addr = (if addr = 0 then Some i else depth_loop T off (Suc i) (T (addr + off)))"

fun ptrace_frames :: "mem_env \<Rightarrow> target \<Rightarrow> pt_ptrace_preset_t \<Rightarrow> nat \<Rightarrow> u64 \<Rightarrow> bytes \<Rightarrow> (pt_frame_t list \<times> bytes) option" where
  "ptrace_frames E T P 0 addr buf = Some ([], buf)"
| "ptrace_frames E T P (Suc n) addr buf =
     (if addr = 0 then Some (replicate (Suc n) zero_frame, buf)
      else do {
        (f, buf) \<leftarrow> pt_ptrace_build_frame E T P addr buf;
        (fs, buf) \<leftarrow> ptrace_frames E T P n (ptrace_fetch_long T (addr + EX_prev_execute_data P)) buf;
        Some (f # fs, buf)
      })"

text \<open>The two static buffers are those of the request and of the frames.\<close>

definition pt_ptrace_build_status :: "mem_env \<Rightarrow> (u64 \<Rightarrow> int) \<Rightarrow> target \<Rightarrow> pt_ptrace_preset_t \<Rightarrow> u64 \<Rightarrow> int \<Rightarrow>
  bytes \<Rightarrow> bytes \<Rightarrow> sdshdr pt_status_t option" where
  "pt_ptrace_build_status E to_long T P addr_root_ex version_id rbuf fbuf = do {
     version \<leftarrow> sds_fmt E (dec_int (version_id div 10000) @ ''.'' @ dec_int (version_id mod 10000 div 100) @ ''.'' @
       dec_int (version_id mod 100));
     (request, _) \<leftarrow> pt_ptrace_build_request E to_long T P rbuf;
     depth \<leftarrow> depth_loop T (EX_prev_execute_data P) 0 addr_root_ex;
     (fs, _) \<leftarrow> ptrace_frames E T P depth addr_root_ex fbuf;
     frames \<leftarrow> calloc_array E depth sizeof_pt_frame_t fs;
     Some \<lparr>st_php_version = version, st_mem = 0, st_mempeak = 0, st_mem_real = 0, st_mempeak_real = 0,
           st_request = request, st_frame_count = word_of_nat depth, st_frames = frames\<rparr>
   }"

section \<open>What a fetch reads\<close>

text \<open>The bytes of \<open>n\<close> words of the process, and that none of them is taken for an error.\<close>

fun target_words :: "target \<Rightarrow> u64 \<Rightarrow> nat \<Rightarrow> bytes" where
  "target_words T addr 0 = []"
| "target_words T addr (Suc n) = le_bytes 8 (unat (T addr)) @ target_words T (addr + 8) n"

fun readable :: "target \<Rightarrow> u64 \<Rightarrow> nat \<Rightarrow> bool" where
  "readable T addr 0 = True"
| "readable T addr (Suc n) \<longleftrightarrow> T addr \<noteq> -1 \<and> readable T (addr + 8) n"

definition words_of :: "nat \<Rightarrow> nat" where
  "words_of sz = (sz + 7) div 8"

definition target_bytes :: "target \<Rightarrow> u64 \<Rightarrow> nat \<Rightarrow> bytes" where
  "target_bytes T addr sz = take sz (target_words T addr (words_of sz))"

lemma length_target_words [simp]: "length (target_words T addr n) = 8 * n"
  by (induction n arbitrary: addr) auto

lemma words_of_0 [simp]: "words_of 0 = 0"
  by (simp add: words_of_def)

lemma words_of_step: "0 < sz \<Longrightarrow> words_of sz = Suc (words_of (sz - min 8 sz))"
  by (auto simp: words_of_def min_def)

lemma words_of_room: "sz \<le> 8 * words_of sz"
  by (simp add: words_of_def)

lemma length_target_bytes [simp]: "length (target_bytes T addr sz) = sz"
  using words_of_room [of sz] by (simp add: target_bytes_def)

lemma target_bytes_step:
  "0 < sz \<Longrightarrow> target_bytes T addr sz =
     take sz (le_bytes 8 (unat (T addr))) @ target_bytes T (addr + 8) (sz - min 8 sz)"
  by (auto simp: target_bytes_def words_of_step [of sz] min_def)

lemma fetch_loop_spec:
  "\<lbrakk>i \<le> sz; sz < length buf; readable T addr (words_of (sz - i))\<rbrakk> \<Longrightarrow>
   fetch_loop T addr sz i buf = Some (int sz, take i buf @ target_bytes T addr (sz - i) @ NUL # drop (Suc sz) buf)"
proof (induction T addr sz i buf rule: fetch_loop.induct)
  case (1 T addr sz i buf)
  show ?case
  proof (cases "i < sz")
    case False
    with 1 show ?thesis by (simp add: fetch_loop.simps [of T addr sz sz] store_def poke_room target_bytes_def)
  next
    case True
    let ?k = "min 8 (sz - i)" and ?w = "take (sz - i) (le_bytes 8 (unat (T addr)))"
    have r: "T addr \<noteq> -1" "readable T (addr + 8) (words_of (sz - i - ?k))"
      using "1.prems"(3) True words_of_step [of "sz - i"] by simp_all
    let ?buf = "take i buf @ ?w @ drop (i + ?k) buf"
    have st: "store i ?w buf = Some ?buf"
      using True "1.prems"(2) by (simp add: store_def poke_room min.commute)
    have "fetch_loop T (addr + 8) sz (i + ?k) ?buf = Some (int sz, take (i + ?k) ?buf @
        target_bytes T (addr + 8) (sz - (i + ?k)) @ NUL # drop (Suc sz) ?buf)"
      using "1.IH" [OF True r(1), of ?buf] True "1.prems"(2) r(2) by (simp add: st)
    moreover have "take (i + ?k) ?buf = take i buf @ ?w" "drop (Suc sz) ?buf = drop (Suc sz) buf"
      using True "1.prems"(2) by (auto simp: min_def)
    ultimately show ?thesis
      using True r(1) st target_bytes_step [of "sz - i" T addr] by (simp add: fetch_loop.simps [of T addr sz i])
  qed
qed

lemma fetch_loop_overrun:
  "\<lbrakk>i \<le> sz; length buf \<le> sz; readable T addr (words_of (sz - i))\<rbrakk> \<Longrightarrow> fetch_loop T addr sz i buf = None"
proof (induction T addr sz i buf rule: fetch_loop.induct)
  case (1 T addr sz i buf)
  show ?case
  proof (cases "i < sz")
    case False
    with 1 show ?thesis by (simp add: fetch_loop.simps [of T addr sz sz] store_def poke_overflow)
  next
    case True
    have r: "T addr \<noteq> -1" "readable T (addr + 8) (words_of (sz - i - min 8 (sz - i)))"
      using "1.prems"(3) True words_of_step [of "sz - i"] by simp_all
    have "length buf' = length buf" if "store i (take (sz - i) (le_bytes 8 (unat (T addr)))) buf = Some buf'" for buf'
      using that by (auto simp: store_def poke_def split: if_splits)
    with 1 True r show ?thesis
      by (cases "store i (take (sz - i) (le_bytes 8 (unat (T addr)))) buf") (auto simp: fetch_loop.simps [of T addr sz i])
  qed
qed

section \<open>The depth of the stack\<close>

fun chain :: "target \<Rightarrow> u64 \<Rightarrow> nat \<Rightarrow> u64 \<Rightarrow> u64" where
  "chain T off 0 addr = addr"
| "chain T off (Suc k) addr = chain T off k (T (addr + off))"

lemma depth_loop_returns:
  "chain T off n addr = 0 \<Longrightarrow> (\<And>k. k < n \<Longrightarrow> chain T off k addr \<noteq> 0) \<Longrightarrow> depth_loop T off i addr = Some (i + n)"
proof (induction n arbitrary: i addr)
  case 0
  then show ?case by (simp add: depth_loop.simps)
next
  case (Suc n)
  have "addr \<noteq> 0" using Suc.prems(2) [of 0] by simp
  moreover have "chain T off k (T (addr + off)) \<noteq> 0" if "k < n" for k using Suc.prems(2) [of "Suc k"] that by simp
  ultimately show ?case
    using Suc.IH [of "T (addr + off)" "Suc i"] Suc.prems(1) by (simp add: depth_loop.simps [of T off i])
qed

lemma depth_loop_result:
  assumes "depth_loop T off i addr = Some n"
  shows "i \<le> n \<and> chain T off (n - i) addr = 0"
proof (rule depth_loop.raw_induct [where P = "\<lambda>T off i addr n. i \<le> n \<and> chain T off (n - i) addr = 0", OF _ assms])
  fix depth T off i addr n
  assume IH: "\<And>T off i addr n. depth T off i addr = Some n \<Longrightarrow> i \<le> n \<and> chain T off (n - i) addr = 0"
    and r: "(if addr = 0 then Some i else depth T off (Suc i) (T (addr + off))) = Some n"
  show "i \<le> n \<and> chain T off (n - i) addr = 0"
  proof (cases "addr = 0")
    case False
    then have "Suc i \<le> n \<and> chain T off (n - Suc i) (T (addr + off)) = 0" using IH r by simp
    moreover from this have "n - i = Suc (n - Suc i)" by arith
    ultimately show ?thesis by simp
  qed (use r in simp)
qed

lemma chain_stuck: "T (x + off) = x \<Longrightarrow> chain T off k x = x"
  by (induction k) simp_all

lemma chain_add: "chain T off (j + k) addr = chain T off k (chain T off j addr)"
  by (induction j arbitrary: addr) simp_all

section \<open>Properties\<close>

text \<open>The static buffers hold 4096 bytes.\<close>

text \<open>
  C33: Fetching a string of the traced process that is shorter than the buffer is exact: when no word of
  it is taken for an error, the buffer afterwards holds the bytes of the process, a terminating NUL and
  its old rest, and the length is returned.
\<close>

theorem fetch_str_exact:
  assumes "sz < length buf" and "readable T addr (words_of sz)"
  shows "ptrace_fetch_str T addr buf sz = Some (int sz, target_bytes T addr sz @ NUL # drop (Suc sz) buf)"
  using fetch_loop_spec [of 0 sz buf T addr] assms by (simp add: ptrace_fetch_str_def)

lemma le_bytes_numeral: "le_bytes (numeral k) x = char_of (x mod 256) # le_bytes (pred_numeral k) (x div 256)"
  by (simp add: numeral_eq_Suc [of k])

theorem fetch_str_exact_witness:
  "ptrace_fetch_str (\<lambda>a. if a = 8 then 26952 else 0) 8 (replicate 16 CHR ''x'') 2 =
     Some (2, ''Hi'' @ NUL # replicate 13 CHR ''x'')"
proof -
  let ?T = "\<lambda>a :: u64. if a = 8 then 26952 else 0 :: u64"
  have "words_of 2 = Suc 0" by (simp add: words_of_def)
  then have "readable ?T 8 (words_of 2)" "target_bytes ?T 8 2 = take 2 (le_bytes 8 26952)"
    by (simp_all add: target_bytes_def)
  moreover have "char_of (72::nat) = CHR ''H''" "char_of (105::nat) = CHR ''i''" by code_simp+
  then have "take 2 (le_bytes 8 26952) = ''Hi''" by (simp add: le_bytes_numeral)
  moreover have "drop (Suc 2) (replicate 16 CHR ''x'') = replicate 13 CHR ''x''" by simp
  ultimately show ?thesis using fetch_str_exact [of 2 "replicate 16 CHR ''x''" ?T 8] by simp
qed

text \<open>
  Fetching with the full size of the buffer overruns it: whenever the process can be read, the
  terminating NUL is written one byte behind the end. This is how the names of the server interface,
  the script, the method and the uri are fetched, and the same happens for a \<open>zend_string\<close> that
  states a length of 4096 or more.
\<close>

lemma fetch_str_overruns:
  assumes "length buf \<le> sz" and "readable T addr (words_of sz)"
  shows "ptrace_fetch_str T addr buf sz = None"
  using fetch_loop_overrun [of 0 sz buf T addr] assms by (simp add: ptrace_fetch_str_def)

lemma fetch_str_overruns_witness: "ptrace_fetch_str (\<lambda>_. 0) 8 (replicate 4096 NUL) sizeof_request_buf = None"
proof -
  have "readable (\<lambda>_. 0) a n" for a n by (induction n arbitrary: a) auto
  then show ?thesis using fetch_str_overruns [of "replicate 4096 NUL" sizeof_request_buf "\<lambda>_. 0" 8]
    by (simp add: sizeof_request_buf_def)
qed


text \<open>
  A failed read makes the status loop hang: once a link of the chain reads as -1 with no 0 before
  it, and the address behind -1 cannot be read either, the depth is never returned.
\<close>

lemma failed_peek_hangs:
  assumes "chain T off j addr = -1" and "T (-1 + off) = -1" and "list_all (\<lambda>k. chain T off k addr \<noteq> 0) [0..<j]"
  shows "depth_loop T off 0 addr = None"
proof -
  have "chain T off n addr \<noteq> 0" for n
  proof (cases "n < j")
    case True
    then show ?thesis using assms(3) by (simp add: list_all_iff)
  next
    case False
    then obtain k where "n = j + k" using le_Suc_ex by (metis not_less)
    then show ?thesis using chain_stuck [of T "-1" off k] assms(1,2) by (simp add: chain_add)
  qed
  then show ?thesis using depth_loop_result [of T off 0 addr] by (cases "depth_loop T off 0 addr") auto
qed

text \<open>
  Which preset is chosen, for every version: the newest one that is not newer than the process. For
  a process older than all of them the loop, which is bounded by the size of the table in bytes instead
  of its entries, reads behind the end of the table.
\<close>

lemma preset_choice:
  "pt_ptrace_preset v m g x =
     (if v < 50533 then None
      else Some (Some ((if v < 50619 then preset_50533 else if v < 70012 then preset_50619 else preset_70012)
        \<lparr>pp_sapi_module := m, pp_sapi_globals := g, pp_executor_globals := x\<rparr>)))"
proof -
  obtain n where n: "sizeof_presets = Suc (Suc (Suc (Suc n)))"
    by (rule that [of 524]) (simp add: sizeof_presets_def)
  have v: "pp_version preset_70012 = 70012" "pp_version preset_50619 = 50619" "pp_version preset_50533 = 50533"
    by (simp_all add: preset_70012_def preset_50619_def preset_50533_def)
  show ?thesis unfolding pt_ptrace_preset_def presets_def n by (simp add: v)
qed

text \<open>
  In a PHP 7 process an included file is reported as the main script. The four bytes of
  \<open>extended_value\<close> are read as a word of eight, whose upper half is the line number that follows; with
  a line number other than 0 the value is none of the known ones.
\<close>

lemma ptrace_include_misnamed:
  assumes "roomy E" and "EX_OPLINE_extended_value P = 20" and "opline \<noteq> 0"
    and "T (T (ex + EX_func P) + EX_FUNC_name P) = 0" and "drop_bit 32 (T (opline + 20)) \<noteq> 0"
  shows "ptrace_names E T P ex opline buf f =
    Some (f\<lparr>fr_functype := fr_functype f OR PT_FUNC_NORMAL, fr_function := Some (mk_sds ''{main}'')\<rparr>, buf)"
proof -
  have "T (opline + 20) \<noteq> push_bit k 1" if "k < 32" for k
  proof
    assume "T (opline + 20) = push_bit k 1"
    then have "drop_bit 32 (T (opline + 20)) = 0"
      using that by (auto intro!: bit_word_eqI simp: bit_simps)
    with assms(5) show False by simp
  qed
  from this [of 0] this [of 1] this [of 2] this [of 3] this [of 4]
  have "ptrace_special (T (opline + 20)) = (PT_FUNC_NORMAL, ''{main}'')" by (simp add: ptrace_special_def)
  then show ?thesis
    using assms sdsnew_str [OF assms(1), of "''{main}''"]
    by (simp add: ptrace_names_def ptrace_fetch_long_def Let_def strlen_def)
qed

section \<open>The frames of a PHP 7 process\<close>

definition zstr_at :: "target \<Rightarrow> u64 \<Rightarrow> bytes \<Rightarrow> bool" where
  "zstr_at T a s \<longleftrightarrow> T (a + 16) = word_of_nat (length s) \<and> length s < 4096 \<and>
     readable T (a + 24) (words_of (length s)) \<and> target_bytes T (a + 24) (length s) = s \<and> nul_free s"

lemma fetch_name_zstr:
  assumes "roomy E" and "pp_has_zend_string P" and "length buf = 4096" and "zstr_at T a s"
  shows "\<exists>buf'. fetch_name E T P a buf = Some (Some (mk_sds s), buf') \<and> length buf' = 4096"
proof -
  have len: "unat (T (a + 16)) = length s" using assms(4) by (simp add: zstr_at_def unat_of_nat)
  let ?buf = "s @ NUL # drop (Suc (length s)) buf"
  have "fetch_zstr T a buf = Some (int (length s), ?buf)"
    using fetch_loop_spec [of 0 "length s" buf T "a + 24"] assms(3,4) len
    by (simp add: fetch_zstr_def ptrace_fetch_str_def ptrace_fetch_long_def zstr_at_def)
  moreover have "sdsnew E (Some ?buf) = Some (Some (mk_sds s))"
    using sdsnew_str [OF assms(1), of ?buf] assms(4) by (simp add: zstr_at_def strlen_def)
  ultimately show ?thesis using assms(2,3,4) by (simp add: fetch_name_def sdsnew_buf_def zstr_at_def)
qed

text \<open>The name of the function and of its class in the process.\<close>

definition names_at :: "target \<Rightarrow> pt_ptrace_preset_t \<Rightarrow> u64 \<Rightarrow> bytes \<Rightarrow> bytes option \<Rightarrow> bool" where
  "names_at T P ex name cls \<longleftrightarrow> (let func = T (ex + EX_func P); scope = T (func + EX_FUNC_scope P) in
     T (func + EX_FUNC_name P) \<noteq> 0 \<and> zstr_at T (T (func + EX_FUNC_name P)) name \<and>
     (case cls of None \<Rightarrow> scope = 0 | Some c \<Rightarrow> scope \<noteq> 0 \<and> zstr_at T (T (scope + EX_FUNC_SCOPE_name P)) c))"

lemma ptrace_names_php7:
  assumes "roomy E" and "pp_has_zend_string P" and "length buf = 4096" and "names_at T P ex name cls"
  shows "\<exists>buf'. ptrace_names E T P ex opline buf f = Some (f\<lparr>fr_function := Some (mk_sds name),
      fr_class := (case cls of None \<Rightarrow> fr_class f | Some c \<Rightarrow> Some (mk_sds c)),
      fr_functype := fr_functype f OR (case cls of None \<Rightarrow> PT_FUNC_NORMAL
        | Some c \<Rightarrow> if T (ex + EX_This P) \<noteq> 0 then PT_FUNC_MEMBER else PT_FUNC_STATIC)\<rparr>, buf') \<and> length buf' = 4096"
proof -
  let ?func = "T (ex + EX_func P)"
  obtain b1 where b1: "fetch_name E T P (T (?func + EX_FUNC_name P)) buf = Some (Some (mk_sds name), b1)" "length b1 = 4096"
    using fetch_name_zstr [OF assms(1-3)] assms(4) by (fastforce simp: names_at_def Let_def)
  show ?thesis
  proof (cases cls)
    case None
    with b1 assms(4) show ?thesis by (simp add: ptrace_names_def ptrace_fetch_long_def names_at_def Let_def)
  next
    case (Some c)
    obtain b2 where "fetch_name E T P (T (T (?func + EX_FUNC_scope P) + EX_FUNC_SCOPE_name P)) b1 = Some (Some (mk_sds c), b2)"
      "length b2 = 4096" using fetch_name_zstr [OF assms(1,2) b1(2)] assms(4) Some by (fastforce simp: names_at_def Let_def)
    with b1 assms(4) Some show ?thesis by (simp add: ptrace_names_def ptrace_fetch_long_def names_at_def Let_def)
  qed
qed

text \<open>
  C35: The frame of a call of a named function or method in a PHP 7 process: name, class, kind of call,
  and the line and file of the caller are those in the memory of the process, for names shorter than
  4096 bytes.
\<close>

theorem ptrace_frame_php7:
  assumes "roomy E" and "pp_has_zend_string P" and "length buf = 4096" and "names_at T P ex name cls"
    and "caller = T (ex + EX_prev_execute_data P)" and "caller \<noteq> 0" and "opline = T (caller + EX_opline P)" and "opline \<noteq> 0"
    and "func = T (caller + EX_func P)" and "T (func + EX_FUNC_oparray_filename P) \<noteq> 0"
    and "zstr_at T (T (func + EX_FUNC_oparray_filename P)) path" and "ptrace_user_code (ucast (T func AND 0xFF))"
  shows "\<exists>f buf'. pt_ptrace_build_frame E T P ex buf = Some (f, buf') \<and> fr_type f = PT_FRAME_STACK \<and> fr_level f = 1 \<and>
    fr_function f = Some (mk_sds name) \<and> fr_class f = map_option mk_sds cls \<and>
    fr_functype f = (case cls of None \<Rightarrow> PT_FUNC_NORMAL
      | Some c \<Rightarrow> if T (ex + EX_This P) \<noteq> 0 then PT_FUNC_MEMBER else PT_FUNC_STATIC) \<and>
    fr_lineno f = ucast (T (opline + EX_OPLINE_lineno P)) \<and> fr_filename f = Some (mk_sds path)"
proof -
  let ?f = "zero_frame\<lparr>fr_type := PT_FRAME_STACK, fr_level := 1\<rparr>"
  obtain b1 where b1: "ptrace_names E T P ex opline buf ?f = Some (?f\<lparr>fr_function := Some (mk_sds name),
      fr_class := (case cls of None \<Rightarrow> fr_class ?f | Some c \<Rightarrow> Some (mk_sds c)),
      fr_functype := fr_functype ?f OR (case cls of None \<Rightarrow> PT_FUNC_NORMAL
        | Some c \<Rightarrow> if T (ex + EX_This P) \<noteq> 0 then PT_FUNC_MEMBER else PT_FUNC_STATIC)\<rparr>, b1)" "length b1 = 4096"
    using ptrace_names_php7 [OF assms(1-4), of opline ?f] by blast
  obtain b2 where b2: "fetch_name E T P (T (func + EX_FUNC_oparray_filename P)) b1 = Some (Some (mk_sds path), b2)"
    using fetch_name_zstr [OF assms(1,2) b1(2) assms(11)] by blast
  have low: "(ucast (w AND 0xFFFFFFFF) :: u32) = ucast w" for w :: u64
  proof -
    have m: "(0xFFFFFFFF :: u64) = mask 32" by (simp add: mask_eq_exp_minus_1)
    show ?thesis unfolding m by (auto intro!: bit_word_eqI simp: bit_simps)
  qed
  show ?thesis
    using b1 b2 assms by (simp add: pt_ptrace_build_frame_def ptrace_fetch_long_def fetch_int_def low zero_frame_def Let_def
        split: option.split)
qed

text \<open>A process with one call of a function \<open>f\<close> in a script named \<open>f\<close>.\<close>

definition sample_target :: target where
  "sample_target a = (if a = 0x1018 then 0x2000 else if a = 0x2008 then 0x3000 else if a = 0x1038 then 0x4000
     else if a = 0x4000 then 0x5000 else if a = 0x4018 then 0x6000 else if a = 0x6078 then 0x3000
     else if a = 0x5018 then 7 else if a = 0x3010 then 1 else if a = 0x3018 then 0x66 else 0)"

theorem ptrace_frame_php7_witness:
  "\<exists>f buf'. pt_ptrace_build_frame full_env sample_target preset_70012 0x1000 (replicate 4096 NUL) = Some (f, buf') \<and>
    fr_function f = Some (mk_sds ''f'') \<and> fr_class f = None \<and> fr_functype f = PT_FUNC_NORMAL \<and> fr_lineno f = 7 \<and>
    fr_filename f = Some (mk_sds ''f'')"
proof -
  have "char_of (102::nat) = CHR ''f''" by code_simp
  moreover have "words_of (Suc 0) = Suc 0" by (simp add: words_of_def)
  ultimately have z: "zstr_at sample_target 0x3000 ''f''"
    by (simp add: zstr_at_def sample_target_def target_bytes_def le_bytes_numeral)
  have P: "EX_func preset_70012 = 24" "EX_FUNC_scope preset_70012 = 16" "EX_FUNC_name preset_70012 = 8"
    "EX_prev_execute_data preset_70012 = 56" "EX_opline preset_70012 = 0" "EX_FUNC_oparray_filename preset_70012 = 120"
    "EX_OPLINE_lineno preset_70012 = 24" "pp_has_zend_string preset_70012" by (simp_all add: preset_70012_def)
  have "names_at sample_target preset_70012 0x1000 ''f'' None"
    using z by (simp add: names_at_def P) (simp add: sample_target_def)
  from ptrace_frame_php7 [OF _ P(8) _ this, of full_env "replicate 4096 NUL" "0x4000" "0x5000" "0x6000" "''f''"] z
  show ?thesis by (simp add: P) (force simp: sample_target_def ptrace_user_code_def)
qed

end
