(* ===== verification/Libc.thy ===== *)
theory Libc
  imports Trace_Prelude
begin

text \<open>
  The functions of the C library that the command line tool parses its input with: \<open>strtol\<close>, \<open>fgets\<close>,
  \<open>getopt_long\<close> with the options of \<open>src/cli.c\<close>, and \<open>getsubopt\<close>. They are definitions of the model
  and no component of the program.
\<close>

section \<open>Numbers\<close>

definition is_space :: "char \<Rightarrow> bool" where
  "is_space c \<longleftrightarrow> c = CHR '' '' \<or> (9 \<le> (of_char c :: nat) \<and> (of_char c :: nat) \<le> 13)"

definition isdigit :: "char \<Rightarrow> bool" where
  "isdigit c \<longleftrightarrow> 48 \<le> (of_char c :: nat) \<and> (of_char c :: nat) \<le> 57"

text \<open>The value of a digit, up to base 16; 16 for everything else.\<close>

definition digit_value :: "char \<Rightarrow> nat" where
  "digit_value c = (let n = of_char c :: nat in
     if 48 \<le> n \<and> n \<le> 57 then n - 48 else if 97 \<le> n \<and> n \<le> 102 then n - 87 else if 65 \<le> n \<and> n \<le> 70 then n - 55 else 16)"

definition digits_value :: "nat \<Rightarrow> bytes \<Rightarrow> nat" where
  "digits_value base ds = foldl (\<lambda>v c. v * base + digit_value c) 0 ds"

text \<open>The prefix \<open>0x\<close> counts only with a digit after it.\<close>

definition hex_prefix :: "bytes \<Rightarrow> bytes" where
  "hex_prefix s = (case s of
     z # x # d # r \<Rightarrow> if z = CHR ''0'' \<and> x \<in> {CHR ''x'', CHR ''X''} \<and> digit_value d < 16 then d # r else s | _ \<Rightarrow> s)"

text \<open>The value, what is left of the string at \<open>*endptr\<close>, and whether \<open>errno\<close> is set to \<open>ERANGE\<close>.\<close>

definition strtol :: "nat \<Rightarrow> bytes \<Rightarrow> int \<times> bytes \<times> bool" where
  "strtol base str =
     (let s = dropWhile is_space (cstr str);
          neg = (take 1 s = ''-'');
          s = (if take 1 s \<in> {''-'', ''+''} then drop 1 s else s);
          s = (if base = 16 then hex_prefix s else s);
          ds = takeWhile (\<lambda>c. digit_value c < base) s;
          v = (if neg then - int (digits_value base ds) else int (digits_value base ds))
      in if ds = [] then (0, cstr str, False)
         else (max (- (2 ^ 63)) (min (2 ^ 63 - 1) v), dropWhile (\<lambda>c. digit_value c < base) s, v < - (2 ^ 63) \<or> 2 ^ 63 \<le> v))"

section \<open>Lines\<close>

text \<open>\<open>fgets(buf, n, fp)\<close> on what is left of a stream: the line, and the stream after it. \<open>None\<close> at the end.\<close>

definition fgets :: "nat \<Rightarrow> bytes \<Rightarrow> bytes option \<times> bytes" where
  "fgets n s =
     (if s = [] then (None, [])
      else let line = takeWhile (\<lambda>c. c \<noteq> CHR 0x0A) s;
               line = (if length line < length s then line @ [CHR 0x0A] else line);
               line = take (n - 1) line
           in (Some line, drop (length line) s))"

section \<open>Options\<close>

text \<open>
  \<open>getopt_long(argc, argv, "vhp:f:l:", long_opts, ...)\<close>: the options in the order in which the calls
  return them. Arguments that are no options are passed over, \<open>--\<close> ends the options.
\<close>

datatype opt = Opt char "bytes option" | Opt_Ptrace | Opt_Bad

datatype has_arg = No_Arg | Required

definition short_opts :: "char \<Rightarrow> has_arg option" where
  "short_opts c = (if c \<in> {CHR ''v'', CHR ''h''} then Some No_Arg
     else if c \<in> {CHR ''p'', CHR ''f'', CHR ''l''} then Some Required else None)"

definition long_opts :: "(bytes \<times> has_arg \<times> (bytes option \<Rightarrow> opt)) list" where
  "long_opts = [(''pid'', Required, Opt (CHR ''p'')), (''help'', No_Arg, Opt (CHR ''h'')), (''verbose'', No_Arg, Opt (CHR ''v'')),
     (''ptrace'', No_Arg, \<lambda>_. Opt_Ptrace), (''filter'', Required, Opt (CHR ''f'')), (''limit'', Required, Opt (CHR ''l''))]"

text \<open>An exact name, or a prefix of exactly one.\<close>

definition find_long :: "bytes \<Rightarrow> (has_arg \<times> (bytes option \<Rightarrow> opt)) option" where
  "find_long name = (case map_of long_opts name of
     Some x \<Rightarrow> Some x
   | None \<Rightarrow> (case filter (\<lambda>(n, _). take (length name) n = name) long_opts of [(_, x)] \<Rightarrow> Some x | _ \<Rightarrow> None))"

text \<open>A cluster of short options: what it gives, and whether it takes the next argument.\<close>

fun short_cluster :: "bytes \<Rightarrow> bytes list \<Rightarrow> opt list \<times> bytes list" where
  "short_cluster [] rest = ([], rest)"
| "short_cluster (c # cs) rest = (case short_opts c of
     None \<Rightarrow> (case short_cluster cs rest of (os, r) \<Rightarrow> (Opt_Bad # os, r))
   | Some No_Arg \<Rightarrow> (case short_cluster cs rest of (os, r) \<Rightarrow> (Opt c None # os, r))
   | Some Required \<Rightarrow>
       if cs \<noteq> [] then ([Opt c (Some cs)], rest)
       else case rest of [] \<Rightarrow> ([Opt_Bad], []) | a # r \<Rightarrow> ([Opt c (Some a)], r))"

definition long_option :: "bytes \<Rightarrow> bytes list \<Rightarrow> opt \<times> bytes list" where
  "long_option s rest =
     (let name = takeWhile (\<lambda>c. c \<noteq> CHR ''='') s;
          value = (if length name < length s then Some (drop (length name + 1) s) else None)
      in case find_long name of
        None \<Rightarrow> (Opt_Bad, rest)
      | Some (No_Arg, f) \<Rightarrow> (if value = None then f None else Opt_Bad, rest)
      | Some (Required, f) \<Rightarrow> (case value of Some v \<Rightarrow> (f (Some v), rest)
          | None \<Rightarrow> (case rest of [] \<Rightarrow> (Opt_Bad, []) | a # r \<Rightarrow> (f (Some a), r))))"

lemma short_cluster_rest: "length (snd (short_cluster cs rest)) \<le> length rest"
  by (induction cs rest rule: short_cluster.induct) (auto split: option.splits has_arg.splits prod.splits list.splits)

lemma long_option_rest: "length (snd (long_option s rest)) \<le> length rest"
  by (auto simp: long_option_def Let_def split: option.splits has_arg.splits prod.splits list.splits)

function getopt_long :: "bytes list \<Rightarrow> opt list" where
  "getopt_long [] = []"
| "getopt_long (a # rest) =
     (if a = ''--'' then []
      else if take 2 a = ''--'' then case long_option (drop 2 a) rest of (x, r) \<Rightarrow> x # getopt_long r
      else if take 1 a = ''-'' \<and> a \<noteq> ''-'' then case short_cluster (drop 1 a) rest of (xs, r) \<Rightarrow> xs @ getopt_long r
      else getopt_long rest)"
  by pat_completeness auto
termination
  by (relation "measure length") (auto, (metis long_option_rest less_Suc_eq_le snd_conv), (metis short_cluster_rest less_Suc_eq_le snd_conv))

text \<open>
  \<open>getsubopt\<close> on a string that is not empty: the index of the token, its value, and what is left. The
  value of an unknown token is the whole part.
\<close>

definition getsubopt :: "bytes list \<Rightarrow> bytes \<Rightarrow> nat option \<times> bytes option \<times> bytes" where
  "getsubopt tokens s =
     (let part = takeWhile (\<lambda>c. c \<noteq> CHR '','') s;
          rest = drop (length part + 1) s;
          name = takeWhile (\<lambda>c. c \<noteq> CHR ''='') part;
          value = (if length name < length part then Some (drop (length name + 1) part) else None)
      in if name \<in> set tokens then (Some (length (takeWhile (\<lambda>t. t \<noteq> name) tokens)), value, rest) else (None, Some part, rest))"

lemma getsubopt_rest: "s \<noteq> [] \<Longrightarrow> length (snd (snd (getsubopt tokens s))) < length s"
  by (auto simp: getsubopt_def Let_def)

section \<open>Decimal numbers\<close>

text \<open>What \<open>printf\<close> writes with \<open>%d\<close>, \<open>strtol\<close> reads.\<close>

lemma digit_value_dec: "d < 10 \<Longrightarrow> digit_value (char_of (48 + d)) = d"
  by (simp add: digit_value_def Let_def)

lemma digits_value_append: "digits_value base (xs @ [c]) = digits_value base xs * base + digit_value c"
  by (simp add: digits_value_def)

lemma dec_nat_digits: "list_all (\<lambda>c. digit_value c < 10) (dec_nat n) \<and> digits_value 10 (dec_nat n) = n \<and> dec_nat n \<noteq> []"
proof (induction n rule: dec_nat.induct)
  case (1 n)
  show ?case
  proof (cases "n < 10")
    case True
    then show ?thesis by (simp add: dec_nat.simps [of n] digit_value_dec digits_value_def)
  next
    case False
    with 1 show ?thesis by (simp add: dec_nat.simps [of n] digit_value_dec digits_value_append)
  qed
qed

lemma digit_not_sign: "digit_value c < 10 \<Longrightarrow> \<not> is_space c \<and> c \<noteq> CHR ''-'' \<and> c \<noteq> CHR ''+''"
  by (auto simp: digit_value_def is_space_def Let_def split: if_splits)

lemma strtol_dec: "strtol 10 (dec_nat n) = (min (2 ^ 63 - 1) (int n), [], 2 ^ 63 \<le> int n)"
proof -
  obtain c s where s: "dec_nat n = c # s" using dec_nat_digits [of n] by (cases "dec_nat n") auto
  have all: "list_all (\<lambda>c. digit_value c < 10) (c # s)" "digits_value 10 (c # s) = n" using dec_nat_digits [of n] s by auto
  have c: "\<not> is_space c" "c \<noteq> CHR ''-''" "c \<noteq> CHR ''+''" using digit_not_sign [of c] all(1) by auto
  have tw: "takeWhile (\<lambda>c. digit_value c < 10) (c # s) = c # s" "dropWhile (\<lambda>c. digit_value c < 10) (c # s) = []"
    using all(1) by (auto simp: list_all_iff takeWhile_eq_all_conv dropWhile_eq_Nil_conv)
  have nul: "cstr (c # s) = c # s" using nul_free_dec_nat [of n] s by (simp del: nul_free_dec_nat)
  have sp: "dropWhile is_space (c # s) = c # s" using c(1) by simp
  show ?thesis unfolding s strtol_def nul sp using c all(2) by (simp add: Let_def tw del: takeWhile.simps dropWhile.simps)
qed

end
