(* ===== verification/Cli_Status.thy ===== *)
theory Cli_Status
  imports Cli_Peers Cli_Ptrace Libc
begin

unbundle bit_operations_syntax

text \<open>
  The \<open>status\<close> command of the tool (\<open>src/status.c\<close>): asking the extension over the socket, and reading
  the process from outside when that fails.

  What the programs that \<open>get_php_info\<close> starts print, and what the process looks like to \<open>ptrace\<close>, are
  parameters. The result is \<open>None\<close> for undefined behaviour and for a walk that does not end.
\<close>

section \<open>Finding out about the process\<close>

definition PATH_MAX :: nat where "PATH_MAX = 4096"
definition BUFSIZ :: nat where "BUFSIZ = 8192"

record php_info =
  pi_version :: int
  pi_sapi_module :: u64
  pi_sapi_globals :: u64
  pi_executor_globals :: u64

text \<open>The link \<open>/proc/<pid>/exe\<close>, the outputs of the two commands (\<open>None\<close>: \<open>popen\<close> fails), and \<open>ptrace\<close>.\<close>

record proc_env =
  pe_mem :: mem_env
  pe_link :: "bytes option"
  pe_version :: "bytes option"
  pe_gdb :: "bytes option"
  pe_buf :: bytes
  pe_attach :: bool
  pe_detach :: bool
  pe_target :: target
  pe_to_long :: "u64 \<Rightarrow> int"
  pe_rbuf :: bytes
  pe_fbuf :: bytes

text \<open>A string written into the array \<open>buf\<close>; what was behind it stays.\<close>

definition write_line :: "bytes \<Rightarrow> bytes \<Rightarrow> bytes option" where
  "write_line s buf = (if length s < length buf then Some (s @ NUL # drop (length s + 1) buf) else None)"

definition schar :: "char \<Rightarrow> int" where
  "schar c = (let n = int (of_char c) in if n < 128 then n else n - 256)"

text \<open>The version string, at least five characters long, as a number; \<open>None\<close> when it is refused.\<close>

definition version_id :: "bytes \<Rightarrow> int option" where
  "version_id buf =
     (if strlen buf < 5 \<or> buf ! 0 \<noteq> CHR ''7'' \<and> buf ! 0 \<noteq> CHR ''5'' \<or> buf ! 1 \<noteq> CHR ''.'' \<or> buf ! 3 \<noteq> CHR ''.'' then None
      else Some ((schar (buf ! 0) - 48) * 10000 + (schar (buf ! 2) - 48) * 100 +
        (if isdigit (buf ! 5) then (schar (buf ! 4) - 48) * 10 + (schar (buf ! 5) - 48) else schar (buf ! 4) - 48)))"

definition set_global :: "char \<Rightarrow> u64 \<Rightarrow> php_info \<Rightarrow> php_info" where
  "set_global c addr info =
     (if c = CHR ''1'' then info\<lparr>pi_sapi_module := addr\<rparr>
      else if c = CHR ''2'' then info\<lparr>pi_sapi_globals := addr\<rparr>
      else if c = CHR ''3'' then info\<lparr>pi_executor_globals := addr\<rparr>
      else info)"

lemma fgets_shorter: "fgets BUFSIZ s = (Some line, r) \<Longrightarrow> length r < length s"
  by (cases s) (auto simp: fgets_def BUFSIZ_def Let_def min_def split: if_splits)

function global_loop :: "bytes \<Rightarrow> bytes \<Rightarrow> php_info \<Rightarrow> (int \<times> php_info) option" where
  "global_loop buf s info =
     (case fgets BUFSIZ s of
        (None, _) \<Rightarrow> Some (0, info)
      | (Some line, r) \<Rightarrow> do {
          buf \<leftarrow> write_line line buf;
          let addr = fst (strtol 16 (drop 4 buf));
          if addr = 0 then Some (-1, info)
          else global_loop buf r (set_global (buf ! 1) (word_of_int addr) info)
        })"
  by pat_completeness auto
termination
  by (relation "measure (\<lambda>(buf, s, info). length s)") (auto dest: fgets_shorter [OF sym] fgets_shorter)

declare global_loop.simps [simp del]

definition looks_like_php :: "bytes \<Rightarrow> bool" where
  "looks_like_php binary \<longleftrightarrow> 3 \<le> length binary \<and> drop (length binary - 3) binary = ''php''"

definition quoted :: "bytes \<Rightarrow> bytes" where
  "quoted s = CHR 0x27 # s @ [CHR 0x27]"

definition version_command :: "bytes \<Rightarrow> bytes" where
  "version_command binary = cstr binary @ '' -v | awk '' @ quoted ''NR == 1 {print $2}''"

definition gdb_command :: "bytes \<Rightarrow> int \<Rightarrow> bytes" where
  "gdb_command binary pid = ''gdb --batch -nx '' @ cstr binary @ '' '' @ dec_int pid @
     '' -ex '' @ quoted ''p &sapi_module'' @ '' -ex '' @ quoted ''p &sapi_globals'' @ '' -ex '' @ quoted ''p &executor_globals'' @
     '' 2>/dev/null | awk '' @ quoted (''$1 ~ /^'' @ [CHR 0x5C] @ ''$/ {print $1 $(NF-1)}'')"

text \<open>A \<open>binary\<close> of less than three bytes has a header byte, which is NUL, where the suffix would begin.\<close>

definition get_php_info :: "proc_env \<Rightarrow> int \<Rightarrow> tool \<Rightarrow> (int \<times> php_info \<times> tool) option" where
  "get_php_info P pid st = do {
     let info = \<lparr>pi_version = 0, pi_sapi_module = 0, pi_sapi_globals = 0, pi_executor_globals = 0\<rparr>;
     case pe_link P of
       None \<Rightarrow> Some (-1, info, st)
     | Some binary \<Rightarrow>
         if PATH_MAX \<le> length binary then Some (-1, info, st)
         else if \<not> alloc_ok (pe_mem P) (hdr_size (length binary)) then None
         else if \<not> looks_like_php binary then Some (-1, info, pt_log PT_ERROR st)
         else do {
           let st = pt_log PT_INFO st;
           buf \<leftarrow> write_line (version_command binary) (pe_buf P);
           let st = pt_log PT_DEBUG st;
           case pe_version P of
             None \<Rightarrow> Some (-1, info, st)
           | Some output \<Rightarrow> do {
               buf \<leftarrow> (case fst (fgets BUFSIZ output) of None \<Rightarrow> Some buf | Some line \<Rightarrow> write_line line buf);
               case version_id buf of
                 None \<Rightarrow> Some (-1, info, pt_log PT_ERROR st)
               | Some v \<Rightarrow> do {
                   let info = info\<lparr>pi_version := v\<rparr>;
                   let st = pt_log PT_INFO st;
                   buf \<leftarrow> write_line (gdb_command binary pid) buf;
                   let st = pt_log PT_DEBUG st;
                   case pe_gdb P of
                     None \<Rightarrow> Some (-1, info, st)
                   | Some output \<Rightarrow> do {
                       (rc, info) \<leftarrow> global_loop buf output info;
                       if rc = -1 then Some (-1, info, pt_log PT_ERROR st)
                       else Some (0, info, pt_log PT_INFO (pt_log PT_INFO (pt_log PT_INFO st)))
                     }
                 }
             }
         }
   }"

section \<open>The status from outside\<close>

definition status_detach :: "proc_env \<Rightarrow> int \<Rightarrow> tool \<Rightarrow> int \<times> tool" where
  "status_detach P ret st = (if \<not> pe_detach P then (-1, pt_log PT_ERROR st) else (ret, pt_log PT_INFO st))"

definition status_ptrace :: "proc_env \<Rightarrow> tool \<Rightarrow> (int \<times> tool) option" where
  "status_ptrace P st = do {
     (rc, info, st) \<leftarrow> get_php_info P (cx_pid (tl_ctx st)) st;
     if rc = -1 then Some (-1, pt_log PT_ERROR st)
     else do {
       preset \<leftarrow> pt_ptrace_preset (pi_version info) (pi_sapi_module info) (pi_sapi_globals info) (pi_executor_globals info);
       case preset of
         None \<Rightarrow> Some (-1, pt_log PT_ERROR st)
       | Some preset \<Rightarrow>
           if \<not> pe_attach P then Some (-1, pt_log PT_ERROR st)
           else do {
             let st = pt_log PT_INFO st;
             let addr = pt_ptrace_fetch_current_ex (pe_target P) preset;
             if addr = -1 \<or> addr = 0 then Some (status_detach P (-1) (pt_log PT_ERROR st))
             else do {
               s \<leftarrow> pt_ptrace_build_status (pe_mem P) (pe_to_long P) (pe_target P) preset addr (pi_version info) (pe_rbuf P) (pe_fbuf P);
               Some (status_detach P 0 (say (Out_Status s) st))
             }
           }
     }
   }"

section \<open>The status from the extension\<close>

text \<open>The end of \<open>status_ext\<close>: a descriptor of 0 stands for none.\<close>

definition status_deinit :: "int \<Rightarrow> int \<Rightarrow> tool \<Rightarrow> (int \<times> tool) option" where
  "status_deinit cfd ret st = do {
     let st = (if cfd \<noteq> 0 then tool_close cfd st else st);
     fs \<leftarrow> pt_ctrl_set_inactive (cx_ctrl (tl_ctx st)) (cx_pid (tl_ctx st)) (tl_files st);
     Some (ret, st\<lparr>tl_files := fs\<rparr>)
   }"

definition status_recv :: "mem_env \<Rightarrow> int \<Rightarrow> tool \<Rightarrow> (int \<times> tool) option" where
  "status_recv E cfd st = do {
     (c, st) \<leftarrow> tool_recv E cfd st;
     if c = PT_MSG_STATUS then do {
       msg \<leftarrow> bf_data (tl_buf st);
       (s, _) \<leftarrow> pt_type_unpack_status E (msg_data msg);
       status_deinit cfd 0 (say (Out_Status s) st)
     }
     else status_deinit cfd (-1) (pt_log PT_ERROR st)
   }"

text \<open>The answer of a \<open>select\<close> on one descriptor, and what follows when it is ready.\<close>

definition status_wait :: "select_result \<Rightarrow> int \<Rightarrow> (tool \<Rightarrow> (int \<times> tool) option) \<Rightarrow> tool \<Rightarrow> (int \<times> tool) option" where
  "status_wait sel cfd cont st =
     (case sel of
        Sel_EINTR \<Rightarrow> status_deinit cfd 0 st
      | Sel_Error \<Rightarrow> status_deinit cfd (-1) (pt_log PT_ERROR st)
      | Sel_Timeout \<Rightarrow> status_deinit cfd (-2) (pt_log PT_WARNING st)
      | Sel_Ready ready \<Rightarrow> cont st)"

definition status_ask :: "mem_env \<Rightarrow> select_result \<Rightarrow> tool \<Rightarrow> (int \<times> tool) option" where
  "status_ask E sel st = do {
     let (cfd, w) = pt_comm_accept (cx_sfd (tl_ctx st)) (tl_net st);
     let st = pt_log PT_INFO (st\<lparr>tl_net := w\<rparr>);
     (rc, st) \<leftarrow> tool_send_type E cfd PT_MSG_DO_STATUS st;
     if rc = -1 then status_deinit cfd (-1) (pt_log PT_ERROR st)
     else do {
       _ \<leftarrow> FD_SET cfd (\<lambda>_. False);
       status_wait sel cfd (status_recv E cfd) st
     }
   }"

definition status_ext :: "mem_env \<Rightarrow> select_result \<Rightarrow> select_result \<Rightarrow> tool \<Rightarrow> (int \<times> tool) option" where
  "status_ext E sel1 sel2 st = do {
     _ \<leftarrow> FD_SET (cx_sfd (tl_ctx st)) (\<lambda>_. False);
     fs \<leftarrow> pt_ctrl_set_active (cx_ctrl (tl_ctx st)) (cx_pid (tl_ctx st)) (tl_files st);
     status_wait sel1 0 (status_ask E sel2) (st\<lparr>tl_files := fs\<rparr>)
   }"

section \<open>The command\<close>

definition pt_status_main :: "mem_env \<Rightarrow> proc_env \<Rightarrow> select_result \<Rightarrow> select_result \<Rightarrow> tool \<Rightarrow> (int \<times> tool) option" where
  "pt_status_main E P sel1 sel2 st =
     (if cx_ptrace (tl_ctx st) then status_ptrace P st
      else do {
        (ret, st) \<leftarrow> status_ext E sel1 sel2 st;
        if ret = -1 then status_ptrace P (say (Out_Text (''Retry with ptrace...'' @ newline)) (say (Out_Text (''Fetch status error'' @ newline)) st))
        else if ret = -2 then status_ptrace P (say (Out_Text (''Retry with ptrace...'' @ newline))
          (say (Out_Text (''Operation timed out, no response received, make sure PHP process is active and extension already installed.'' @ newline)) st))
        else Some (ret, st)
      })"

section \<open>Ending cleanly\<close>

text \<open>
  What holds at the end of \<open>status_ext\<close>: the flag of the process is off, the others are as in \<open>st\<close>, and
  exactly the descriptors of \<open>st\<close> are open.
\<close>

definition status_post :: "tool \<Rightarrow> int \<Rightarrow> tool \<Rightarrow> bool" where
  "status_post st ret st' \<longleftrightarrow> ret \<in> {0, -1, -2} \<and> tool_inv st' \<and> tl_ctx st' = tl_ctx st \<and>
     (\<forall>fd. nt_fds (tl_net st') fd = None \<longleftrightarrow> nt_fds (tl_net st) fd = None) \<and>
     (\<forall>p. pid_ok p \<longrightarrow> pt_ctrl_is_active (cx_ctrl (tl_ctx st)) p (tl_files st') =
       (if p = cx_pid (tl_ctx st) then Some False else pt_ctrl_is_active (cx_ctrl (tl_ctx st)) p (tl_files st)))"

text \<open>The states in between: the flag of the process may be on, and \<open>cfd\<close> is the only new descriptor.\<close>

definition status_mid :: "tool \<Rightarrow> int \<Rightarrow> tool \<Rightarrow> bool" where
  "status_mid st cfd st' \<longleftrightarrow> tool_inv st' \<and> tl_ctx st' = tl_ctx st \<and> ctrl_ok (cx_ctrl (tl_ctx st)) (tl_files st') \<and>
     (cfd = 0 \<or> nt_fds (tl_net st) cfd = None) \<and>
     (\<forall>fd. fd \<noteq> cfd \<or> cfd = 0 \<longrightarrow> (nt_fds (tl_net st') fd = None \<longleftrightarrow> nt_fds (tl_net st) fd = None)) \<and>
     (\<forall>p. pid_ok p \<and> p \<noteq> cx_pid (tl_ctx st) \<longrightarrow>
       pt_ctrl_is_active (cx_ctrl (tl_ctx st)) p (tl_files st') = pt_ctrl_is_active (cx_ctrl (tl_ctx st)) p (tl_files st))"

lemma status_mid_log [simp]: "status_mid st cfd (pt_log l st') \<longleftrightarrow> status_mid st cfd st'" "status_mid st cfd (say x st') \<longleftrightarrow> status_mid st cfd st'"
  by (simp_all add: status_mid_def)

lemma status_mid_same:
  assumes "status_mid st cfd st1" and "tool_inv st2" and "same_tool st1 st2" and "tl_ctx st2 = tl_ctx st1"
  shows "status_mid st cfd st2"
  using assms by (simp add: status_mid_def same_tool_def same_shape_def)

lemma deinit_post:
  assumes "status_mid st cfd st1" and "pid_ok (cx_pid (tl_ctx st))" and "ret \<in> {0, -1, -2}"
  shows "\<exists>st'. status_deinit cfd ret st1 = Some (ret, st') \<and> status_post st ret st' \<and> tl_out st' = tl_out st1"
proof -
  define st2 where "st2 = (if cfd \<noteq> 0 then tool_close cfd st1 else st1)"
  have st2: "tl_ctx st2 = tl_ctx st1" "tl_files st2 = tl_files st1" "tool_inv st2" "tl_out st2 = tl_out st1"
    "\<forall>fd. nt_fds (tl_net st2) fd = None \<longleftrightarrow> nt_fds (tl_net st) fd = None"
    using assms(1) tool_close_inv [of st1 cfd] by (auto simp: st2_def status_mid_def)
  have ctx: "tl_ctx st1 = tl_ctx st" "ctrl_ok (cx_ctrl (tl_ctx st)) (tl_files st1)" using assms(1) by (simp_all add: status_mid_def)
  from ctrl_put_spec [OF ctx(2) assms(2), of False] obtain fs where
    fs: "pt_ctrl_set_inactive (cx_ctrl (tl_ctx st)) (cx_pid (tl_ctx st)) (tl_files st1) = Some fs"
      "\<forall>q. pid_ok q \<longrightarrow> pt_ctrl_is_active (cx_ctrl (tl_ctx st)) q fs =
        (if q = cx_pid (tl_ctx st) then Some False else pt_ctrl_is_active (cx_ctrl (tl_ctx st)) q (tl_files st1))"
    by (auto simp: ctrl_put_def)
  have "status_deinit cfd ret st1 = Some (ret, st2\<lparr>tl_files := fs\<rparr>)"
    using fs(1) st2 ctx by (simp add: status_deinit_def flip: st2_def)
  moreover have "status_post st ret (st2\<lparr>tl_files := fs\<rparr>)"
    using assms(1,3) st2 ctx fs(2) by (simp add: status_post_def status_mid_def tool_inv_def)
  ultimately show ?thesis using st2(4) by simp
qed

lemma wait_post:
  assumes "status_mid st cfd st1" and "pid_ok (cx_pid (tl_ctx st))"
    and "\<exists>ret st'. cont st1 = Some (ret, st') \<and> status_post st ret st'"
  shows "\<exists>ret st'. status_wait sel cfd cont st1 = Some (ret, st') \<and> status_post st ret st'"
  using assms deinit_post [OF assms(1,2), of 0] deinit_post [OF _ assms(2), of cfd "pt_log PT_ERROR st1" "-1"]
    deinit_post [OF _ assms(2), of cfd "pt_log PT_WARNING st1" "-2"]
  by (cases sel) (auto simp: status_wait_def)

lemma tool_recv_ctx: "tool_recv E fd st = Some (c, st') \<Longrightarrow> tl_ctx st' = tl_ctx st"
  by (auto simp: tool_recv_def bind_eq_Some_conv split: prod.splits if_splits)

lemma status_recv_post:
  assumes "roomy E" and "status_mid st cfd st1" and "pid_ok (cx_pid (tl_ctx st))"
  shows "\<exists>ret st'. status_recv E cfd st1 = Some (ret, st') \<and> status_post st ret st'"
proof -
  have "tool_inv st1" using assms(2) by (simp add: status_mid_def)
  from tool_recv_polite [OF assms(1) this, of cfd] obtain c st2 where
    r: "tool_recv E cfd st1 = Some (c, st2)" "tool_inv st2" "same_tool st1 st2"
      "c = PT_MSG_PEERDOWN \<or> c = PT_MSG_EMPTY \<or> c = PT_MSG_ERR_SOCK \<or>
       (\<exists>m pid r. peer_ok m \<and> c = peer_type m \<and> bf_data (tl_buf st2) = Some (enc_msg (peer_type m) pid (peer_body m) @ r))"
    by blast
  have mid: "status_mid st cfd st2" by (rule status_mid_same [OF assms(2) r(2,3) tool_recv_ctx [OF r(1)]])
  show ?thesis
  proof (cases "c = PT_MSG_STATUS")
    case False
    then show ?thesis using deinit_post [OF _ assms(3), of cfd "pt_log PT_ERROR st2" "-1"] mid r(1)
      by (auto simp: status_recv_def)
  next
    case True
    with r(4) obtain m pid q where m: "peer_ok m" "peer_type m = PT_MSG_STATUS"
      "bf_data (tl_buf st2) = Some (enc_msg (peer_type m) pid (peer_body m) @ q)" by (auto simp: msg_codes)
    then obtain s where s: "m = Status_Msg s" "status_ok s" by (cases m) (auto simp: msg_codes)
    have "pt_type_unpack_status E (msg_data (enc_msg (peer_type m) pid (peer_body m) @ q)) = Some (img_status s, q)"
      using status_unpack_enc [OF s(2) assms(1)] s(1) by simp
    with True r(1) m(3) deinit_post [OF _ assms(3), of cfd "say (Out_Status (img_status s)) st2" 0] mid show ?thesis
      by (auto simp: status_recv_def)
  qed
qed

lemma dead_send: "nt_fds w fd = None \<Longrightarrow> fd_send_msg fd (enc_msg t pid body @ r) w = Some (-1, w)"
  by (simp add: fd_send_msg_def pt_comm_send_msg_def dead_sock_def sock_send_def enc_msg_def)

lemma send_type_ctx: "tool_send_type E fd t st = Some (rc, st') \<Longrightarrow> tl_ctx st' = tl_ctx st"
  by (auto simp: tool_send_type_def bind_eq_Some_conv split: if_splits)

lemma accept_outcome:
  assumes "net_ok w" and "pt_comm_accept fd w = (cfd, w')"
  shows "(cfd = -1 \<and> nt_fds w' = nt_fds w \<and> nt_next w' = nt_next w) \<or> (cfd = nt_next w \<and> (\<exists>k. nt_fds w' = (nt_fds w)(cfd \<mapsto> k)) \<and> nt_next w' = nt_next w + 1)"
  using assms by (auto simp: pt_comm_accept_def fd_open_def split: if_splits list.splits option.splits)

lemma status_ask_post:
  assumes "roomy E" and "status_mid st 0 st1" and "pid_ok (cx_pid (tl_ctx st))" and "0 < nt_next (tl_net st1)"
    and "nt_next (tl_net st1) < FD_SETSIZE"
  shows "\<exists>ret st'. status_ask E sel st1 = Some (ret, st') \<and> status_post st ret st'"
proof -
  have inv: "tool_inv st1" using assms(2) by (simp add: status_mid_def)
  then have ok: "net_ok (tl_net st1)" by (simp add: tool_inv_def)
  obtain cfd w where a: "pt_comm_accept (cx_sfd (tl_ctx st1)) (tl_net st1) = (cfd, w)" by force
  note out = accept_outcome [OF ok a]
  have none: "nt_fds (tl_net st1) (-1) = None" "nt_fds (tl_net st1) (nt_next (tl_net st1)) = None" using ok by (simp_all add: net_ok_def)
  have "net_ok w" using out ok by (auto simp: net_ok_def)
  moreover have "peer_net w" using peers.accept_polite [OF _ a] inv by (simp add: tool_inv_def)
  ultimately have inv1: "tool_inv (pt_log PT_INFO (st1\<lparr>tl_net := w\<rparr>))" using inv by (simp add: tool_inv_def)
  let ?st1 = "pt_log PT_INFO (st1\<lparr>tl_net := w\<rparr>)"
  have mid: "status_mid st cfd ?st1"
    using assms(2,4) inv1 out none by (auto simp: status_mid_def tool_inv_def)
  from send_type_spec [OF assms(1) inv1, of cfd PT_MSG_DO_STATUS] obtain pid r where
    s: "tool_send_type E cfd PT_MSG_DO_STATUS ?st1 = do {
      (rc, w) \<leftarrow> fd_send_msg cfd (enc_msg PT_MSG_DO_STATUS pid [] @ r) (tl_net ?st1);
      Some (rc, ?st1\<lparr>tl_net := w, tl_buf := data_buf (enc_msg PT_MSG_DO_STATUS pid [] @ r)\<rparr>) }" by blast
  obtain rc st2 where st2: "tool_send_type E cfd PT_MSG_DO_STATUS ?st1 = Some (rc, st2)" "tool_inv st2" "same_tool ?st1 st2"
    using send_type_inv [OF assms(1) inv1] by blast
  have mid2: "status_mid st cfd st2" by (rule status_mid_same [OF mid st2(2,3) send_type_ctx [OF st2(1)]])
  show ?thesis
  proof (cases "rc = -1")
    case True
    then show ?thesis using deinit_post [OF _ assms(3), of cfd "pt_log PT_ERROR st2" "-1"] mid2 st2(1) a
      by (auto simp: status_ask_def)
  next
    case False
    have "cfd \<noteq> -1"
    proof
      assume "cfd = -1"
      then have "nt_fds w cfd = None" using out none assms(4) by auto
      with s st2(1) False show False by (simp add: dead_send)
    qed
    then have "0 \<le> cfd \<and> cfd < FD_SETSIZE" using out assms(4,5) by auto
    then have "status_ask E sel st1 = status_wait sel cfd (status_recv E cfd) st2"
      using a st2(1) False by (simp add: status_ask_def FD_SET_def)
    with wait_post [where cont = "status_recv E cfd" and sel = sel, OF mid2 assms(3) status_recv_post [OF assms(1) mid2 assms(3)]] show ?thesis by simp
  qed
qed

section \<open>Properties of the status command\<close>


text \<open>
  A status that the process sends is the status that is shown. When the process connects, takes the
  command and answers with its status, in whatever pieces the stream delivers it, exactly this status
  is displayed, every string of it as the process has it, and the command succeeds without touching
  the process with \<open>ptrace\<close>.
\<close>

lemma status_main_shown:
  assumes "roomy E" and "tool_inv st" and "ctrl_ok (cx_ctrl (tl_ctx st)) (tl_files st)" and "pid_ok (cx_pid (tl_ctx st))"
    and "0 \<le> cx_sfd (tl_ctx st)" and "cx_sfd (tl_ctx st) < FD_SETSIZE" and "0 < nt_next (tl_net st)" and "nt_next (tl_net st) < FD_SETSIZE"
    and "nt_fds (tl_net st) (cx_sfd (tl_ctx st)) \<noteq> None" and "nt_accepts (tl_net st) = Some k # as" and "sk_fails k = []"
    and "sk_in k = map Chunk cs @ rest" and "delivery_ok (cs, pid, Status_Msg s)" and "\<not> cx_ptrace (tl_ctx st)"
  shows "\<exists>st'. pt_status_main E P (Sel_Ready r1) (Sel_Ready r2) st = Some (0, st') \<and>
    printed (tl_out st') = printed (tl_out st) @ [Out_Status (img_status s)]"
proof -
  from ctrl_put_spec [OF assms(3,4), of True] obtain fs where
    fs: "pt_ctrl_set_active (cx_ctrl (tl_ctx st)) (cx_pid (tl_ctx st)) (tl_files st) = Some fs" "ctrl_ok (cx_ctrl (tl_ctx st)) fs"
      "\<forall>q. pid_ok q \<longrightarrow> pt_ctrl_is_active (cx_ctrl (tl_ctx st)) q fs =
        (if q = cx_pid (tl_ctx st) then Some True else pt_ctrl_is_active (cx_ctrl (tl_ctx st)) q (tl_files st))"
    by (auto simp: ctrl_put_def)
  let ?w = "tl_net st" and ?cfd = "nt_next (tl_net st)"
  define w where "w = snd (pt_comm_accept (cx_sfd (tl_ctx st)) ?w)"
  have a: "pt_comm_accept (cx_sfd (tl_ctx st)) ?w = (?cfd, w)" using assms(9,10) by (auto simp: w_def pt_comm_accept_def fd_open_def)
  have w: "nt_fds w = (nt_fds ?w)(?cfd \<mapsto> k)" "nt_next w = ?cfd + 1" using assms(9,10) by (auto simp: w_def pt_comm_accept_def fd_open_def)
  define st1 where "st1 = pt_log PT_INFO (st\<lparr>tl_files := fs, tl_net := w\<rparr>)"
  have "net_ok w" using assms(2,7) w by (auto simp: tool_inv_def net_ok_def)
  moreover have "peer_net w" using peers.accept_polite [OF _ a] assms(2) by (simp add: tool_inv_def)
  ultimately have inv: "tool_inv st1" using assms(2) by (simp add: tool_inv_def st1_def)
  from send_type_spec [OF assms(1) inv, of ?cfd PT_MSG_DO_STATUS] obtain p r where
    s1: "tool_send_type E ?cfd PT_MSG_DO_STATUS st1 = do {
      (rc, w) \<leftarrow> fd_send_msg ?cfd (enc_msg PT_MSG_DO_STATUS p [] @ r) (tl_net st1);
      Some (rc, st1\<lparr>tl_net := w, tl_buf := data_buf (enc_msg PT_MSG_DO_STATUS p [] @ r)\<rparr>) }" by blast
  let ?k = "k\<lparr>sk_out := sk_out k @ enc_msg PT_MSG_DO_STATUS p []\<rparr>"
  have "fd_send_msg ?cfd (enc_msg PT_MSG_DO_STATUS p [] @ r) (tl_net st1) = Some (0, w\<lparr>nt_fds := (nt_fds w)(?cfd \<mapsto> ?k)\<rparr>)"
    using send_msg_spec [of "[]" k] assms(11) w by (simp add: fd_send_msg_def st1_def)
  with s1 obtain st2 where st2: "tool_send_type E ?cfd PT_MSG_DO_STATUS st1 = Some (0, st2)" "nt_fds (tl_net st2) ?cfd = Some ?k"
    "tl_out st2 = tl_out st1" "buf_ok (tl_buf st2)" "tl_ctx st2 = tl_ctx st" "tl_files st2 = fs"
    by (auto simp: st1_def buf_ok_def)
  have "sk_in ?k = map Chunk cs @ rest" using assms(12) by simp
  from tool_recv_delivered [OF assms(1) st2(4,2) this assms(13)] obtain st3 q where
    st3: "tool_recv E ?cfd st2 = Some (PT_MSG_STATUS, st3)" "bf_data (tl_buf st3) = Some (enc_msg PT_MSG_STATUS pid (enc_status s) @ q)"
      "tl_ctx st3 = tl_ctx st" "printed (tl_out st3) = printed (tl_out st2)" using st2(5) by auto
  have files: "tl_files st3 = fs" using st3(1) st2(6) by (auto simp: tool_recv_def bind_eq_Some_conv split: prod.splits if_splits)
  have unpack: "pt_type_unpack_status E (msg_data (enc_msg PT_MSG_STATUS pid (enc_status s) @ q)) = Some (img_status s, q)"
    using status_unpack_enc [of s E q] assms(1,13) by simp
  from ctrl_put_spec [OF fs(2) assms(4), of False] obtain fs2 where
    off: "pt_ctrl_set_inactive (cx_ctrl (tl_ctx st)) (cx_pid (tl_ctx st)) fs = Some fs2" by (auto simp: ctrl_put_def)
  have "status_ext E (Sel_Ready r1) (Sel_Ready r2) st =
      Some (0, (tool_close ?cfd (say (Out_Status (img_status s)) st3))\<lparr>tl_files := fs2\<rparr>)"
    using assms(5-8) fs(1) a st2(1) st3 unpack off files
    by (simp add: status_ext_def FD_SET_def status_wait_def status_ask_def status_recv_def status_deinit_def st1_def)
  with assms(14) st2(3) st3(4) show ?thesis by (simp add: pt_status_main_def st1_def printed_def is_log_def pt_log_def)
qed

text \<open>A tool that waits on descriptor 3 for process 7, which answers with a status.\<close>

definition status_ctx :: pt_context_t where
  "status_ctx = \<lparr>cx_command = CMD_STATUS, cx_verbose = PT_ERROR, cx_pid = 7, cx_ptrace = False,
     cx_ctrl = \<lparr>seg_size = PT_CTRL_SIZE, seg_addr = Some ''c''\<rparr>, cx_ctrl_file = ''c'', cx_sfd = 3, cx_listen_addr = [],
     cx_pft = \<lparr>ft_type = PT_FILTER_EMPTY, ft_content = Some (mk_sds [])\<rparr>, cx_limit_frame = -1, cx_limit_request = -1\<rparr>"

definition status_tool :: "sock option list \<Rightarrow> tool" where
  "status_tool as = \<lparr>tl_ctx = status_ctx, tl_net = (empty_net [])\<lparr>nt_fds := [3 \<mapsto> dead_sock], nt_next := 4, nt_accepts := as\<rparr>,
     tl_files = [''c'' \<mapsto> ftruncate empty_file PT_CTRL_SIZE], tl_buf = bufst, tl_out = []\<rparr>"

lemma status_tool_fields [simp]: "tl_ctx (status_tool as) = status_ctx" "cx_pid status_ctx = 7" "cx_sfd status_ctx = 3"
  "cx_ctrl status_ctx = \<lparr>seg_size = PT_CTRL_SIZE, seg_addr = Some ''c''\<rparr>" "\<not> cx_ptrace status_ctx"
  "tl_files (status_tool as) = [''c'' \<mapsto> ftruncate empty_file PT_CTRL_SIZE]"
  "nt_fds (tl_net (status_tool as)) = [3 \<mapsto> dead_sock]" "nt_next (tl_net (status_tool as)) = 4"
  "nt_accepts (tl_net (status_tool as)) = as" "tl_out (status_tool as) = []"
  "ctrl_ok \<lparr>seg_size = PT_CTRL_SIZE, seg_addr = Some ''c''\<rparr> [''c'' \<mapsto> ftruncate empty_file PT_CTRL_SIZE]" "pid_ok 7"
  by (simp_all add: status_tool_def status_ctx_def ctrl_ok_def ftruncate_def pid_ok_def PT_PID_MAX_def)

lemma status_tool_inv: "(\<And>k. Some k \<in> set as \<Longrightarrow> peer_polite (sk_in k)) \<Longrightarrow> tool_inv (status_tool as)"
  by (auto simp: tool_inv_def status_tool_def status_ctx_def buf_big_def bufst_def buf_ok_def net_ok_def empty_net_def
      polite_net_def dead_sock_def sds_ok_def length_enc_filter PT_MSG_HEADER_SIZE_def)


text \<open>A number of one digit, and the second digit of a longer one.\<close>

lemma dec_nat_one: "n < 10 \<Longrightarrow> dec_nat n = [char_of (48 + n)]"
  by (simp add: dec_nat.simps [of n])

lemma dec_nat_two:
  assumes "10 \<le> n"
  shows "\<exists>a b r. dec_nat n = a # b # r \<and> digit_value b < 10"
proof -
  have "dec_nat n = dec_nat (n div 10) @ [char_of (48 + n mod 10)]" using assms by (simp add: dec_nat.simps [of n])
  moreover have "dec_nat (n div 10) \<noteq> []" using dec_nat_digits by blast
  ultimately obtain a b r where ab: "dec_nat n = a # b # r" by (cases "dec_nat (n div 10)"; cases "tl (dec_nat (n div 10))") auto
  then have "digit_value b < 10" using dec_nat_digits [of n] by simp
  with ab show ?thesis by blast
qed

lemma schar_digit: "n < 10 \<Longrightarrow> schar (char_of (48 + n)) = 48 + int n \<and> isdigit (char_of (48 + n)) \<and> char_of (48 + n) \<noteq> NUL"
  by (simp add: schar_def isdigit_def digit_not_NUL)

lemma dec_char: "(n :: nat) < 10 \<Longrightarrow> m < 10 \<Longrightarrow> char_of (48 + n) = (char_of (48 + m) :: char) \<longleftrightarrow> n = m"
  using digit_value_dec [of n] digit_value_dec [of m] by auto



end
