(* ===== verification/Cli_Main.thy ===== *)
theory Cli_Main
  imports Cli_Trace Cli_Status
begin

unbundle bit_operations_syntax

text \<open>
  The command line tool as a whole (\<open>src/cli.c\<close>): parsing the arguments, setting up the control file and
  the socket, running a command, and cleaning up.

  \<open>exit\<close> is the left side of a sum. The allocator decides whether a block that grows keeps its place; a
  pointer to a block that has moved must not be used, and is \<open>None\<close>.
\<close>

section \<open>Arguments\<close>

definition EXIT_SUCCESS :: int where "EXIT_SUCCESS = 0"
definition EXIT_FAILURE :: int where "EXIT_FAILURE = 1"

datatype kill_result = Killed_Ok | Killed_ESRCH | Killed_EPERM

record args_env =
  ar_mem :: mem_env
  ar_kill :: "int \<Rightarrow> kill_result"
  ar_stays :: "nat \<Rightarrow> bool"

record args_state =
  ag_tool :: tool
  ag_errno :: bool
  ag_limit :: int

type_synonym args_result = "(int \<times> tool) + args_state"

definition with_ctx :: "(pt_context_t \<Rightarrow> pt_context_t) \<Rightarrow> args_state \<Rightarrow> args_state" where
  "with_ctx f st = st\<lparr>ag_tool := (ag_tool st)\<lparr>tl_ctx := f (tl_ctx (ag_tool st))\<rparr>\<rparr>"

abbreviation ag_ctx :: "args_state \<Rightarrow> pt_context_t" where
  "ag_ctx st \<equiv> tl_ctx (ag_tool st)"

definition arg_error :: "args_state \<Rightarrow> args_result" where
  "arg_error st = Inl (EXIT_FAILURE, pt_log PT_ERROR (ag_tool st))"

definition text_lines :: "bytes list \<Rightarrow> bytes" where
  "text_lines ls = concat (map (\<lambda>l. l @ newline) ls)"

definition usage_text :: bytes where
  "usage_text = text_lines
     [''Usage: phptrace -p <pid>...'',
      ''       phptrace -h | --help'']"

definition usage_full_text :: bytes where
  "usage_full_text = text_lines
     [''phptrace - A low-overhead tracing tool for PHP'',
      [],
      ''Usage: phptrace -p <pid>...'',
      ''       phptrace -h | --help'',
      [],
      ''Commands:'',
      ''    trace               Trace a running PHP process [default]'',
      ''    status              Display current status of specified PHP process'',
      ''    version             Show version'',
      [],
      ''Options:'',
      ''        --ptrace        Fetch data using ptrace, only in status mode'',
      ''    -p, --pid           Process id'',
      ''    -h, --help          Show this screen'',
      ''    -v, --verbose'',
      ''    -f, --filter        Filter data by type [url,function,class] and content'',
      ''    -l, --limit         Limit output count'']"

definition usage :: "args_state \<Rightarrow> args_result" where
  "usage st = Inl (EXIT_SUCCESS, say (Out_Text usage_text) (ag_tool st))"

definition usage_full :: "args_state \<Rightarrow> args_result" where
  "usage_full st = Inl (EXIT_SUCCESS, say (Out_Text usage_full_text) (ag_tool st))"

definition arg_pid :: "args_env \<Rightarrow> bytes \<Rightarrow> args_state \<Rightarrow> args_result" where
  "arg_pid A optarg st =
     (if strcmp_eq ''all'' optarg then Inr (with_ctx (\<lambda>c. c\<lparr>cx_pid := PT_PID_ALL\<rparr>) st)
      else case strtol 10 optarg of (v, end_, erange) \<Rightarrow>
        let pid = to_int32 v;
            st = (with_ctx (\<lambda>c. c\<lparr>cx_pid := pid\<rparr>) st)\<lparr>ag_errno := ag_errno st \<or> erange\<rparr>
        in if ag_errno st \<or> end_ \<noteq> [] \<or> pid < 0 \<or> pid > int PT_PID_MAX then arg_error st
           else case ar_kill A pid of
             Killed_Ok \<Rightarrow> Inr st
           | Killed_ESRCH \<Rightarrow> arg_error st
           | Killed_EPERM \<Rightarrow> Inr (st\<lparr>ag_errno := True\<rparr>))"

text \<open>\<open>sdscpy(clictx.pft.content, sub_value)\<close>, the result of which is not stored.\<close>

definition copy_content :: "args_env \<Rightarrow> bytes \<Rightarrow> sds \<Rightarrow> sds option" where
  "copy_content A value content = do {
     s \<leftarrow> content;
     r \<leftarrow> sdscpy (ar_mem A) s value;
     case r of
       None \<Rightarrow> Some (Some s)
     | Some s' \<Rightarrow> Some (if length (sh_buf s') = length (sh_buf s) \<or> ar_stays A (sizeof_sdshdr + length (sh_buf s')) then Some s' else None)
   }"

definition set_filter :: "(pt_filter_t \<Rightarrow> pt_filter_t) \<Rightarrow> args_state \<Rightarrow> args_state" where
  "set_filter f = with_ctx (\<lambda>c. c\<lparr>cx_pft := f (cx_pft c)\<rparr>)"

definition filter_tokens :: "bytes list" where
  "filter_tokens = [''type'', ''content'']"

function filter_loop :: "args_env \<Rightarrow> bytes \<Rightarrow> args_state \<Rightarrow> args_result option" where
  "filter_loop A subopts st =
     (if subopts = [] then Some (Inr st)
      else case getsubopt filter_tokens subopts of (token, value, rest) \<Rightarrow>
        if token = Some 0 then
          (if value = None then Some (arg_error st)
           else do {
             t \<leftarrow> pt_filter_search_filter_type value (ft_type (cx_pft (ag_ctx st)));
             filter_loop A rest (set_filter (\<lambda>f. f\<lparr>ft_type := t\<rparr>) st)
           })
        else if token = Some 1 then do {
          v \<leftarrow> value;
          if strlen v \<ge> MAX_FILTER_LENGTH - 1 then Some (arg_error st)
          else do {
            c \<leftarrow> copy_content A v (ft_content (cx_pft (ag_ctx st)));
            filter_loop A rest (set_filter (\<lambda>f. f\<lparr>ft_content := c\<rparr>) st)
          }
        }
        else Some (arg_error st))"
  by pat_completeness auto
termination
  by (relation "measure (\<lambda>(A, s, st). length s)") (auto, (metis getsubopt_rest snd_conv)+)

declare filter_loop.simps [simp del]

definition arg_filter :: "args_env \<Rightarrow> bytes \<Rightarrow> args_state \<Rightarrow> args_result option" where
  "arg_filter A optarg st = do {
     r \<leftarrow> filter_loop A (cstr optarg) st;
     case r of
       Inl e \<Rightarrow> Some (Inl e)
     | Inr st \<Rightarrow> do {
         s \<leftarrow> ft_content (cx_pft (ag_ctx st));
         Some (if sdslen s = 0 \<or> ft_type (cx_pft (ag_ctx st)) = PT_FILTER_EMPTY then arg_error st else Inr st)
       }
   }"

definition arg_limit :: "bytes \<Rightarrow> args_state \<Rightarrow> args_result" where
  "arg_limit optarg st =
     (case strtol 10 optarg of (v, end_, erange) \<Rightarrow>
        let limit = to_int32 v;
            st = st\<lparr>ag_limit := limit, ag_errno := ag_errno st \<or> erange\<rparr>
        in if ag_errno st \<or> end_ \<noteq> [] \<or> limit < PT_LIMIT_UNLIMITED then arg_error st else Inr st)"

fun arg_step :: "args_env \<Rightarrow> opt \<Rightarrow> args_state \<Rightarrow> args_result option" where
  "arg_step A (Opt c (Some optarg)) st =
     (if c = CHR ''p'' then Some (arg_pid A optarg st)
      else if c = CHR ''f'' then arg_filter A optarg st
      else if c = CHR ''l'' then Some (arg_limit optarg st)
      else Some (usage st))"
| "arg_step A (Opt c None) st =
     (if c = CHR ''h'' then Some (usage_full st)
      else if c = CHR ''v'' then Some (Inr (with_ctx (\<lambda>x. x\<lparr>cx_verbose := cx_verbose x + 1\<rparr>) st))
      else Some (usage st))"
| "arg_step A Opt_Ptrace st = Some (Inr (with_ctx (\<lambda>x. x\<lparr>cx_ptrace := True\<rparr>) st))"
| "arg_step A Opt_Bad st = Some (usage st)"

fun arg_loop :: "args_env \<Rightarrow> opt list \<Rightarrow> args_state \<Rightarrow> args_result option" where
  "arg_loop A [] st = Some (Inr st)"
| "arg_loop A (x # xs) st = do {
     r \<leftarrow> arg_step A x st;
     case r of Inl e \<Rightarrow> Some (Inl e) | Inr st \<Rightarrow> arg_loop A xs st
   }"

definition sub_command :: "bytes \<Rightarrow> command" where
  "sub_command a =
     (if strcmp_eq ''trace'' a then CMD_TRACE
      else if strcmp_eq ''version'' a then CMD_VERSION
      else if strcmp_eq ''status'' a then CMD_STATUS
      else if take 1 a \<noteq> ''-'' then CMD_INVALID
      else CMD_UNKNOWN)"

text \<open>After the options: the default command, the check of \<open>-p all\<close>, and the limit.\<close>

definition args_done :: "args_state \<Rightarrow> args_result" where
  "args_done st =
     (let st = (if cx_command (ag_ctx st) = CMD_UNKNOWN \<and> cx_pid (ag_ctx st) \<noteq> PT_PID_INVALID
                then with_ctx (\<lambda>c. c\<lparr>cx_command := CMD_TRACE\<rparr>) st else st)
      in if cx_command (ag_ctx st) \<noteq> CMD_TRACE \<and> cx_pid (ag_ctx st) = PT_PID_ALL then arg_error st
         else if ag_limit st = 0 then Inr st
         else if ft_type (cx_pft (ag_ctx st)) AND PT_FILTER_URL \<noteq> 0
              then Inr (with_ctx (\<lambda>c. c\<lparr>cx_limit_request := ag_limit st\<rparr>) st)
              else Inr (with_ctx (\<lambda>c. c\<lparr>cx_limit_frame := ag_limit st\<rparr>) st))"

definition parse_args :: "args_env \<Rightarrow> bytes list \<Rightarrow> tool \<Rightarrow> args_result option" where
  "parse_args A argv st =
     (let s = \<lparr>ag_tool = st, ag_errno = False, ag_limit = 0\<rparr> in
      case argv of
        prog # a # rest \<Rightarrow> do {
          r \<leftarrow> arg_loop A (getopt_long (a # rest)) (with_ctx (\<lambda>c. c\<lparr>cx_command := sub_command a\<rparr>) s);
          case r of Inl e \<Rightarrow> Some (Inl e) | Inr s \<Rightarrow> Some (args_done s)
        }
      | _ \<Rightarrow> Some (Inr s))"

section \<open>The program\<close>

definition TRACE_VERSION :: bytes where "TRACE_VERSION = ''1.0.1-beta''"

record main_env =
  mn_args :: args_env
  mn_signal :: bool
  mn_sys :: sys_env
  mn_listen :: listen_env
  mn_proc :: proc_env
  mn_ticks :: "tick list"
  mn_sel1 :: select_result
  mn_sel2 :: select_result

definition context_show :: "tool \<Rightarrow> tool" where
  "context_show st = (pt_log PT_INFO ^^ 7) st"

text \<open>The command, with \<open>None\<close> for a loop that is still waiting; the left side is \<open>exit\<close>.\<close>

definition run_command :: "main_env \<Rightarrow> tool \<Rightarrow> ((int \<times> tool) + (int option \<times> tool)) option" where
  "run_command M st =
     (case cx_command (tl_ctx st) of
        CMD_VERSION \<Rightarrow> Some (Inr (Some 0, say (Out_Text (''phptrace '' @ TRACE_VERSION @ newline)) st))
      | CMD_TRACE \<Rightarrow> map_option Inr (pt_trace_main (ar_mem (mn_args M)) (mn_ticks M) st)
      | CMD_STATUS \<Rightarrow> map_option (\<lambda>(r, st). Inr (Some r, st)) (pt_status_main (ar_mem (mn_args M)) (mn_proc M) (mn_sel1 M) (mn_sel2 M) st)
      | _ \<Rightarrow> Some (Inl (EXIT_SUCCESS, say (Out_Text usage_text) st)))"

definition main_cleanup :: "main_env \<Rightarrow> tool \<Rightarrow> tool" where
  "main_cleanup M st =
     (let cx = tl_ctx st;
          st = st\<lparr>tl_net := snd (pt_comm_close (cx_sfd cx) (Some (cx_listen_addr cx)) (tl_net st))\<rparr>
      in st\<lparr>tl_ctx := cx\<lparr>cx_ctrl := snd (pt_ctrl_close (mn_sys M) (cx_ctrl cx)), cx_pft := pt_filter_dtr (cx_pft cx)\<rparr>\<rparr>)"

definition main_run :: "main_env \<Rightarrow> tool \<Rightarrow> (int option \<times> tool) option" where
  "main_run M st =
     (if \<not> mn_signal M then Some (Some EXIT_FAILURE, pt_log PT_ERROR st)
      else
        let path = ''/tmp/'' @ PT_CTRL_FILENAME in
        case pt_ctrl_create (mn_sys M) (tl_files st) path of (rc, seg, fs) \<Rightarrow>
        let st = st\<lparr>tl_files := fs, tl_ctx := (tl_ctx st)\<lparr>cx_ctrl_file := path, cx_ctrl := seg\<rparr>\<rparr> in
        if rc = -1 then Some (Some EXIT_FAILURE, pt_log PT_ERROR st)
        else
          let addr = ''/tmp/'' @ PT_COMM_FILENAME in
          case pt_comm_listen (mn_listen M) addr (tl_net st) of (sfd, w) \<Rightarrow>
          let st = st\<lparr>tl_net := w, tl_ctx := (tl_ctx st)\<lparr>cx_listen_addr := addr, cx_sfd := sfd\<rparr>\<rparr> in
          if sfd = -1 then Some (Some EXIT_FAILURE, pt_log PT_ERROR st)
          else do {
            r \<leftarrow> run_command M (context_show st);
            case r of
              Inl (code, st) \<Rightarrow> Some (Some code, st)
            | Inr (None, st) \<Rightarrow> Some (None, st)
            | Inr (Some status, st) \<Rightarrow> Some (Some status, main_cleanup M st)
          })"

definition main :: "main_env \<Rightarrow> bytes list \<Rightarrow> tool \<Rightarrow> (int option \<times> tool) option" where
  "main M argv st = do {
     cx \<leftarrow> context_init (ar_mem (mn_args M));
     r \<leftarrow> parse_args (mn_args M) argv (st\<lparr>tl_ctx := cx\<rparr>);
     case r of Inl (code, st) \<Rightarrow> Some (Some code, st) | Inr s \<Rightarrow> main_run M (ag_tool s)
   }"

section \<open>What is accepted\<close>

text \<open>A filter that can be sent and matched: it has a content, and one that is not empty if it has a type.\<close>

definition filter_fit :: "pt_filter_t \<Rightarrow> bool" where
  "filter_fit f \<longleftrightarrow> (\<exists>c. ft_content f = Some c \<and> sds_wf c \<and> length (sds_str c) < MAX_FILTER_LENGTH - 1 \<and>
     (ft_type f = PT_FILTER_EMPTY \<or> sds_str c \<noteq> []))"

definition pid_fit :: "args_env \<Rightarrow> int \<Rightarrow> bool" where
  "pid_fit A pid \<longleftrightarrow> pid = PT_PID_INVALID \<or> pid = PT_PID_ALL \<or> (pid_ok pid \<and> ar_kill A pid \<noteq> Killed_ESRCH)"

definition args_fit :: "args_env \<Rightarrow> args_state \<Rightarrow> bool" where
  "args_fit A st \<longleftrightarrow> pid_fit A (cx_pid (ag_ctx st)) \<and> filter_fit (cx_pft (ag_ctx st)) \<and> PT_LIMIT_UNLIMITED \<le> ag_limit st \<and>
     cx_limit_frame (ag_ctx st) = PT_LIMIT_UNLIMITED \<and> cx_limit_request (ag_ctx st) = PT_LIMIT_UNLIMITED"

text \<open>Inside \<open>-f\<close> the content may be gone, and the type may be there before the content.\<close>

definition content_fit :: "sds \<Rightarrow> bool" where
  "content_fit c \<longleftrightarrow> (case c of None \<Rightarrow> True | Some s \<Rightarrow> sds_wf s \<and> length (sds_str s) < MAX_FILTER_LENGTH - 1)"

text \<open>What the arguments leave alone in the tool.\<close>

definition same_rest :: "tool \<Rightarrow> tool \<Rightarrow> bool" where
  "same_rest st st' \<longleftrightarrow> tl_net st' = tl_net st \<and> tl_files st' = tl_files st \<and> tl_buf st' = tl_buf st \<and> tl_out st' = tl_out st"

lemma same_rest_refl [simp]: "same_rest st st"
  by (simp add: same_rest_def)

lemma same_rest_trans: "same_rest a b \<Longrightarrow> same_rest b c \<Longrightarrow> same_rest a c"
  by (simp add: same_rest_def)

lemma with_ctx_simps [simp]: "ag_ctx (with_ctx f st) = f (ag_ctx st)" "ag_errno (with_ctx f st) = ag_errno st"
  "ag_limit (with_ctx f st) = ag_limit st" "same_rest (ag_tool st) (ag_tool (with_ctx f st))"
  by (simp_all add: with_ctx_def same_rest_def)

lemma set_filter_simps [simp]: "ag_ctx (set_filter f st) = (ag_ctx st)\<lparr>cx_pft := f (cx_pft (ag_ctx st))\<rparr>"
  "ag_limit (set_filter f st) = ag_limit st" "ag_errno (set_filter f st) = ag_errno st" "same_rest (ag_tool st) (ag_tool (set_filter f st))"
  by (simp_all add: set_filter_def)

lemma bind_sum_Inr: "Option.bind f (\<lambda>r. case r of Inl e \<Rightarrow> Some (Inl e) | Inr s \<Rightarrow> g s) = Some (Inr y) \<longleftrightarrow>
    (\<exists>s. f = Some (Inr s) \<and> g s = Some (Inr y))"
  by (cases f; cases "the f") auto

lemma copy_content_fit:
  assumes "roomy (ar_mem A)" and "strlen v < MAX_FILTER_LENGTH - 1" and "content_fit c" and "copy_content A v c = Some c'"
  shows "content_fit c'"
proof -
  obtain s where s: "c = Some s" "sds_wf s" using assms(3,4) by (cases c) (auto simp: copy_content_def content_fit_def)
  have "strlen v + SDS_MAX_PREALLOC < 2 ^ 31" using assms(2) by (simp add: MAX_FILTER_LENGTH_def SDS_MAX_PREALLOC_def)
  from sdscpy_spec [OF s(2) assms(1) this] obtain s' where s': "sdscpy (ar_mem A) s v = Some (Some s')" "sds_wf s'" "sds_str s' = cstr v"
    by blast
  with assms(2,4) s show ?thesis by (auto simp: copy_content_def content_fit_def strlen_def)
qed

lemma filter_loop_fit:
  assumes "roomy (ar_mem A)" and "content_fit (ft_content (cx_pft (ag_ctx st)))" and "filter_loop A s st = Some (Inr st')"
  shows "content_fit (ft_content (cx_pft (ag_ctx st'))) \<and> same_rest (ag_tool st) (ag_tool st') \<and> ag_limit st' = ag_limit st \<and>
    (\<exists>f. ag_ctx st' = (ag_ctx st)\<lparr>cx_pft := f\<rparr>)"
  using assms(2,3)
proof (induction "length s" arbitrary: s st rule: less_induct)
  case less
  obtain token v rest where g: "getsubopt filter_tokens s = (token, v, rest)" by (cases "getsubopt filter_tokens s")
  show ?case
  proof (cases "s = []")
    case True
    then have "st' = st" using less.prems(2) by (simp add: filter_loop.simps [of A "[]"])
    moreover have "ag_ctx st = (ag_ctx st)\<lparr>cx_pft := cx_pft (ag_ctx st)\<rparr>" by simp
    ultimately show ?thesis using less.prems(1) by (metis same_rest_refl)
  next
    case False
    have short: "length rest < length s" using getsubopt_rest [OF False, of filter_tokens] g by simp
    obtain h where h: "filter_loop A rest (set_filter h st) = Some (Inr st')" "content_fit (ft_content (h (cx_pft (ag_ctx st))))"
    proof (cases "token = Some 0")
      case True
      with less.prems g False that [of "\<lambda>f. f\<lparr>ft_type := _\<rparr>"] show ?thesis
        by (auto simp: filter_loop.simps [of A s] arg_error_def bind_eq_Some_conv split: if_splits)
    next
      case other: False
      with less.prems(2) g False obtain x c where x: "v = Some x" "strlen x < MAX_FILTER_LENGTH - 1"
        "copy_content A x (ft_content (cx_pft (ag_ctx st))) = Some c" "filter_loop A rest (set_filter (\<lambda>f. f\<lparr>ft_content := c\<rparr>) st) = Some (Inr st')"
        by (auto simp: filter_loop.simps [of A s] arg_error_def bind_eq_Some_conv split: if_splits)
      with that copy_content_fit [OF assms(1) x(2) less.prems(1) x(3)] show ?thesis by auto
    qed
    from less.hyps [OF short _ h(1)] h(2) obtain f where
      "content_fit (ft_content (cx_pft (ag_ctx st')))" "same_rest (ag_tool (set_filter h st)) (ag_tool st')"
      "ag_limit st' = ag_limit st" "ag_ctx st' = (ag_ctx (set_filter h st))\<lparr>cx_pft := f\<rparr>" by auto
    with same_rest_trans [OF set_filter_simps(4)] show ?thesis by auto
  qed
qed

lemma sds_len_zero: "sds_wf s \<Longrightarrow> sdslen s = 0 \<longleftrightarrow> sds_str s = []"
  using sds_bytes(2) by fastforce

lemma arg_filter_fit:
  assumes "roomy (ar_mem A)" and "args_fit A st" and "arg_filter A a st = Some (Inr st')"
  shows "args_fit A st' \<and> same_rest (ag_tool st) (ag_tool st') \<and> cx_command (ag_ctx st') = cx_command (ag_ctx st)"
proof -
  obtain st1 where loop: "filter_loop A (cstr a) st = Some (Inr st1)" "do { s \<leftarrow> ft_content (cx_pft (ag_ctx st1));
      Some (if sdslen s = 0 \<or> ft_type (cx_pft (ag_ctx st1)) = PT_FILTER_EMPTY then arg_error st1 else Inr st1) } = Some (Inr st')"
    using assms(3) unfolding arg_filter_def bind_sum_Inr by blast
  then obtain s where st1: "filter_loop A (cstr a) st = Some (Inr st1)" "ft_content (cx_pft (ag_ctx st1)) = Some s"
    "sdslen s \<noteq> 0" "st' = st1"
    by (auto simp: arg_error_def bind_eq_Some_conv split: if_splits)
  have "content_fit (ft_content (cx_pft (ag_ctx st)))" using assms(2) by (auto simp: args_fit_def filter_fit_def content_fit_def)
  from filter_loop_fit [OF assms(1) this st1(1)] st1 assms(2) sds_len_zero [of s] show ?thesis
    by (auto simp: args_fit_def filter_fit_def content_fit_def)
qed

lemma arg_pid_fit:
  assumes "args_fit A st" and "arg_pid A a st = Inr st'"
  shows "args_fit A st' \<and> same_rest (ag_tool st) (ag_tool st') \<and> cx_command (ag_ctx st') = cx_command (ag_ctx st)"
  using assms by (auto simp: arg_pid_def arg_error_def args_fit_def pid_fit_def pid_ok_def Let_def same_rest_def with_ctx_def
      split: if_splits prod.splits kill_result.splits)

lemma arg_step_fit:
  assumes "roomy (ar_mem A)" and "args_fit A st" and "arg_step A x st = Some (Inr st')"
  shows "args_fit A st' \<and> same_rest (ag_tool st) (ag_tool st') \<and> cx_command (ag_ctx st') = cx_command (ag_ctx st)"
  using assms(3) arg_pid_fit [OF assms(2)] arg_filter_fit [OF assms(1,2)] assms(2)
  by (cases "(A, x, st)" rule: arg_step.cases)
    (auto simp: usage_def usage_full_def arg_limit_def arg_error_def args_fit_def Let_def split: if_splits prod.splits)

lemma arg_loop_fit:
  assumes "roomy (ar_mem A)" and "args_fit A st" and "arg_loop A xs st = Some (Inr st')"
  shows "args_fit A st' \<and> same_rest (ag_tool st) (ag_tool st') \<and> cx_command (ag_ctx st') = cx_command (ag_ctx st)"
  using assms(2,3)
proof (induction xs arbitrary: st)
  case (Cons x xs)
  obtain st1 where st1: "arg_step A x st = Some (Inr st1)" "arg_loop A xs st1 = Some (Inr st')"
    using Cons.prems(2) by (auto simp: bind_sum_Inr)
  from arg_step_fit [OF assms(1) Cons.prems(1) st1(1)] Cons.IH [OF _ st1(2)] same_rest_trans show ?case by metis
qed simp

section \<open>Properties of the arguments\<close>

definition zero_tool :: tool where
  "zero_tool = \<lparr>tl_ctx = sample_ctx, tl_net = empty_net [], tl_files = (\<lambda>_. None), tl_buf = bufst, tl_out = []\<rparr>"

definition all_alive :: args_env where
  "all_alive = \<lparr>ar_mem = full_env, ar_kill = (\<lambda>_. Killed_Ok), ar_stays = (\<lambda>_. True)\<rparr>"

lemma context_init_spec:
  assumes "roomy E"
  shows "context_init E = Some \<lparr>cx_command = CMD_UNKNOWN, cx_verbose = PT_ERROR, cx_pid = PT_PID_INVALID, cx_ptrace = False,
     cx_ctrl = \<lparr>seg_size = 0, seg_addr = None\<rparr>, cx_ctrl_file = [], cx_sfd = -1, cx_listen_addr = [],
     cx_pft = \<lparr>ft_type = PT_FILTER_EMPTY, ft_content = Some (mk_sds [])\<rparr>,
     cx_limit_frame = PT_LIMIT_UNLIMITED, cx_limit_request = PT_LIMIT_UNLIMITED\<rparr>"
  using assms by (simp add: context_init_def pt_filter_ctr_def Let_def sdsempty_str)

text \<open>How the options of the witnesses and of the properties are read.\<close>

lemma dec_not_all: "\<not> strcmp_eq ''all'' (dec_nat p)"
proof -
  obtain c r where "dec_nat p = c # r" "digit_value c < 10" using dec_nat_digits [of p] by (cases "dec_nat p") auto
  then show ?thesis using nul_free_dec_nat [of p] by (auto simp: strcmp_eq_def digit_value_def)
qed

lemma getopt_word: "take 1 w \<noteq> ''-'' \<Longrightarrow> getopt_long (w # rest) = getopt_long rest"
  by (cases w) auto

lemma getopt_arg: "short_opts c = Some Required \<Longrightarrow> c \<noteq> CHR ''-'' \<Longrightarrow> getopt_long ([CHR ''-'', c] # a # rest) = Opt c (Some a) # getopt_long rest"
  by simp

lemma getopt_examples:
  "getopt_long (''-p'' # a # rest) = Opt (CHR ''p'') (Some a) # getopt_long rest"
  "getopt_long (''-l'' # a # rest) = Opt (CHR ''l'') (Some a) # getopt_long rest"
  "getopt_long (''-f'' # a # rest) = Opt (CHR ''f'') (Some a) # getopt_long rest"
  "getopt_long (''trace'' # rest) = getopt_long rest"
  using getopt_arg [of "CHR ''p''"] getopt_arg [of "CHR ''l''"] getopt_arg [of "CHR ''f''"] getopt_word [of "''trace''"]
  by (simp_all add: short_opts_def del: getopt_long.simps)

lemma errno_idem: "ag_errno st = b \<Longrightarrow> st\<lparr>ag_errno := b\<rparr> = st"
  by (cases st) simp

lemma to_int32_wrap: "to_int32 (k * 2 ^ 32 + x) = to_int32 x"
  by (simp add: to_int32_def add.assoc)

lemma arg_pid_dec:
  assumes "p < 2 ^ 63"
  shows "arg_pid A (dec_nat p) st =
    (let st = with_ctx (\<lambda>c. c\<lparr>cx_pid := to_int32 (int p)\<rparr>) st in
     if ag_errno st \<or> to_int32 (int p) < 0 \<or> to_int32 (int p) > int PT_PID_MAX then arg_error st
     else case ar_kill A (to_int32 (int p)) of Killed_Ok \<Rightarrow> Inr st | Killed_ESRCH \<Rightarrow> arg_error st | Killed_EPERM \<Rightarrow> Inr (st\<lparr>ag_errno := True\<rparr>))"
proof -
  have num: "strtol 10 (dec_nat p) = (int p, [], False)" using assms by (simp add: strtol_dec)
  have same: "(with_ctx f st)\<lparr>ag_errno := ag_errno st\<rparr> = with_ctx f st" for f by (rule errno_idem) simp
  show ?thesis by (cases "ar_kill A (to_int32 (int p))") (simp_all add: arg_pid_def dec_not_all num same errno_idem Let_def)
qed

lemma arg_limit_dec:
  assumes "n < 2 ^ 31"
  shows "arg_limit (dec_nat n) st = (if ag_errno st then arg_error (st\<lparr>ag_limit := int n\<rparr>) else Inr (st\<lparr>ag_limit := int n\<rparr>))"
  using assms by (cases "ag_errno st") (simp_all add: errno_idem arg_limit_def strtol_dec int_simps PT_LIMIT_UNLIMITED_def Let_def)

text \<open>What the tool can work with.\<close>

definition context_fit :: "args_env \<Rightarrow> pt_context_t \<Rightarrow> bool" where
  "context_fit A cx \<longleftrightarrow> pid_fit A (cx_pid cx) \<and> (cx_pid cx = PT_PID_ALL \<longrightarrow> cx_command cx = CMD_TRACE) \<and> filter_fit (cx_pft cx) \<and>
     (cx_limit_frame cx = PT_LIMIT_UNLIMITED \<or> 0 < cx_limit_frame cx) \<and>
     (cx_limit_request cx = PT_LIMIT_UNLIMITED \<or> 0 < cx_limit_request cx)"

lemma args_done_fit:
  assumes "args_fit A st" and "args_done st = Inr s"
  shows "context_fit A (ag_ctx s) \<and> same_rest (ag_tool st) (ag_tool s)"
  using assms by (auto simp: args_done_def args_fit_def context_fit_def arg_error_def PT_LIMIT_UNLIMITED_def Let_def
      same_rest_def with_ctx_def split: if_splits)

lemma parse_args_fit:
  assumes "roomy (ar_mem A)" and "context_init (ar_mem A) = Some cx" and "parse_args A argv (st\<lparr>tl_ctx := cx\<rparr>) = Some (Inr s)"
  shows "context_fit A (ag_ctx s) \<and> same_rest st (ag_tool s)"
proof -
  let ?s = "\<lparr>ag_tool = st\<lparr>tl_ctx := cx\<rparr>, ag_errno = False, ag_limit = 0\<rparr>"
  have cx: "cx_pid cx = PT_PID_INVALID" "cx_pft cx = \<lparr>ft_type = PT_FILTER_EMPTY, ft_content = Some (mk_sds [])\<rparr>"
    "cx_limit_frame cx = PT_LIMIT_UNLIMITED" "cx_limit_request cx = PT_LIMIT_UNLIMITED"
    using context_init_spec [OF assms(1)] assms(2) by auto
  have fit: "args_fit A (with_ctx (\<lambda>c. c\<lparr>cx_command := k\<rparr>) ?s)" for k
    using cx by (simp add: args_fit_def pid_fit_def filter_fit_def PT_LIMIT_UNLIMITED_def MAX_FILTER_LENGTH_def)
  have rest: "same_rest st (ag_tool (with_ctx (\<lambda>c. c\<lparr>cx_command := k\<rparr>) ?s))" for k
    by (simp add: same_rest_def with_ctx_def)
  show ?thesis
  proof (cases "\<exists>prog a r. argv = prog # a # r")
    case True
    then obtain prog a r where argv: "argv = prog # a # r" by blast
    obtain s1 where s1: "arg_loop A (getopt_long (a # r)) (with_ctx (\<lambda>c. c\<lparr>cx_command := sub_command a\<rparr>) ?s) = Some (Inr s1)"
      "args_done s1 = Inr s"
      using assms(3) by (auto simp: parse_args_def argv bind_sum_Inr Let_def simp del: getopt_long.simps)
    from arg_loop_fit [OF assms(1) fit s1(1)] args_done_fit [OF _ s1(2)] rest same_rest_trans show ?thesis by metis
  next
    case False
    then have "s = ?s" using assms(3) by (auto simp: parse_args_def Let_def split: list.splits)
    moreover have "PT_PID_INVALID \<noteq> PT_PID_ALL" by (simp add: PT_PID_INVALID_def PT_PID_ALL_def)
    ultimately show ?thesis using cx fit [of CMD_UNKNOWN]
      by (simp add: context_fit_def args_fit_def same_rest_def)
  qed
qed



text \<open>
  C20: The numbers on the command line are the numbers that are used. For every process id up to
  \<open>PT_PID_MAX\<close> of a running process and every positive limit, \<open>phptrace trace -p <pid> -l <limit>\<close> in decimal
  sets exactly this id and this limit and nothing else; a limit of 0 means no limit.
\<close>

theorem args_roundtrip:
  assumes "roomy (ar_mem A)" and "context_init (ar_mem A) = Some cx" and "p \<le> PT_PID_MAX" and "ar_kill A (int p) = Killed_Ok" and "n < 2 ^ 31"
  shows "\<exists>s. parse_args A [prog, ''trace'', ''-p'', dec_nat p, ''-l'', dec_nat n] (st\<lparr>tl_ctx := cx\<rparr>) = Some (Inr s) \<and>
    ag_ctx s = cx\<lparr>cx_command := CMD_TRACE, cx_pid := int p, cx_limit_frame := if n = 0 then PT_LIMIT_UNLIMITED else int n\<rparr>"
proof -
  have p: "p < 2 ^ 63" "to_int32 (int p) = int p" "int p \<le> int PT_PID_MAX" using assms(3) by (simp_all add: PT_PID_MAX_def int_simps)
  have cx: "ft_type (cx_pft cx) AND PT_FILTER_URL = 0" "cx_limit_frame cx = PT_LIMIT_UNLIMITED"
    using context_init_spec [OF assms(1)] assms(2) by (auto simp: PT_FILTER_EMPTY_def PT_FILTER_URL_def)
  have opts: "getopt_long [''trace'', ''-p'', dec_nat p, ''-l'', dec_nat n] = [Opt (CHR ''p'') (Some (dec_nat p)), Opt (CHR ''l'') (Some (dec_nat n))]"
    by (simp add: getopt_examples del: getopt_long.simps(2))
  have "sub_command ''trace'' = CMD_TRACE" by (simp add: sub_command_def strcmp_eq_def)
  then show ?thesis
    using p cx assms(4,5) by (simp add: parse_args_def opts arg_pid_dec arg_limit_dec args_done_def with_ctx_def Let_def del: getopt_long.simps)
qed

theorem args_roundtrip_witness:
  "\<exists>s cx. context_init full_env = Some cx \<and> parse_args all_alive [''phptrace'', ''trace'', ''-p'', dec_nat 4242, ''-l'', dec_nat 10] (zero_tool\<lparr>tl_ctx := cx\<rparr>) = Some (Inr s) \<and>
    cx_pid (ag_ctx s) = 4242 \<and> cx_limit_frame (ag_ctx s) = 10"
proof -
  obtain cx where cx: "context_init full_env = Some cx" using context_init_spec [OF roomy_full_env] by blast
  with args_roundtrip [of all_alive cx 4242 10 "''phptrace''" zero_tool] show ?thesis
    by (fastforce simp: all_alive_def PT_PID_MAX_def simp del: dec_nat.simps)
qed

text \<open>
  A process id is cut to 32 bits before it is checked. A number that is 2\<open>^\<close>32 or any multiple of
  it above a valid id is accepted as that id: the tool traces a process that was not named, instead of
  refusing the argument.
\<close>

lemma pid_truncated:
  assumes "p \<le> PT_PID_MAX" and "ar_kill A (int p) = Killed_Ok" and "k < 2 ^ 31" and "\<not> ag_errno st"
  shows "arg_pid A (dec_nat (k * 2 ^ 32 + p)) st = Inr (with_ctx (\<lambda>c. c\<lparr>cx_pid := int p\<rparr>) st)"
proof -
  have p: "int p < 2 ^ 31" "int p \<le> int PT_PID_MAX" using assms(1) by (simp_all add: PT_PID_MAX_def)
  have "k * 2 ^ 32 + p < 2 ^ 63" using assms(3) p(1) by simp
  moreover have "to_int32 (int (k * 2 ^ 32 + p)) = int p" using to_int32_wrap [of "int k" "int p"] p(1) by (simp add: int_simps)
  ultimately show ?thesis using assms(2,4) p by (simp add: arg_pid_dec Let_def)
qed

text \<open>
  A process of another user makes later options fail. The check that the process exists leaves
  \<open>errno\<close> set when the process may not be signalled, and the next option with a number takes this for an
  error of its own: \<open>-p <pid> -l <limit>\<close> is refused, while \<open>-l <limit> -p <pid>\<close> is accepted.
\<close>

lemma stale_errno:
  assumes "p \<le> PT_PID_MAX" and "ar_kill A (int p) = Killed_EPERM" and "n < 2 ^ 31" and "\<not> ag_errno st"
  shows "(\<exists>out. arg_loop A (getopt_long [''-p'', dec_nat p, ''-l'', dec_nat n]) st = Some (Inl (EXIT_FAILURE, out))) \<and>
    (\<exists>s. arg_loop A (getopt_long [''-l'', dec_nat n, ''-p'', dec_nat p]) st = Some (Inr s) \<and> cx_pid (ag_ctx s) = int p \<and> ag_limit s = int n)"
proof -
  have p: "p < 2 ^ 63" "to_int32 (int p) = int p" "int p \<le> int PT_PID_MAX" using assms(1) by (simp_all add: PT_PID_MAX_def int_simps)
  with assms(2-4) show ?thesis
    by (simp add: getopt_examples arg_pid_dec arg_limit_dec arg_error_def with_ctx_def Let_def del: getopt_long.simps(2))
qed

text \<open>The two parts of a filter argument.\<close>

lemma takeWhile_neq_all: "x \<notin> set s \<Longrightarrow> takeWhile (\<lambda>c. c \<noteq> x) s = s"
  by (auto simp: takeWhile_eq_all_conv)

lemma takeWhile_neq_prefix: "x \<notin> set s \<Longrightarrow> takeWhile (\<lambda>c. c \<noteq> x) (s @ x # r) = s"
  by (induction s) auto

lemma subopt_type:
  assumes "CHR '','' \<notin> set name" and "CHR ''='' \<notin> set name"
  shows "getsubopt filter_tokens (''type='' @ name @ '','' @ r) = (Some 0, Some name, r)"
  using assms by (simp add: getsubopt_def filter_tokens_def takeWhile_neq_all takeWhile_neq_prefix Let_def)

lemma subopt_content:
  assumes "CHR '','' \<notin> set v"
  shows "getsubopt filter_tokens (''content='' @ v) = (Some 1, Some v, [])"
  using assms by (simp add: getsubopt_def filter_tokens_def takeWhile_neq_all Let_def)

lemma copy_fresh:
  assumes "roomy (ar_mem A)" and "nul_free v" and "v \<noteq> []" and "length v < MAX_FILTER_LENGTH - 1"
  shows "\<exists>c. copy_content A v (Some (mk_sds [])) = Some (if ar_stays A (sizeof_sdshdr + length (sh_buf c)) then Some c else None) \<and>
    sds_wf c \<and> sds_str c = v"
proof -
  have "strlen v + SDS_MAX_PREALLOC < 2 ^ 31" using assms(2,4) by (simp add: strlen_def MAX_FILTER_LENGTH_def SDS_MAX_PREALLOC_def)
  from sdscpy_spec [OF _ assms(1) this, of "mk_sds []"] assms(2) obtain c where
    c: "sdscpy (ar_mem A) (mk_sds []) v = Some (Some c)" "sds_wf c" "sds_str c = v" by auto
  have "length (sh_buf c) \<noteq> 1" using sds_bytes(1) [OF c(2)] c(2,3) assms(3) by (auto simp: sds_wf_def sds_str_def)
  with c show ?thesis by (intro exI [of _ c]) (simp add: copy_content_def mk_sds_def)
qed

text \<open>
  C39: The filter on the command line is used only if the allocator is kind. \<open>-f type=<t>,content=<v>\<close>,
  with a known type and a content of up to 254 bytes, sets this type and this content when the
  block of the empty content can grow where it is. When it has to move, the pointer to the new
  block, which \<open>sdscpy\<close> returns, is dropped, and the tool goes on with the freed block: the behaviour
  is undefined.
\<close>

theorem filter_argument:
  assumes "roomy (ar_mem A)" and "ft_content (cx_pft (ag_ctx st)) = Some (mk_sds [])" and "(name, t) \<in> set filter_name_map_type"
    and "nul_free v" and "v \<noteq> []" and "CHR '','' \<notin> set v" and "length v < MAX_FILTER_LENGTH - 1"
  shows "\<exists>c. sds_wf c \<and> sds_str c = v \<and> arg_filter A (''type='' @ name @ '',content='' @ v) st =
    (if ar_stays A (sizeof_sdshdr + length (sh_buf c)) then Some (Inr (set_filter (\<lambda>f. f\<lparr>ft_type := t, ft_content := Some c\<rparr>) st)) else None)"
proof -
  have name: "CHR '','' \<notin> set name" "CHR ''='' \<notin> set name" "nul_free name" "t \<noteq> PT_FILTER_EMPTY"
    "pt_filter_search_filter_type (Some name) u = Some t" for u
    using assms(3) by (auto simp: filter_name_map_type_def pt_filter_search_filter_type_def strcmp_eq_def
        PT_FILTER_EMPTY_def PT_FILTER_URL_def PT_FILTER_FUNCTION_NAME_def PT_FILTER_CLASS_NAME_def)
  obtain c where c: "copy_content A v (Some (mk_sds [])) = Some (if ar_stays A (sizeof_sdshdr + length (sh_buf c)) then Some c else None)"
    "sds_wf c" "sds_str c = v" using copy_fresh [OF assms(1,4,5,7)] by blast
  let ?arg = "''type='' @ name @ '','' @ ''content='' @ v"
  let ?c = "if ar_stays A (sizeof_sdshdr + length (sh_buf c)) then Some c else None"
  let ?st1 = "set_filter (\<lambda>f. f\<lparr>ft_type := t\<rparr>) st"
  have "filter_loop A ?arg st = filter_loop A (''content='' @ v) ?st1"
    using filter_loop.simps [of A ?arg st] subopt_type [OF name(1,2), of "''content='' @ v"] name(5) by simp
  also have "\<dots> = filter_loop A [] (set_filter (\<lambda>f. f\<lparr>ft_content := ?c\<rparr>) ?st1)"
    using filter_loop.simps [of A "''content='' @ v" ?st1] subopt_content [OF assms(6)] c(1) assms(2,4,7) by (simp add: strlen_def)
  also have "\<dots> = Some (Inr (set_filter (\<lambda>f. f\<lparr>ft_type := t, ft_content := ?c\<rparr>) st))"
    by (simp add: filter_loop.simps [of A "[]"] set_filter_def with_ctx_def)
  finally have loop: "filter_loop A ?arg st = Some (Inr (set_filter (\<lambda>f. f\<lparr>ft_type := t, ft_content := ?c\<rparr>) st))" .
  have "cstr ?arg = ?arg" using name(3) assms(4) by simp
  moreover have "sdslen c \<noteq> 0" using sds_len_zero [OF c(2)] c(3) assms(5) by simp
  ultimately show ?thesis using loop c(2,3) name(4) by (intro exI [of _ c]) (auto simp: arg_filter_def)
qed

theorem filter_argument_witness:
  "arg_filter (all_alive\<lparr>ar_stays := (\<lambda>_. False)\<rparr>) ''type=function,content=mysqli_connect''
     \<lparr>ag_tool = zero_tool, ag_errno = False, ag_limit = 0\<rparr> = None"
proof -
  have "(''function'', PT_FILTER_FUNCTION_NAME) \<in> set filter_name_map_type" by (simp add: filter_name_map_type_def)
  from filter_argument [OF _ _ this, of "all_alive\<lparr>ar_stays := (\<lambda>_. False)\<rparr>" "\<lparr>ag_tool = zero_tool, ag_errno = False, ag_limit = 0\<rparr>" "''mysqli_connect''"]
  show ?thesis by (auto simp: all_alive_def zero_tool_def sample_ctx_def MAX_FILTER_LENGTH_def)
qed

section \<open>Properties of the program\<close>

abbreviation ctrl_path :: bytes where
  "ctrl_path \<equiv> ''/tmp/'' @ PT_CTRL_FILENAME"

abbreviation sock_path :: bytes where
  "sock_path \<equiv> ''/tmp/'' @ PT_COMM_FILENAME"

definition listen_ok :: "listen_env \<Rightarrow> bool" where
  "listen_ok L \<longleftrightarrow> ln_socket L \<and> ln_unlink L (sun_path sock_path) \<noteq> Unlink_Error \<and> ln_bind L \<and> ln_listen L"

text \<open>The state in which the command runs, when the control file and the socket are there.\<close>

definition started :: "pt_segment_t \<Rightarrow> files \<Rightarrow> tool \<Rightarrow> tool" where
  "started seg fs st = context_show (st\<lparr>tl_files := fs,
     tl_net := (tl_net st)\<lparr>nt_fds := (nt_fds (tl_net st))(nt_next (tl_net st) \<mapsto> dead_sock), nt_next := nt_next (tl_net st) + 1,
                           nt_paths := (nt_paths (tl_net st))(sun_path sock_path := True)\<rparr>,
     tl_ctx := (tl_ctx st)\<lparr>cx_ctrl_file := ctrl_path, cx_ctrl := seg, cx_listen_addr := sock_path, cx_sfd := nt_next (tl_net st)\<rparr>\<rparr>)"

lemma log_pow_fields [simp]: "tl_ctx ((pt_log l ^^ n) st) = tl_ctx st" "tl_net ((pt_log l ^^ n) st) = tl_net st"
  "tl_files ((pt_log l ^^ n) st) = tl_files st" "tl_buf ((pt_log l ^^ n) st) = tl_buf st"
  by (induction n) simp_all

lemma started_fields [simp]:
  "tl_ctx (started seg fs st) = (tl_ctx st)\<lparr>cx_ctrl_file := ctrl_path, cx_ctrl := seg, cx_listen_addr := sock_path, cx_sfd := nt_next (tl_net st)\<rparr>"
  "tl_files (started seg fs st) = fs" "tl_buf (started seg fs st) = tl_buf st"
  "nt_fds (tl_net (started seg fs st)) = (nt_fds (tl_net st))(nt_next (tl_net st) \<mapsto> dead_sock)"
  "nt_next (tl_net (started seg fs st)) = nt_next (tl_net st) + 1" "nt_accepts (tl_net (started seg fs st)) = nt_accepts (tl_net st)"
  "nt_dials (tl_net (started seg fs st)) = nt_dials (tl_net st)"
  by (simp_all add: started_def context_show_def)

lemma main_run_started:
  assumes "mn_signal M" and "pt_ctrl_create (mn_sys M) (tl_files st) ctrl_path = (0, seg, fs)" and "listen_ok (mn_listen M)" and "net_ok (tl_net st)"
  shows "main_run M st = do {
    r \<leftarrow> run_command M (started seg fs st);
    case r of Inl (code, st) \<Rightarrow> Some (Some code, st) | Inr (None, st) \<Rightarrow> Some (None, st)
    | Inr (Some status, st) \<Rightarrow> Some (Some status, main_cleanup M st) }"
proof -
  have "nt_next (tl_net st) \<noteq> -1" using assms(4) by (auto simp: net_ok_def)
  with assms show ?thesis by (simp add: main_run_def started_def listen_ok_def pt_comm_listen_def fd_open_def Let_def fun_upd_def cong: if_cong)
qed

lemma started_inv:
  assumes "net_ok (tl_net st)" and "peer_net (tl_net st)" and "buf_big (tl_buf st)" and "filter_fit (cx_pft (tl_ctx st))"
  shows "tool_inv (started seg fs st)"
proof -
  obtain c where c: "ft_content (cx_pft (tl_ctx st)) = Some c" "sds_wf c" "length (sds_str c) < 255"
    using assms(4) by (auto simp: filter_fit_def MAX_FILTER_LENGTH_def)
  then have "length (enc_filter (cx_pft (tl_ctx st))) + PT_MSG_HEADER_SIZE \<le> 4096"
    by (simp add: length_enc_filter sds_ok_def PT_MSG_HEADER_SIZE_def)
  moreover have "net_ok (tl_net (started seg fs st))" using assms(1) by (auto simp: net_ok_def)
  moreover have "peer_net (tl_net (started seg fs st))" using assms(2) by (auto simp: polite_net_def dead_sock_def)
  ultimately show ?thesis using assms(3) c by (simp add: tool_inv_def sds_ok_def)
qed

lemma sock_path_fits: "sun_path sock_path = sock_path" "cstr sock_path = sock_path"
  by (simp_all add: sun_path_def PT_COMM_FILENAME_def)


text \<open>A system on which everything can be set up, with one process to accept, for the witnesses.\<close>

definition sample_main_env :: main_env where
  "sample_main_env = \<lparr>mn_args = all_alive, mn_signal = True, mn_sys = sys_ok,
     mn_listen = \<lparr>ln_socket = True, ln_unlink = (\<lambda>_. No_Entry), ln_bind = True, ln_listen = True\<rparr>,
     mn_proc = \<lparr>pe_mem = full_env, pe_link = None, pe_version = None, pe_gdb = None, pe_buf = [], pe_attach = False, pe_detach = False,
       pe_target = (\<lambda>_. 0), pe_to_long = (\<lambda>_. 0), pe_rbuf = [], pe_fbuf = []\<rparr>,
     mn_ticks = sample_ticks, mn_sel1 = Sel_Timeout, mn_sel2 = Sel_Timeout\<rparr>"


text \<open>
  \<open>phptrace trace\<close> and \<open>phptrace status\<close> without a process id are not refused. The mark for a missing
  id, -1, is used as an index, and the first thing the command does is to write the byte in front of
  the mapped control file.
\<close>

lemma missing_pid_undefined:
  assumes "roomy (ar_mem (mn_args M))" and "mn_signal M" and "pt_ctrl_create (mn_sys M) (tl_files st) ctrl_path = (0, seg, fs)"
    and "listen_ok (mn_listen M)" and "net_ok (tl_net st)" and "command = ''trace'' \<or> command = ''status''"
  shows "main M [prog, command] st = None"
proof -
  obtain cx where cx: "context_init (ar_mem (mn_args M)) = Some cx" "cx_pid cx = PT_PID_INVALID" "\<not> cx_ptrace cx"
    using context_init_spec [OF assms(1)] by auto
  let ?k = "if command = ''trace'' then CMD_TRACE else CMD_STATUS"
  let ?s = "\<lparr>ag_tool = st\<lparr>tl_ctx := cx\<lparr>cx_command := ?k\<rparr>\<rparr>, ag_errno = False, ag_limit = 0\<rparr>"
  have opts: "getopt_long [command] = []" using assms(6) by auto
  have "sub_command command = ?k" using assms(6) by (auto simp: sub_command_def strcmp_eq_def)
  then have parse: "parse_args (mn_args M) [prog, command] (st\<lparr>tl_ctx := cx\<rparr>) = Some (Inr ?s)"
    using cx(2) by (simp add: parse_args_def opts args_done_def with_ctx_def Let_def PT_PID_INVALID_def PT_PID_ALL_def del: getopt_long.simps)
  have create: "pt_ctrl_create (mn_sys M) (tl_files (ag_tool ?s)) ctrl_path = (0, seg, fs)" using assms(3) by simp
  have "run_command M (started seg fs (ag_tool ?s)) = None"
    using cx(2,3) assms(6) by (auto simp: run_command_def pt_trace_main_def ctrl_switch_def pt_status_main_def status_ext_def
        pt_ctrl_set_active_def pt_ctrl_pid_def PT_PID_INVALID_def PT_PID_ALL_def bind_eq_None_conv)
  with cx(1) parse main_run_started [OF assms(2) create assms(4)] assms(5) show ?thesis by (simp add: main_def)
qed

lemma missing_pid_undefined_witness: "main sample_main_env [''phptrace'', ''trace''] zero_tool = None"
  using missing_pid_undefined [of sample_main_env zero_tool "\<lparr>seg_size = PT_CTRL_SIZE, seg_addr = Some ctrl_path\<rparr>"
      "[ctrl_path \<mapsto> ftruncate empty_file PT_CTRL_SIZE]" "''trace''" "''phptrace''"] ctrl_create_sys_ok [of ctrl_path]
  by (simp add: sample_main_env_def all_alive_def listen_ok_def zero_tool_def)

end
