(* ===== verification/Ext_Dump.thy ===== *)
theory Ext_Dump
  imports Cli_Main
begin

text \<open>
  The function \<open>trace_dump_address\<close> of a debug build (\<open>extension/trace.c\<close>): it prints where the engine
  keeps what the tool reads from a stopped process, the contents of a preset in \<open>src/ptrace.c\<close>. The
  version of PHP that the extension is built for (\<open>PHP_VERSION_ID\<close>) is an argument here, so all its branches are
  there.
\<close>

section \<open>What is printed\<close>

text \<open>
  The addresses and offsets of the engine, given by the compiler: those of a preset, and those of the
  call that is running.
\<close>

record engine_layout = pt_ptrace_preset_t +
  la_execute_data :: u64
  la_func :: u64
  la_func_type :: u64
  la_func_op_array :: u64
  la_scope :: u64
  la_opline :: u64

text \<open>The digits \<open>printf\<close> writes for \<open>%lx\<close>.\<close>

fun hex_nat :: "nat \<Rightarrow> bytes" where
  "hex_nat n = (if n < 16 then [hex_char n] else hex_nat (n div 16) @ [hex_char (n mod 16)])"

declare hex_nat.simps [simp del]

definition dump_addr :: "bytes \<Rightarrow> u64 \<Rightarrow> bytes" where
  "dump_addr name a = name @ '' = 0x'' @ hex_nat (unat a)"

definition dump_field :: "bytes \<Rightarrow> u64 \<Rightarrow> bytes" where
  "dump_field name off = ''    .'' @ name @ '' = '' @ dec_int (sint off)"

definition dump_sapi :: "engine_layout \<Rightarrow> bytes list" where
  "dump_sapi L =
     [dump_addr ''sapi_module'' (pp_sapi_module L),
      dump_field ''name'' (SM_name L),
      dump_addr ''sapi_globals'' (pp_sapi_globals L),
      dump_field ''request_info.path_translated'' (SG_request_info_path_translated L),
      dump_field ''request_info.request_method'' (SG_request_info_request_method L),
      dump_field ''request_info.request_uri'' (SG_request_info_request_uri L),
      dump_field ''request_info.argc'' (SG_request_info_argc L),
      dump_field ''request_info.argv'' (SG_request_info_argv L),
      dump_field ''global_request_time'' (SG_global_request_time L)]"

definition dump_ex :: "engine_layout \<Rightarrow> bytes list" where
  "dump_ex L =
     [dump_addr ''executor_globals'' (pp_executor_globals L),
      dump_field ''current_execute_data'' (EG_current_execute_data L),
      dump_addr ''executor_globals.current_execute_data'' (la_execute_data L),
      dump_field ''opline'' (EX_opline L),
      dump_field ''prev_execute_data'' (EX_prev_execute_data L)]"

definition dump_func5 :: "engine_layout \<Rightarrow> bytes list" where
  "dump_func5 L =
     [dump_field ''function_state.function'' (EX_func L),
      dump_field ''object'' (EX_This L),
      dump_addr ''executor_globals.current_execute_data->function_state.function'' (la_func L),
      dump_field ''type'' (la_func_type L),
      dump_field ''op_array'' (la_func_op_array L),
      dump_field ''function_name'' (EX_FUNC_name L),
      dump_field ''scope'' (EX_FUNC_scope L),
      dump_addr ''executor_globals.current_execute_data->function_state.function.op_array'' (la_func L + la_func_op_array L),
      dump_field ''filename'' (EX_FUNC_oparray_filename L),
      dump_addr ''executor_globals.current_execute_data->function_state.function.scope'' (la_scope L),
      dump_field ''name'' (EX_FUNC_SCOPE_name L)]"

definition dump_func7 :: "engine_layout \<Rightarrow> bytes list" where
  "dump_func7 L =
     [dump_field ''func'' (EX_func L),
      dump_field ''This'' (EX_This L),
      dump_addr ''executor_globals.current_execute_data->func'' (la_func L),
      dump_field ''type'' (la_func_type L),
      dump_field ''op_array'' (la_func_op_array L),
      dump_field ''function_name'' (EX_FUNC_name L),
      dump_field ''scope'' (EX_FUNC_scope L),
      dump_addr ''executor_globals.current_execute_data->func.op_array'' (la_func L + la_func_op_array L),
      dump_field ''filename'' (EX_FUNC_oparray_filename L),
      dump_addr ''executor_globals.current_execute_data->func.scope'' (la_scope L),
      dump_field ''name'' (EX_FUNC_SCOPE_name L)]"

definition dump_opline :: "engine_layout \<Rightarrow> bytes list" where
  "dump_opline L =
     [dump_addr ''executor_globals.current_execute_data->opline'' (la_opline L),
      dump_field ''extended_value'' (EX_OPLINE_extended_value L),
      dump_field ''lineno'' (EX_OPLINE_lineno L)]"

definition newline :: char where
  "newline = CHR 0x0A"

definition dump_lines :: "int \<Rightarrow> zend_env \<Rightarrow> engine_layout \<Rightarrow> bytes list" where
  "dump_lines php_version_id Z L =
     (''PHP_VERSION = '' @ ze_php_version Z) #
     (if php_version_id < 50500 then [''not supported < PHP 5.5'']
      else dump_sapi L @ dump_ex L @ (if php_version_id < 70000 then dump_func5 L else dump_func7 L) @ dump_opline L)"

definition trace_dump_address :: "int \<Rightarrow> zend_env \<Rightarrow> engine_layout \<Rightarrow> bytes" where
  "trace_dump_address php_version_id Z L = concat (map (\<lambda>line. line @ [newline]) (dump_lines php_version_id Z L))"

section \<open>The text leaves nothing open\<close>

lemma lines_inject:
  assumes "list_all (\<lambda>s. newline \<notin> set s) xs" and "list_all (\<lambda>s. newline \<notin> set s) ys"
    and "concat (map (\<lambda>s. s @ [newline]) xs) = concat (map (\<lambda>s. s @ [newline]) ys)"
  shows "xs = ys"
  using assms
proof (induction xs arbitrary: ys)
  case Nil
  then show ?case by (cases ys) auto
next
  case (Cons x xs)
  then obtain y ys' where ys: "ys = y # ys'" by (cases ys) auto
  have "takeWhile (\<lambda>c. c \<noteq> newline) (s @ newline # r) = s" if "newline \<notin> set s" for s r
    using that by (induction s) auto
  from this [of x "concat (map (\<lambda>s. s @ [newline]) xs)"] this [of y "concat (map (\<lambda>s. s @ [newline]) ys')"]
  have "x = y" using Cons.prems ys by simp
  with Cons ys show ?case by simp
qed

lemma digits_no_newline: "list_all (\<lambda>c. digit_value c < 16) s \<Longrightarrow> newline \<notin> set s"
  by (induction s) (auto simp: digit_value_def newline_def)

lemma hex_nat_digits: "list_all (\<lambda>c. digit_value c < 16) (hex_nat n) \<and> digits_value 16 (hex_nat n) = n"
proof (induction n rule: hex_nat.induct)
  case (1 n)
  have d: "digit_value (hex_char m) = m" if "m < 16" for m
    using that by (auto simp: digit_value_def hex_char_def Let_def)
  show ?case
  proof (cases "n < 16")
    case True
    then show ?thesis by (simp add: hex_nat.simps [of n] d digits_value_def)
  next
    case False
    with 1 show ?thesis by (simp add: hex_nat.simps [of n] d digits_value_append)
  qed
qed

lemma hex_inject [simp]: "hex_nat m = hex_nat n \<longleftrightarrow> m = n"
  using hex_nat_digits by metis

lemma dec_int_inject [simp]: "dec_int i = dec_int j \<longleftrightarrow> i = j"
proof -
  have d: "dec_nat m = dec_nat n \<longleftrightarrow> m = n" for m n using dec_nat_digits by metis
  have s: "dec_nat m \<noteq> CHR ''-'' # r" for m r
    using dec_nat_digits [of m] digit_not_sign [of "CHR ''-''"] by (auto simp: list_all_iff)
  show ?thesis using s [symmetric] s by (auto simp: dec_int_def d)
qed

lemma dump_addr_eq [simp]: "dump_addr name a = dump_addr name b \<longleftrightarrow> a = b"
  by (simp add: dump_addr_def word_unat_eq_iff)

lemma dump_field_eq [simp]: "dump_field name a = dump_field name b \<longleftrightarrow> a = b"
  by (auto simp: dump_field_def intro: signed_word_eqI)

lemma dump_newline:
  "newline \<notin> set name \<Longrightarrow> newline \<notin> set (dump_addr name a)" "newline \<notin> set name \<Longrightarrow> newline \<notin> set (dump_field name a)"
proof -
  have h: "newline \<notin> set (hex_nat n)" for n using digits_no_newline hex_nat_digits by blast
  have "newline \<notin> set (dec_nat n)" for n
    using digits_no_newline [of "dec_nat n"] dec_nat_digits [of n] by (fastforce simp: list_all_iff)
  then have d: "newline \<notin> set (dec_int i)" for i by (simp add: dec_int_def newline_def)
  show "newline \<notin> set name \<Longrightarrow> newline \<notin> set (dump_addr name a)" "newline \<notin> set name \<Longrightarrow> newline \<notin> set (dump_field name a)"
    using h d by (auto simp: dump_addr_def dump_field_def newline_def)
qed

lemmas dump_defs = dump_lines_def dump_sapi_def dump_ex_def dump_func5_def dump_func7_def dump_opline_def

lemma dump_lines_ok:
  assumes "newline \<notin> set (ze_php_version Z)"
  shows "list_all (\<lambda>s. newline \<notin> set s) (dump_lines v Z L)"
  using assms by (simp add: dump_defs dump_newline [unfolded newline_def] newline_def)


definition sample_layout :: engine_layout where
  "sample_layout = pt_ptrace_preset_t.extend preset_70012
     (engine_layout.fields 0x7ffff5a12000 0x7ffff5a60000 0 0 0 0x7ffff5a70000)"


end
