(* ===== verification/Sds_Edit.thy ===== *)
theory Sds_Edit
  imports Sds
begin

text \<open>
  The rest of \<open>deps/sds\<close>: editing a string where it is (trimming, ranges, case, characters), comparing,
  splitting by a separator and joining, and the text of a number.

  As in \<open>Sds\<close>, the outer \<open>None\<close> is undefined behaviour. The indices of \<open>sdsrange\<close> are the \<open>int\<close> values of the
  sources, with the places where they are mixed with \<open>size_t\<close> written out.
\<close>

section \<open>Editing in place\<close>

text \<open>
  The last lines of \<open>sdstrim\<close> and \<open>sdsrange\<close>: move a part of the string to the front, end it there, and
  turn what is cut off into free space.
\<close>

definition sds_shrink :: "bool \<Rightarrow> nat \<Rightarrow> nat \<Rightarrow> sdshdr \<Rightarrow> sdshdr option" where
  "sds_shrink moves from newlen s = do {
     b \<leftarrow> (if moves then do {
             (src, _) \<leftarrow> peek newlen (drop from (sh_buf s));
             store 0 src (sh_buf s)
           } else Some (sh_buf s));
     b \<leftarrow> store newlen [NUL] b;
     Some \<lparr>sh_len = to_int32 (int newlen), sh_free = to_int32 (sh_free s + (sh_len s - int newlen)), sh_buf = b\<rparr>
   }"

text \<open>\<open>strchr(cset, c)\<close> finds the terminating NUL as well.\<close>

definition in_cset :: "bytes \<Rightarrow> char \<Rightarrow> bool" where
  "in_cset cset c \<longleftrightarrow> c = NUL \<or> c \<in> set (cstr cset)"

definition byte_at :: "bytes \<Rightarrow> nat \<Rightarrow> char option" where
  "byte_at b i = (if i < length b then Some (b ! i) else None)"

text \<open>The two loops: \<open>sp\<close> goes up to the end, \<open>ep\<close> goes down and stops at the start.\<close>

function trim_left :: "bytes \<Rightarrow> bytes \<Rightarrow> nat \<Rightarrow> nat \<Rightarrow> nat option" where
  "trim_left cset b len sp =
     (if sp < len then do {
        c \<leftarrow> byte_at b sp;
        if in_cset cset c then trim_left cset b len (Suc sp) else Some sp
      } else Some sp)"
  by pat_completeness auto
termination by (relation "measure (\<lambda>(cset, b, len, sp). len - sp)") auto

fun trim_right :: "bytes \<Rightarrow> bytes \<Rightarrow> nat \<Rightarrow> nat option" where
  "trim_right cset b 0 = Some 0"
| "trim_right cset b (Suc ep) = do {
     c \<leftarrow> byte_at b (Suc ep);
     if in_cset cset c then trim_right cset b ep else Some (Suc ep)
   }"

declare trim_left.simps [simp del]

text \<open>On an empty string \<open>ep\<close> is one in front of the start, and nothing is kept.\<close>

definition sdstrim :: "bytes \<Rightarrow> sdshdr \<Rightarrow> sdshdr option" where
  "sdstrim cset s = do {
     let len = sdslen s;
     sp \<leftarrow> trim_left cset (sh_buf s) len 0;
     if len = 0 then sds_shrink (sp \<noteq> 0) sp 0 s
     else do {
       ep \<leftarrow> trim_right cset (sh_buf s) (len - 1);
       sds_shrink (sp \<noteq> 0) sp (if sp > ep then 0 else ep - sp + 1) s
     }
   }"

text \<open>\<open>(end - start) + 1\<close> on \<open>int\<close> overflows for 0 and the largest \<open>int\<close>.\<close>

definition range_len :: "int \<Rightarrow> int \<Rightarrow> int option" where
  "range_len start stop = (if start > stop then Some 0 else if stop - start + 1 \<ge> 2 ^ 31 then None else Some (stop - start + 1))"

definition range_index :: "nat \<Rightarrow> int \<Rightarrow> int" where
  "range_index len i =
     (if i < 0 then let i = to_int32 (int len + i) in if i < 0 then 0 else i else i)"

definition sdsrange :: "int \<Rightarrow> int \<Rightarrow> sdshdr \<Rightarrow> sdshdr option" where
  "sdsrange start stop s =
     (let len = sdslen s in
      if len = 0 then Some s
      else do {
        let start = range_index len start;
        let stop = range_index len stop;
        newlen \<leftarrow> range_len start stop;
        (start, newlen) \<leftarrow>
          (if newlen \<noteq> 0 then
             if start \<ge> to_int32 (int len) then Some (start, 0)
             else if stop \<ge> to_int32 (int len)
             then map_option (Pair start) (range_len start (to_int32 (int len - 1)))
             else Some (start, newlen)
           else Some (0, newlen));
        sds_shrink (start \<noteq> 0 \<and> newlen \<noteq> 0) (nat start) (nat newlen) s
      })"

text \<open>The functions of \<open>ctype.h\<close> in the C locale, which leave bytes above 127 alone.\<close>

definition tolower :: "char \<Rightarrow> char" where
  "tolower c = (if 65 \<le> (of_char c :: nat) \<and> (of_char c :: nat) \<le> 90 then char_of ((of_char c :: nat) + 32) else c)"

definition toupper :: "char \<Rightarrow> char" where
  "toupper c = (if 97 \<le> (of_char c :: nat) \<and> (of_char c :: nat) \<le> 122 then char_of ((of_char c :: nat) - 32) else c)"

text \<open>A loop over the bytes of the string that replaces each of them.\<close>

fun each_byte :: "(char \<Rightarrow> char) \<Rightarrow> nat \<Rightarrow> nat \<Rightarrow> bytes \<Rightarrow> bytes option" where
  "each_byte f j 0 b = Some b"
| "each_byte f j (Suc n) b = do {
     c \<leftarrow> byte_at b j;
     each_byte f (Suc j) n (b[j := f c])
   }"

definition sdstolower :: "sdshdr \<Rightarrow> sdshdr option" where
  "sdstolower s = do { b \<leftarrow> each_byte tolower 0 (nat (to_int32 (int (sdslen s)))) (sh_buf s); Some (s\<lparr>sh_buf := b\<rparr>) }"

definition sdstoupper :: "sdshdr \<Rightarrow> sdshdr option" where
  "sdstoupper s = do { b \<leftarrow> each_byte toupper 0 (nat (to_int32 (int (sdslen s)))) (sh_buf s); Some (s\<lparr>sh_buf := b\<rparr>) }"

text \<open>The inner loop of \<open>sdsmapchars\<close>: the first character of \<open>from\<close> that is the one at hand decides.\<close>

fun map_char :: "nat \<Rightarrow> bytes \<Rightarrow> bytes \<Rightarrow> char \<Rightarrow> char option" where
  "map_char 0 from to c = Some c"
| "map_char (Suc n) (f # from) (t # to) c = (if c = f then Some t else map_char n from to c)"
| "map_char (Suc n) _ _ c = None"

fun map_bytes :: "nat \<Rightarrow> bytes \<Rightarrow> bytes \<Rightarrow> nat \<Rightarrow> nat \<Rightarrow> bytes \<Rightarrow> bytes option" where
  "map_bytes setlen from to j 0 b = Some b"
| "map_bytes setlen from to j (Suc n) b = do {
     c \<leftarrow> byte_at b j;
     d \<leftarrow> map_char setlen from to c;
     map_bytes setlen from to (Suc j) n (b[j := d])
   }"

definition sdsmapchars :: "sdshdr \<Rightarrow> bytes \<Rightarrow> bytes \<Rightarrow> nat \<Rightarrow> sdshdr option" where
  "sdsmapchars s from to setlen = do {
     b \<leftarrow> map_bytes setlen from to 0 (sdslen s) (sh_buf s);
     Some (s\<lparr>sh_buf := b\<rparr>)
   }"

section \<open>Comparing\<close>

text \<open>\<open>memcmp\<close>: the difference of the first two bytes, as unsigned values, that are not the same.\<close>

fun memcmp :: "bytes \<Rightarrow> bytes \<Rightarrow> nat \<Rightarrow> int option" where
  "memcmp a b 0 = Some 0"
| "memcmp (x # a) (y # b) (Suc n) = (if x = y then memcmp a b n else Some (int (of_char x) - int (of_char y)))"
| "memcmp _ _ (Suc n) = None"

definition sdscmp :: "sdshdr \<Rightarrow> sdshdr \<Rightarrow> int option" where
  "sdscmp s1 s2 = do {
     let l1 = sdslen s1;
     let l2 = sdslen s2;
     cmp \<leftarrow> memcmp (sh_buf s1) (sh_buf s2) (if l1 < l2 then l1 else l2);
     if cmp = 0 then Some (to_int32 (int l1 - int l2)) else Some cmp
   }"

section \<open>Splitting and joining\<close>

definition sep_at :: "bytes \<Rightarrow> bytes \<Rightarrow> nat \<Rightarrow> nat \<Rightarrow> bool option" where
  "sep_at s sep seplen j = do {
     (a, _) \<leftarrow> peek seplen (drop j s);
     (b, _) \<leftarrow> peek seplen sep;
     Some ((seplen = 1 \<and> hd a = hd b) \<or> a = b)
   }"

text \<open>
  The loop of \<open>sdssplitlen\<close> with the tokens found so far; \<open>m\<close> is \<open>seplen - 1\<close>. The result is the array, or
  \<open>NULL\<close> after the clean-up, and what is written to \<open>count\<close>.
\<close>

definition split_cleanup :: "(sds list option \<times> int option) option" where
  "split_cleanup = Some (None, Some 0)"

function split_tokens :: "mem_env \<Rightarrow> bytes \<Rightarrow> nat \<Rightarrow> bytes \<Rightarrow> nat \<Rightarrow> nat \<Rightarrow> nat \<Rightarrow> nat \<Rightarrow> sds list \<Rightarrow>
  (sds list option \<times> int option) option" where
  "split_tokens E s len sep m slots j start toks =
     (if j + m < len then
        let grow = slots < length toks + 2; slots = (if grow then 2 * slots else slots) in
        if grow \<and> \<not> alloc_ok E (8 * slots) then split_cleanup
        else do {
          hit \<leftarrow> sep_at s sep (Suc m) j;
          if hit then do {
            tok \<leftarrow> sdsnewlen E (Some (drop start s)) (j - start);
            if tok = None then split_cleanup
            else split_tokens E s len sep m slots (j + m + 1) (j + Suc m) (toks @ [tok])
          } else split_tokens E s len sep m slots (j + 1) start toks
        }
      else do {
        tok \<leftarrow> sdsnewlen E (Some (drop start s)) (len - start);
        if tok = None then split_cleanup else Some (Some (toks @ [tok]), Some (int (length toks) + 1))
      })"
  by pat_completeness auto
termination by (relation "measure (\<lambda>(E, s, len, sep, m, slots, j, start, toks). len - j)") auto

declare split_tokens.simps [simp del]

definition sdssplitlen :: "mem_env \<Rightarrow> bytes \<Rightarrow> int \<Rightarrow> bytes \<Rightarrow> int \<Rightarrow> (sds list option \<times> int option) option" where
  "sdssplitlen E s len sep seplen =
     (if seplen < 1 \<or> len < 0 then Some (None, None)
      else if \<not> alloc_ok E (8 * 5) then Some (None, None)
      else if len = 0 then Some (Some [], Some 0)
      else split_tokens E s (nat len) sep (nat (seplen - 1)) 5 0 0 [])"

text \<open>The loop that \<open>sdsjoin\<close> and \<open>sdsjoinsds\<close> share: \<open>cat\<close> appends an element, \<open>cat_sep\<close> the separator.\<close>

fun join_loop :: "(sdshdr \<Rightarrow> 'a \<Rightarrow> sds option) \<Rightarrow> (sdshdr \<Rightarrow> sds option) \<Rightarrow> nat \<Rightarrow> 'a list \<Rightarrow> sds \<Rightarrow> sds option" where
  "join_loop cat cat_sep 0 xs join = Some join"
| "join_loop cat cat_sep (Suc n) [] join = None"
| "join_loop cat cat_sep (Suc n) (x # xs) join = do {
     h \<leftarrow> join;
     join \<leftarrow> cat h x;
     join \<leftarrow> (if n \<noteq> 0 then do { h \<leftarrow> join; cat_sep h } else Some join);
     join_loop cat cat_sep n xs join
   }"

definition sdsjoin :: "mem_env \<Rightarrow> bytes list \<Rightarrow> int \<Rightarrow> bytes \<Rightarrow> nat \<Rightarrow> sds option" where
  "sdsjoin E argv argc sep seplen = do {
     join \<leftarrow> sdsempty E;
     join_loop (sdscat E) (\<lambda>s. sdscatlen E s sep seplen) (nat argc) argv join
   }"

definition sdsjoinsds :: "mem_env \<Rightarrow> sds list \<Rightarrow> int \<Rightarrow> bytes \<Rightarrow> nat \<Rightarrow> sds option" where
  "sdsjoinsds E argv argc sep seplen = do {
     join \<leftarrow> sdsempty E;
     join_loop (\<lambda>s t. Option.bind t (sdscatsds E s)) (\<lambda>s. sdscatlen E s sep seplen) (nat argc) argv join
   }"

section \<open>Freeing\<close>

text \<open>
  What is given back to the allocator, in order: the block of a string, or an array with a number of
  elements.
\<close>

datatype block = Str sdshdr | Array nat

definition sdsfree :: "sds \<Rightarrow> block list" where
  "sdsfree s = (case s of None \<Rightarrow> [] | Some h \<Rightarrow> [Str h])"

text \<open>\<open>while (count--)\<close> frees from the end.\<close>

fun free_tokens :: "nat \<Rightarrow> sds list \<Rightarrow> block list option" where
  "free_tokens 0 toks = Some []"
| "free_tokens (Suc n) toks =
     (if n < length toks then do { bs \<leftarrow> free_tokens n toks; Some (sdsfree (toks ! n) @ bs) } else None)"

definition sdsfreesplitres :: "sds list option \<Rightarrow> int \<Rightarrow> block list option" where
  "sdsfreesplitres tokens count =
     (case tokens of
        None \<Rightarrow> Some []
      | Some toks \<Rightarrow> if count < 0 then None
          else do { bs \<leftarrow> free_tokens (nat count) toks; Some (bs @ [Array (length toks)]) })"

section \<open>The text of a number\<close>

text \<open>The digits are written to \<open>buf\<close> from its end; \<open>-value\<close> of the smallest \<open>long long\<close> overflows.\<close>

function digit_loop :: "nat \<Rightarrow> nat \<Rightarrow> bytes \<Rightarrow> (nat \<times> bytes) option" where
  "digit_loop v p buf =
     (if p < length buf then
        let buf = buf[p := char_of (48 + v mod 10)] in
        if v div 10 = 0 then (if p = 0 then None else Some (p - 1, buf))
        else if p = 0 then None else digit_loop (v div 10) (p - 1) buf
      else None)"
  by pat_completeness auto
termination by (relation "measure (\<lambda>(v, p, buf). v)") auto

declare digit_loop.simps [simp del]

definition sdsfromlonglong :: "mem_env \<Rightarrow> int \<Rightarrow> bytes \<Rightarrow> sds option" where
  "sdsfromlonglong E n buf =
     (if n = - (2 ^ 63) then None
      else do {
        (p, buf) \<leftarrow> digit_loop (nat \<bar>n\<bar>) 31 buf;
        (p, buf) \<leftarrow> (if n < 0 then if p = 0 then None else Some (p - 1, buf[p := CHR ''-'']) else Some (p, buf));
        sdsnewlen E (Some (drop (p + 1) buf)) (32 - (p + 1))
      })"

section \<open>Editing keeps the string well-formed\<close>

lemma shrink_spec:
  assumes wf: "sds_wf s" and n: "from + n \<le> length (sds_str s)"
    and still: "\<not> moves \<Longrightarrow> take n (drop from (sds_str s)) = take n (sds_str s)"
  shows "\<exists>s'. sds_shrink moves from n s = Some s' \<and> sds_wf s' \<and> sds_str s' = take n (drop from (sds_str s))"
proof -
  from wf obtain r where r: "sh_len s = int (length (sds_str s))" "sh_free s = int (length r)"
    "sh_buf s = sds_str s @ NUL # r" "length (sds_str s) + length r < 2 ^ 31" by (rule sds_blocksE)
  let ?t = "take n (drop from (sds_str s))" and ?r = "drop (Suc n) (sh_buf s)"
  let ?s = "\<lparr>sh_len = int n, sh_free = int (length ?r), sh_buf = ?t @ NUL # ?r\<rparr>"
  have len: "length ?t = n" using n by simp
  define b where "b = (if moves then ?t @ drop n (sh_buf s) else sh_buf s)"
  have "peek n (drop from (sh_buf s)) = Some (?t, drop (from + n) (sh_buf s))"
    using n r(3) by (auto simp: peek_def add.commute)
  moreover have "store 0 ?t (sh_buf s) = Some (?t @ drop n (sh_buf s))"
    using n r(3) by (simp add: mem_simps len)
  ultimately have b: "(if moves then do { (src, _) \<leftarrow> peek n (drop from (sh_buf s)); store 0 src (sh_buf s) } else Some (sh_buf s)) = Some b"
    by (simp add: b_def)
  have "b = ?t @ drop n (sh_buf s)"
  proof (cases moves)
    case False
    then have "?t = take n (sh_buf s)" using still n r(3) by simp
    then show ?thesis using False by (simp add: b_def)
  qed (simp add: b_def)
  then have "store n [NUL] b = Some (?t @ NUL # ?r)"
    using n r(3) len by (simp add: store_append)
  with b have "sds_shrink moves from n s = Some ?s"
    using r n by (simp add: sds_shrink_def int_simps)
  moreover have "sds_wf ?s" "sds_str ?s = ?t"
    using r n len by (intro sds_of_blocks [of _ ?t ?r]; simp)+
  ultimately show ?thesis by blast
qed

lemma trim_left_spec:
  "len \<le> length b \<Longrightarrow> sp \<le> len \<Longrightarrow>
   trim_left cset b len sp = Some (len - length (dropWhile (in_cset cset) (drop sp (take len b))))"
proof (induction cset b len sp rule: trim_left.induct)
  case (1 cset b len sp)
  show ?case
  proof (cases "sp < len")
    case True
    then have "drop sp (take len b) = b ! sp # drop (Suc sp) (take len b)"
      using 1 by (simp add: Cons_nth_drop_Suc [symmetric])
    then show ?thesis using 1 True by (subst trim_left.simps) (auto simp: byte_at_def)
  qed (use 1 in \<open>subst trim_left.simps, simp\<close>)
qed

text \<open>What is left on the right; the first byte is never looked at.\<close>

lemma trim_right_spec:
  "ep < length b \<Longrightarrow> trim_right cset b ep = Some (length (dropWhile (in_cset cset) (rev (drop 1 (take (Suc ep) b)))))"
proof (induction ep)
  case 0
  then show ?case by simp
next
  case (Suc ep)
  have "rev (drop 1 (take (Suc (Suc ep)) b)) = b ! Suc ep # rev (drop 1 (take (Suc ep) b))"
    using Suc.prems by (simp add: take_Suc_conv_app_nth [of "Suc ep"])
  with Suc show ?case by (simp add: byte_at_def)
qed

definition trim_end :: "(char \<Rightarrow> bool) \<Rightarrow> bytes \<Rightarrow> bytes" where
  "trim_end P xs = rev (dropWhile P (rev xs))"

lemma dropWhile_stop: "\<not> P x \<Longrightarrow> dropWhile P (as @ x # bs) = dropWhile P as @ x # bs"
  by (induction as) auto

lemma trim_end_first: "\<not> P x \<Longrightarrow> trim_end P (x # ys) = x # trim_end P ys"
  by (simp add: trim_end_def dropWhile_stop)

lemma trim_end_le: "length (trim_end P xs) \<le> length xs"
  by (simp add: trim_end_def length_dropWhile_le [of P "rev xs", simplified])

lemma trim_end_prefix: "take (length (trim_end P xs)) xs = trim_end P xs"
proof -
  have "xs = trim_end P xs @ rev (takeWhile P (rev xs))"
    by (metis rev_append rev_rev_ident takeWhile_dropWhile_id trim_end_def)
  then show ?thesis by (metis append_eq_conv_conj)
qed

lemma trim_ends:
  assumes "xs = pre @ x # ys" and "\<forall>y\<in>set pre. P y" and "\<not> P x"
  shows "length xs - length (dropWhile P xs) = length pre"
    and "length (dropWhile P (rev (drop 1 xs))) = length pre + length (trim_end P ys)"
    and "dropWhile P xs = x # ys"
proof -
  show dw: "dropWhile P xs = x # ys" using assms by simp
  show "length xs - length (dropWhile P xs) = length pre" unfolding dw using assms(1) by simp
  show "length (dropWhile P (rev (drop 1 xs))) = length pre + length (trim_end P ys)"
    using assms by (cases pre) (simp_all add: dropWhile_stop trim_end_def)
qed

lemma sdstrim_spec:
  assumes wf: "sds_wf s"
  shows "\<exists>s'. sdstrim cset s = Some s' \<and> sds_wf s' \<and>
    sds_str s' = trim_end (in_cset cset) (dropWhile (in_cset cset) (sds_str s))"
proof -
  let ?P = "in_cset cset" and ?xs = "sds_str s"
  from wf obtain r where r: "sh_buf s = ?xs @ NUL # r" by (rule sds_blocksE)
  have len: "sdslen s = length ?xs" by (rule sdslen_str [OF wf])
  define sp where "sp = length ?xs - length (dropWhile ?P ?xs)"
  have left: "trim_left cset (sh_buf s) (length ?xs) 0 = Some sp"
    using trim_left_spec [of "length ?xs" "sh_buf s" 0 cset] r by (simp add: sp_def)
  show ?thesis
  proof (cases "?xs = []")
    case True
    then show ?thesis using shrink_spec [OF wf, of 0 0 False] left len by (simp add: sdstrim_def sp_def trim_end_def)
  next
    case False
    define ep where "ep = length (dropWhile ?P (rev (drop 1 ?xs)))"
    have "take (Suc (length ?xs - 1)) (sh_buf s) = ?xs" using False r by simp
    then have right: "trim_right cset (sh_buf s) (length ?xs - 1) = Some ep"
      using trim_right_spec [of "length ?xs - 1" "sh_buf s" cset] False r by (simp add: ep_def)
    let ?n = "if sp > ep then 0 else ep - sp + 1"
    have eq: "sdstrim cset s = sds_shrink (sp \<noteq> 0) sp ?n s" using left right len False by (simp add: sdstrim_def)
    have "sp + ?n \<le> length ?xs \<and> take ?n (drop sp ?xs) = trim_end ?P (dropWhile ?P ?xs)"
    proof (cases "\<forall>x\<in>set ?xs. ?P x")
      case True
      have "ep \<le> length (drop 1 ?xs)" unfolding ep_def by (metis length_dropWhile_le length_rev)
      moreover have dw: "dropWhile ?P ?xs = []" using True by (simp add: dropWhile_eq_Nil_conv)
      then have sp: "sp = length ?xs" unfolding sp_def dw by simp
      moreover have "0 < length ?xs" using False by simp
      ultimately have "ep < sp" by (simp del: length_greater_0_conv)
      then show ?thesis unfolding dw using sp by (simp add: trim_end_def)
    next
      case some: False
      then have "\<exists>x\<in>set ?xs. \<not> ?P x" by blast
      from split_list_first_prop [OF this] obtain pre x ys where
        xs: "?xs = pre @ x # ys" "\<forall>y\<in>set pre. ?P y" "\<not> ?P x" by auto
      note e = trim_ends [OF xs]
      have sp: "sp = length pre" and ep: "ep = length pre + length (trim_end ?P ys)" using e by (simp_all add: sp_def ep_def)
      then show ?thesis
        using e(3) xs(1,3) trim_end_le [of ?P ys] trim_end_prefix [of ?P ys] by (simp add: trim_end_first)
    qed
    with shrink_spec [OF wf, of sp ?n "sp \<noteq> 0"] eq show ?thesis by auto
  qed
qed

text \<open>The part of a list between two indices, both included.\<close>

definition slice :: "int \<Rightarrow> int \<Rightarrow> 'a list \<Rightarrow> 'a list" where
  "slice i j xs = take (nat (j - i + 1)) (drop (nat i) xs)"

text \<open>Where an index points: a negative one counts from the end, and stops at the start.\<close>

definition index_of :: "nat \<Rightarrow> int \<Rightarrow> int" where
  "index_of n i = (if i < 0 then max 0 (int n + i) else i)"

lemma range_index_eq: "n < 2 ^ 31 \<Longrightarrow> - (2 ^ 31) \<le> i \<Longrightarrow> range_index n i = index_of n i"
  by (simp add: range_index_def index_of_def int_simps Let_def)

lemma sds_short: "sds_wf s \<Longrightarrow> length (sds_str s) < 2 ^ 31"
  by (erule sds_wfE) simp

lemma shrink_to_nothing: "sds_wf s \<Longrightarrow> \<exists>s'. sds_shrink False from 0 s = Some s' \<and> sds_wf s' \<and> sds_str s' = []"
  using shrink_spec [of s 0 0 False] by (simp add: sds_shrink_def)

lemma sdsrange_spec:
  assumes wf: "sds_wf s" and start: "- (2 ^ 31) \<le> start" and stop: "- (2 ^ 31) \<le> stop"
    and safe: "index_of (length (sds_str s)) stop - index_of (length (sds_str s)) start < 2 ^ 31 - 1"
  shows "\<exists>s'. sdsrange start stop s = Some s' \<and> sds_wf s' \<and>
    sds_str s' = slice (index_of (length (sds_str s)) start) (index_of (length (sds_str s)) stop) (sds_str s)"
proof -
  let ?xs = "sds_str s"
  define n where "n = length ?xs"
  define a b where "a = index_of n start" and "b = index_of n stop"
  have len: "sdslen s = n" and small: "n < 2 ^ 31"
    using sdslen_str [OF wf] sds_short [OF wf] by (simp_all add: n_def)
  have ab: "range_index n start = a" "range_index n stop = b" "0 \<le> a" "0 \<le> b" "b - a < 2 ^ 31 - 1"
    using small start stop safe by (simp_all add: range_index_eq a_def b_def n_def) (simp_all add: index_of_def)
  have n32: "to_int32 (int n) = int n" "to_int32 (int n - 1) = int n - 1" using small by (simp_all add: int_simps)
  consider "n = 0" | "n \<noteq> 0" "a > b" | "n \<noteq> 0" "a \<le> b" "a \<ge> int n" | "n \<noteq> 0" "a \<le> b" "a < int n" "b \<ge> int n" | "n \<noteq> 0" "a \<le> b" "b < int n"
    by linarith
  then have "\<exists>s'. sdsrange start stop s = Some s' \<and> sds_wf s' \<and> sds_str s' = slice a b ?xs"
  proof cases
    case 1
    then show ?thesis using wf len by (simp add: sdsrange_def slice_def n_def)
  next
    case 2
    then show ?thesis
      using shrink_to_nothing [OF wf, of 0] len ab by (simp add: sdsrange_def range_len_def slice_def Let_def)
  next
    case 3
    then show ?thesis
      using shrink_to_nothing [OF wf, of "nat a"] len ab n32
      by (simp add: sdsrange_def range_len_def slice_def Let_def n_def [symmetric] nat_le_iff)
  next
    case 4
    have m: "nat a + nat (int n - 1 - a + 1) = n" using 4 ab(3) by simp
    have "slice a b ?xs = take (nat (int n - 1 - a + 1)) (drop (nat a) ?xs)"
      using 4 ab(3) by (simp add: slice_def n_def)
    then show ?thesis
      using shrink_spec [OF wf, of "nat a" "nat (int n - 1 - a + 1)" "a \<noteq> 0"] 4 len ab n32 m small
      by (auto simp: sdsrange_def range_len_def Let_def n_def)
  next
    case 5
    then show ?thesis
      using shrink_spec [OF wf, of "nat a" "nat (b - a + 1)" "a \<noteq> 0"] len ab n32
      by (simp add: sdsrange_def range_len_def slice_def Let_def n_def nat_add_distrib)
  qed
  then show ?thesis by (simp add: a_def b_def n_def)
qed

lemma sdsrange_overflows:
  assumes "sds_wf s" and "sds_str s \<noteq> []"
  shows "sdsrange 0 (2 ^ 31 - 1) s = None"
  using assms sdslen_str [OF assms(1)] by (simp add: sdsrange_def range_index_def range_len_def Let_def)

lemma each_byte_spec:
  "j + n \<le> length b \<Longrightarrow> each_byte f j n b = Some (take j b @ map f (take n (drop j b)) @ drop (j + n) b)"
proof (induction n arbitrary: j b)
  case (Suc n)
  then have j: "j < length b" by simp
  then have "drop j b = b ! j # drop (Suc j) b" by (simp add: Cons_nth_drop_Suc)
  moreover have "take (Suc j) (b[j := f (b ! j)]) = take j b @ [f (b ! j)]" "drop (Suc j) (b[j := f (b ! j)]) = drop (Suc j) b"
    using j by (simp_all add: take_Suc_conv_app_nth)
  ultimately show ?case using Suc.IH [of "Suc j" "b[j := f (b ! j)]"] Suc.prems by (simp add: byte_at_def drop_update_cancel)
qed simp

lemma map_bytes_each:
  "(\<And>c. map_char setlen from to c = Some (f c)) \<Longrightarrow> map_bytes setlen from to j n b = each_byte f j n b"
  by (induction n arbitrary: j b) simp_all

lemma map_char_spec:
  "length fs = length ts \<Longrightarrow> map_char (length fs) fs ts c = Some (case map_of (zip fs ts) c of None \<Rightarrow> c | Some d \<Rightarrow> d)"
  by (induction fs ts rule: list_induct2) auto

lemma edit_bytes:
  assumes wf: "sds_wf s" and b: "each_byte f 0 (length (sds_str s)) (sh_buf s) = Some b"
  shows "sds_wf (s\<lparr>sh_buf := b\<rparr>) \<and> sds_str (s\<lparr>sh_buf := b\<rparr>) = map f (sds_str s)"
proof -
  from wf obtain r where r: "sh_len s = int (length (sds_str s))" "sh_free s = int (length r)"
    "sh_buf s = sds_str s @ NUL # r" "length (sds_str s) + length r < 2 ^ 31" by (rule sds_blocksE)
  have "b = map f (sds_str s) @ NUL # r" using b r(3) by (simp add: each_byte_spec)
  then show ?thesis using r sds_of_blocks [of "s\<lparr>sh_buf := b\<rparr>" "map f (sds_str s)" r] by simp
qed

lemma each_byte_str: "sds_wf s \<Longrightarrow> \<exists>b. each_byte f 0 (length (sds_str s)) (sh_buf s) = Some b"
  by (erule sds_blocksE) (simp add: each_byte_spec)

lemma sdstolower_spec:
  assumes "sds_wf s"
  shows "\<exists>s'. sdstolower s = Some s' \<and> sds_wf s' \<and> sds_str s' = map tolower (sds_str s)"
  using edit_bytes [OF assms] each_byte_str [OF assms, of tolower] sds_short [OF assms] sdslen_str [OF assms]
  by (auto simp: sdstolower_def int_simps)

lemma sdstoupper_spec:
  assumes "sds_wf s"
  shows "\<exists>s'. sdstoupper s = Some s' \<and> sds_wf s' \<and> sds_str s' = map toupper (sds_str s)"
  using edit_bytes [OF assms] each_byte_str [OF assms, of toupper] sds_short [OF assms] sdslen_str [OF assms]
  by (auto simp: sdstoupper_def int_simps)

lemma sdsmapchars_spec:
  assumes "sds_wf s" and "length from = length to"
  shows "\<exists>s'. sdsmapchars s from to (length from) = Some s' \<and> sds_wf s' \<and>
    sds_str s' = map (\<lambda>c. case map_of (zip from to) c of None \<Rightarrow> c | Some d \<Rightarrow> d) (sds_str s)"
proof -
  let ?f = "\<lambda>c. case map_of (zip from to) c of None \<Rightarrow> c | Some d \<Rightarrow> d"
  obtain b where "each_byte ?f 0 (length (sds_str s)) (sh_buf s) = Some b" using each_byte_str [OF assms(1)] by blast
  with edit_bytes [OF assms(1) this] show ?thesis
    by (simp add: sdsmapchars_def sdslen_str [OF assms(1)] map_bytes_each [OF map_char_spec [OF assms(2)]])
qed

section \<open>The order\<close>

text \<open>The order of strings: byte by byte, and a prefix comes first.\<close>

fun bytes_cmp :: "bytes \<Rightarrow> bytes \<Rightarrow> int" where
  "bytes_cmp [] [] = 0"
| "bytes_cmp [] (y # ys) = -1"
| "bytes_cmp (x # xs) [] = 1"
| "bytes_cmp (x # xs) (y # ys) = (if x = y then bytes_cmp xs ys else if (of_char x :: nat) < of_char y then -1 else 1)"

lemma of_char_less: "x \<noteq> y \<Longrightarrow> \<not> (of_char x :: nat) < of_char y \<Longrightarrow> (of_char y :: nat) < of_char x"
  by (metis char_of_char linorder_neqE_nat)

lemma memcmp_cmp:
  "memcmp (xs @ a) (ys @ b) (min (length xs) (length ys)) = Some c \<Longrightarrow>
   sgn (if c = 0 then int (length xs) - int (length ys) else c) = bytes_cmp xs ys"
proof (induction xs ys rule: bytes_cmp.induct)
  case (4 x xs y ys)
  show ?case
  proof (cases "x = y")
    case False
    then consider "(of_char x :: nat) < of_char y" | "(of_char y :: nat) < of_char x" using of_char_less by blast
    then show ?thesis using 4 False by cases auto
  qed (use 4 in auto)
qed (auto simp: sgn_if)

lemma memcmp_total: "n \<le> length a \<Longrightarrow> n \<le> length b \<Longrightarrow> \<exists>c. memcmp a b n = Some c"
  by (induction a b n rule: memcmp.induct) auto

lemma sdscmp_spec:
  assumes "sds_wf s" and "sds_wf t"
  shows "\<exists>c. sdscmp s t = Some c \<and> sgn c = bytes_cmp (sds_str s) (sds_str t)"
proof -
  let ?xs = "sds_str s" and ?ys = "sds_str t"
  obtain a b where ab: "sh_buf s = ?xs @ NUL # a" "sh_buf t = ?ys @ NUL # b"
    using assms by (meson sds_blocksE)
  have len: "sdslen s = length ?xs" "sdslen t = length ?ys" "length ?xs < 2 ^ 31" "length ?ys < 2 ^ 31"
    using assms sdslen_str sds_short by auto
  have "min (length ?xs) (length ?ys) \<le> length (sh_buf s)" "min (length ?xs) (length ?ys) \<le> length (sh_buf t)"
    unfolding ab by (auto intro: min.coboundedI1 min.coboundedI2)
  from memcmp_total [OF this] obtain c where c: "memcmp (sh_buf s) (sh_buf t) (min (length ?xs) (length ?ys)) = Some c" by blast
  moreover have "(if length ?xs < length ?ys then length ?xs else length ?ys) = min (length ?xs) (length ?ys)" by (simp add: min_def)
  ultimately have "sdscmp s t = Some (if c = 0 then int (length ?xs) - int (length ?ys) else c)"
    using len(3,4) by (simp add: sdscmp_def len(1,2) Let_def int_simps)
  moreover have "sgn (if c = 0 then int (length ?xs) - int (length ?ys) else c) = bytes_cmp ?xs ?ys"
    using memcmp_cmp c ab by metis
  ultimately show ?thesis by blast
qed

lemma bytes_cmp_zero: "bytes_cmp xs ys = 0 \<longleftrightarrow> xs = ys"
  by (induction xs ys rule: bytes_cmp.induct) auto

lemma bytes_cmp_swap: "bytes_cmp ys xs = - bytes_cmp xs ys"
  by (induction xs ys rule: bytes_cmp.induct) (auto dest: of_char_less)

lemma bytes_cmp_trans: "bytes_cmp xs ys = -1 \<Longrightarrow> bytes_cmp ys zs = -1 \<Longrightarrow> bytes_cmp xs zs = -1"
proof (induction xs ys arbitrary: zs rule: bytes_cmp.induct)
  case (2 y ys)
  then show ?case by (cases zs) auto
next
  case (4 x xs y ys)
  then show ?case by (cases zs) (auto split: if_splits)
qed auto

section \<open>Splitting and joining\<close>

lemma sublist_at: "sublist sep t \<longleftrightarrow> (\<exists>i. i + length sep \<le> length t \<and> take (length sep) (drop i t) = sep)"
proof
  assume "sublist sep t"
  then obtain a b where "t = a @ sep @ b" by (auto simp: sublist_def)
  then show "\<exists>i. i + length sep \<le> length t \<and> take (length sep) (drop i t) = sep"
    by (intro exI [of _ "length a"]) simp
next
  assume "\<exists>i. i + length sep \<le> length t \<and> take (length sep) (drop i t) = sep"
  then show "sublist sep t"
    by (metis append_take_drop_id sublist_appendI)
qed

fun join_with :: "bytes \<Rightarrow> bytes list \<Rightarrow> bytes" where
  "join_with sep [] = []"
| "join_with sep [t] = t"
| "join_with sep (t # ts) = t @ sep @ join_with sep ts"

lemma join_with_Cons: "ts \<noteq> [] \<Longrightarrow> join_with sep (t # ts) = t @ sep @ join_with sep ts"
  by (cases ts) auto

lemma sep_at_eq:
  assumes "j + length sep \<le> length s" and "sep \<noteq> []"
  shows "sep_at s sep (length sep) j = Some (take (length sep) (drop j s) = sep)"
proof -
  have "length sep \<le> length (drop j s)" using assms by simp
  moreover have "hd (take (length sep) (drop j s)) = hd sep \<longleftrightarrow> take (length sep) (drop j s) = sep" if "length sep = 1"
    using that assms by (cases sep; cases "drop j s") auto
  ultimately show ?thesis by (auto simp: sep_at_def peek_def)
qed

lemma no_sep_before:
  assumes "\<And>i. start \<le> i \<Longrightarrow> i < j \<Longrightarrow> take (length sep) (drop i s) \<noteq> sep" and "stop < j + length sep" and "stop \<le> length s" and "sep \<noteq> []"
  shows "\<not> sublist sep (take (stop - start) (drop start s))"
proof
  assume "sublist sep (take (stop - start) (drop start s))"
  then obtain i where i: "i + length sep \<le> stop - start" "take (length sep) (drop i (take (stop - start) (drop start s))) = sep"
    using assms(3) by (auto simp: sublist_at)
  have "length sep \<le> stop - (i + start)" using i(1) by simp
  with i(2) have "take (length sep) (drop (start + i) s) = sep"
    by (simp add: drop_take min_absorb1 add.commute)
  moreover have "0 < length sep" using assms(4) by simp
  then have "start + i < j" using i(1) assms(2) by linarith
  ultimately show False using assms(1) [of "start + i"] by simp
qed

lemma split_tokens_spec:
  assumes "roomy E" and "length s = len" and "len < 2 ^ 31" and "length sep = Suc m"
  shows "start \<le> j \<Longrightarrow> j \<le> len \<Longrightarrow> (\<And>i. start \<le> i \<Longrightarrow> i < j \<Longrightarrow> take (length sep) (drop i s) \<noteq> sep) \<Longrightarrow>
    \<exists>ts. split_tokens E s len sep m slots j start toks =
        Some (Some (toks @ map (\<lambda>t. Some (mk_sds t)) ts), Some (int (length toks + length ts))) \<and>
      ts \<noteq> [] \<and> join_with sep ts = drop start s \<and> list_all (\<lambda>t. \<not> sublist sep t) ts"
proof (induction "len - j" arbitrary: slots j start toks rule: less_induct)
  case less
  have sep: "sep \<noteq> []" "length sep = Suc m" using assms(4) by auto
  note step = split_tokens.simps [of E s len sep m slots j start toks]
  let ?slots = "if slots < length toks + 2 then 2 * slots else slots"
  show ?case
  proof (cases "j + m < len")
    case True
    have hit: "sep_at s sep (Suc m) j = Some (take (length sep) (drop j s) = sep)"
      using sep_at_eq [of j sep s] True assms(2) sep by simp
    show ?thesis
    proof (cases "take (length sep) (drop j s) = sep")
      case at: True
      let ?t = "take (j - start) (drop start s)"
      have tok: "sdsnewlen E (Some (drop start s)) (j - start) = Some (Some (mk_sds ?t))"
        using less.prems assms by (intro sdsnewlen_bytes) auto
      have eq: "split_tokens E s len sep m slots j start toks =
          split_tokens E s len sep m ?slots (j + m + 1) (j + Suc m) (toks @ [Some (mk_sds ?t)])"
        using True hit at tok assms(1) by (subst step) (simp add: Let_def)
      have "\<exists>ts. split_tokens E s len sep m ?slots (j + m + 1) (j + Suc m) (toks @ [Some (mk_sds ?t)]) =
            Some (Some ((toks @ [Some (mk_sds ?t)]) @ map (\<lambda>t. Some (mk_sds t)) ts), Some (int (length (toks @ [Some (mk_sds ?t)]) + length ts))) \<and>
          ts \<noteq> [] \<and> join_with sep ts = drop (j + Suc m) s \<and> list_all (\<lambda>t. \<not> sublist sep t) ts"
        using True by (intro less.hyps) auto
      then obtain ts where ts: "split_tokens E s len sep m slots j start toks =
            Some (Some (toks @ map (\<lambda>t. Some (mk_sds t)) (?t # ts)), Some (int (length toks + length (?t # ts))))"
          "ts \<noteq> []" "join_with sep ts = drop (j + Suc m) s" "list_all (\<lambda>t. \<not> sublist sep t) ts"
        using eq by auto
      have "\<not> sublist sep ?t" using no_sep_before [of start j sep s j] less.prems assms(2) sep by auto
      moreover have "join_with sep (?t # ts) = drop start s"
      proof -
        have "sep @ drop (j + Suc m) s = drop j s"
          using at sep append_take_drop_id [of "length sep" "drop j s"] by (simp add: add.commute)
        moreover have "?t @ drop j s = drop start s"
          using less.prems(1) append_take_drop_id [of "j - start" "drop start s"] by simp
        ultimately show ?thesis using ts(2,3) by (simp add: join_with_Cons)
      qed
      ultimately show ?thesis using ts by (intro exI [of _ "?t # ts"]) simp
    next
      case False
      have eq: "split_tokens E s len sep m slots j start toks = split_tokens E s len sep m ?slots (j + 1) start toks"
        using True hit False assms(1) by (subst step) (simp add: Let_def)
      have "take (length sep) (drop i s) \<noteq> sep" if "start \<le> i" "i < j + 1" for i
        using that less.prems(3) [of i] False by (cases "i = j") auto
      then show ?thesis unfolding eq using True less.prems by (intro less.hyps) auto
    qed
  next
    case False
    let ?t = "drop start s"
    have "sdsnewlen E (Some ?t) (len - start) = Some (Some (mk_sds ?t))"
      using assms sdsnewlen_bytes [of E "len - start" ?t] by simp
    moreover have "\<not> sublist sep ?t"
      using no_sep_before [of start j sep s len] less.prems assms(2) sep False by auto
    ultimately show ?thesis using False by (subst step) (intro exI [of _ "[?t]"], simp)
  qed
qed

text \<open>What the loop over the elements needs of the function that appends one: it appends a text, if there is room.\<close>

locale appender =
  fixes cat :: "sdshdr \<Rightarrow> 'a \<Rightarrow> sds option" and content :: "'a \<Rightarrow> bytes" and ok :: "'a \<Rightarrow> bool"
  assumes cat_appends: "ok x \<Longrightarrow> sds_wf s \<Longrightarrow> length (sds_str s) + length (content x) + SDS_MAX_PREALLOC < 2 ^ 31 \<Longrightarrow>
    \<exists>s'. cat s x = Some (Some s') \<and> sds_wf s' \<and> sds_str s' = sds_str s @ content x"
begin

lemma join_loop_spec:
  assumes "roomy E" and "list_all ok xs"
  shows "sds_wf s \<Longrightarrow> length (sds_str s) + length (join_with sep (map content xs)) + SDS_MAX_PREALLOC < 2 ^ 31 \<Longrightarrow>
    \<exists>s'. join_loop cat (\<lambda>s. sdscatlen E s sep (length sep)) (length xs) xs (Some s) = Some (Some s') \<and> sds_wf s' \<and>
      sds_str s' = sds_str s @ join_with sep (map content xs)"
  using assms(2)
proof (induction xs arbitrary: s)
  case (Cons x xs)
  show ?case
  proof (cases "xs = []")
    case True
    then show ?thesis using cat_appends [of x s] Cons.prems by auto
  next
    case False
    then have join: "join_with sep (map content (x # xs)) = content x @ sep @ join_with sep (map content xs)"
      by (simp add: join_with_Cons)
    then obtain s1 where s1: "cat s x = Some (Some s1)" "sds_wf s1" "sds_str s1 = sds_str s @ content x"
      using cat_appends [of x s] Cons.prems by auto
    obtain s2 where s2: "sdscatlen E s1 sep (length sep) = Some (Some s2)" "sds_wf s2" "sds_str s2 = sds_str s @ content x @ sep"
      using sdscatlen_spec [OF s1(2) assms(1), of "length sep" sep] Cons.prems(2) s1(3) sdslen_str [OF s1(2)] join by auto
    from Cons.IH [OF s2(2)] Cons.prems(2,3) join s2(3) obtain s3 where
      "join_loop cat (\<lambda>s. sdscatlen E s sep (length sep)) (length xs) xs (Some s2) = Some (Some s3)" "sds_wf s3"
      "sds_str s3 = sds_str s2 @ join_with sep (map content xs)" by (auto simp: add.assoc)
    with s1(1) s2(1,3) False join show ?thesis by auto
  qed
qed simp

end

interpretation cstr_cat: appender "sdscat E" cstr "\<lambda>_. roomy E" for E
  by unfold_locales (use sdscat_spec sdslen_str in \<open>fastforce simp: strlen_def\<close>)

fun text_of :: "sds \<Rightarrow> bytes" where
  "text_of None = []"
| "text_of (Some h) = sds_str h"

interpretation sds_cat: appender "\<lambda>s t. Option.bind t (sdscatsds E s)" text_of
  "\<lambda>t. roomy E \<and> t \<noteq> None \<and> (\<forall>h. t = Some h \<longrightarrow> sds_wf h)" for E
proof unfold_locales
  fix t s
  assume t: "roomy E \<and> t \<noteq> None \<and> (\<forall>h. t = Some h \<longrightarrow> sds_wf h)" and s: "sds_wf s"
    and room: "length (sds_str s) + length (text_of t) + SDS_MAX_PREALLOC < 2 ^ 31"
  then obtain h where h: "t = Some h" "sds_wf h" by auto
  then obtain r where "sh_buf h = sds_str h @ NUL # r" "sdslen h = length (sds_str h)" by (meson sds_blocksE sdslen_str)
  with sdscatlen_spec [OF s, of E "sdslen h" "sh_buf h"] t h room sdslen_str [OF s]
  show "\<exists>s'. Option.bind t (sdscatsds E s) = Some (Some s') \<and> sds_wf s' \<and> sds_str s' = sds_str s @ text_of t"
    by (simp add: sdscatsds_def)
qed

lemma sdsjoin_spec:
  assumes "roomy E" and "length (join_with sep (map cstr argv)) + SDS_MAX_PREALLOC < 2 ^ 31"
  shows "\<exists>j. sdsjoin E argv (int (length argv)) sep (length sep) = Some (Some j) \<and> sds_wf j \<and> sds_str j = join_with sep (map cstr argv)"
  using cstr_cat.join_loop_spec [OF assms(1), of E argv "mk_sds []" sep] assms
  by (simp add: sdsjoin_def sdsempty_str list_all_iff)

lemma sdsjoinsds_spec:
  assumes "roomy E" and "list_all (\<lambda>t. \<exists>h. t = Some h \<and> sds_wf h) argv"
    and "length (join_with sep (map text_of argv)) + SDS_MAX_PREALLOC < 2 ^ 31"
  shows "\<exists>j. sdsjoinsds E argv (int (length argv)) sep (length sep) = Some (Some j) \<and> sds_wf j \<and> sds_str j = join_with sep (map text_of argv)"
  using sds_cat.join_loop_spec [OF assms(1), of E argv "mk_sds []" sep] assms
  by (simp add: sdsjoinsds_def sdsempty_str list_all_iff) blast

lemma free_tokens_spec: "n \<le> length toks \<Longrightarrow> free_tokens n toks = Some (concat (map sdsfree (rev (take n toks))))"
  by (induction n) (simp_all add: take_Suc_conv_app_nth)

lemma sdsfreesplitres_spec:
  "sdsfreesplitres (Some toks) (int (length toks)) = Some (concat (map sdsfree (rev toks)) @ [Array (length toks)])"
  by (simp add: sdsfreesplitres_def free_tokens_spec)

section \<open>The text of a number\<close>

lemma digit_loop_spec:
  "p < length buf \<Longrightarrow> length (dec_nat v) \<le> p \<Longrightarrow>
   digit_loop v p buf = Some (p - length (dec_nat v), take (Suc p - length (dec_nat v)) buf @ dec_nat v @ drop (Suc p) buf)"
proof (induction v arbitrary: p buf rule: dec_nat.induct)
  case (1 v)
  let ?c = "char_of (48 + v mod 10)"
  have upd: "buf[p := ?c] = take p buf @ ?c # drop (Suc p) buf" using "1.prems"(1) by (rule upd_conv_take_nth_drop)
  show ?case
  proof (cases "v < 10")
    case True
    with "1.prems" upd show ?thesis by (subst digit_loop.simps) (simp add: dec_nat.simps [of v])
  next
    case False
    then have dec: "dec_nat v = dec_nat (v div 10) @ [?c]" by (subst dec_nat.simps) simp
    then have p: "p - 1 < length (buf[p := ?c])" "length (dec_nat (v div 10)) \<le> p - 1" "p \<noteq> 0" "v div 10 \<noteq> 0" using "1.prems" False by auto
    let ?L = "length (dec_nat (v div 10))"
    have "take (p - ?L) (buf[p := ?c]) = take (p - ?L) buf" using "1.prems" unfolding upd by simp
    moreover have "drop p (buf[p := ?c]) = ?c # drop (Suc p) buf" using "1.prems" unfolding upd by simp
    ultimately have "digit_loop (v div 10) (p - 1) (buf[p := ?c]) =
        Some (p - 1 - ?L, take (p - ?L) buf @ dec_nat (v div 10) @ ?c # drop (Suc p) buf)"
      using "1.IH" [OF False p(1,2)] p(3) by simp
    with p(3,4) "1.prems"(1) dec show ?thesis by (subst digit_loop.simps) (simp add: Let_def)
  qed
qed

lemma sdsfromlonglong_min: "sdsfromlonglong E (- (2 ^ 63)) buf = None"
  by (simp add: sdsfromlonglong_def)

lemma drop_put: "i < length b \<Longrightarrow> drop i ((take (Suc i) b @ d)[i := c]) = c # d"
  by (simp add: take_Suc_conv_app_nth list_update_append)

lemma sdsfromlonglong_spec:
  assumes "roomy E" and "length buf = 32" and "- (2 ^ 63) < n" and "n < 2 ^ 63"
  shows "sdsfromlonglong E n buf = Some (Some (mk_sds (dec_int n)))"
proof -
  let ?d = "dec_nat (nat \<bar>n\<bar>)"
  have "nat \<bar>n\<bar> < 10 ^ 19" using assms(3,4) by simp
  then have L: "length ?d \<le> 19" by (rule length_dec_nat) simp
  then have loop: "digit_loop (nat \<bar>n\<bar>) 31 buf = Some (31 - length ?d, take (32 - length ?d) buf @ ?d)"
    using digit_loop_spec [of 31 buf "nat \<bar>n\<bar>"] assms(2) by simp
  show ?thesis
  proof (cases "n < 0")
    case True
    let ?b = "take (32 - length ?d) buf @ ?d"
    have "Suc (31 - length ?d) = 32 - length ?d" using L by simp
    with drop_put [of "31 - length ?d" buf ?d "CHR ''-''"] assms(2)
    have "drop (31 - length ?d) (?b[31 - length ?d := CHR ''-'']) = CHR ''-'' # ?d" by simp
    moreover have "Suc (30 - length ?d) = 31 - length ?d" using L by simp
    ultimately show ?thesis
      using loop True assms L by (auto simp: sdsfromlonglong_def dec_int_def sdsnewlen_bytes)
  next
    case False
    with loop assms L show ?thesis by (auto simp: sdsfromlonglong_def dec_int_def sdsnewlen_bytes)
  qed
qed

section \<open>Properties\<close>



text \<open>
  C19: A range is a slice. For every two indices, negative ones counted from the end, \<open>sdsrange\<close> keeps exactly the
  bytes from the first to the second, both included: nothing if the first is behind the second or behind
  the end. It changes the string in place, and stays inside the block. The one exception is a
  range of 2\<open>^\<close>31 bytes, the length of which does not fit into an \<open>int\<close>.
\<close>

theorem sdsrange_slice:
  assumes "sds_wf s" and "- (2 ^ 31) \<le> start" and "- (2 ^ 31) \<le> stop"
    and "index_of (length (sds_str s)) stop - index_of (length (sds_str s)) start < 2 ^ 31 - 1"
  shows "\<exists>s'. sdsrange start stop s = Some s' \<and> sds_wf s' \<and>
    sds_str s' = slice (index_of (length (sds_str s)) start) (index_of (length (sds_str s)) stop) (sds_str s)"
  by (rule sdsrange_spec [OF assms])

theorem sdsrange_slice_witness:
  "\<exists>s'. sdsrange 1 (-1) (mk_sds ''ciao'') = Some s' \<and> sds_str s' = ''iao''"
proof -
  have "slice (index_of 4 1) (index_of 4 (-1)) ''ciao'' = ''iao''" by (simp add: index_of_def slice_def)
  with sdsrange_slice [of "mk_sds ''ciao''" 1 "-1"] show ?thesis by (auto simp: index_of_def)
qed

end
