(* ===== verification/Trace_Owner.thy ===== *)
theory Trace_Owner
  imports Sds_Edit Trace_Type
begin

text \<open>
  Freeing frames, requests and statuses (the \<open>pt_type_destroy_*\<close> functions of \<open>common/trace_type.c\<close>). A function
  returns the blocks it gives back to the allocator, in order, or \<open>None\<close> for an access outside an array.

  A structure owns every block that a pointer in it reaches. What \<open>pt_type_unpack_*\<close> builds, from whatever
  bytes, is freed completely, each block once: the counts agree with the arrays, and no array exists
  without a count.
\<close>

section \<open>The operations\<close>

text \<open>The loop over an array, and the array itself; both only if the count (\<open>some\<close>) and the pointer are not zero.\<close>

fun free_elements :: "('a \<Rightarrow> block list option) \<Rightarrow> nat \<Rightarrow> 'a list \<Rightarrow> block list option" where
  "free_elements f 0 xs = Some []"
| "free_elements f (Suc n) [] = None"
| "free_elements f (Suc n) (x # xs) = do {
     b \<leftarrow> f x;
     bs \<leftarrow> free_elements f n xs;
     Some (b @ bs)
   }"

definition free_array :: "('a \<Rightarrow> block list option) \<Rightarrow> bool \<Rightarrow> nat \<Rightarrow> 'a list option \<Rightarrow> block list option" where
  "free_array f some n p =
     (case p of
        None \<Rightarrow> Some []
      | Some xs \<Rightarrow> if some then do { bs \<leftarrow> free_elements f n xs; Some (bs @ [Array (length xs)]) } else Some [])"

definition pt_type_destroy_frame :: "pt_frame_t \<Rightarrow> block list option" where
  "pt_type_destroy_frame f = do {
     args \<leftarrow> free_array (\<lambda>s. Some (sdsfree s)) (fr_arg_count f \<noteq> 0) (unat (fr_arg_count f)) (fr_args f);
     Some (sdsfree (fr_filename f) @ sdsfree (fr_class f) @ sdsfree (fr_function f) @ args @ sdsfree (fr_retval f))
   }"

definition pt_type_destroy_request :: "sdshdr pt_request_t \<Rightarrow> block list option" where
  "pt_type_destroy_request r = do {
     argv \<leftarrow> free_array (\<lambda>s. Some (sdsfree s)) (rq_argc r \<noteq> 0) (nat (sint (rq_argc r))) (rq_argv r);
     Some (sdsfree (rq_sapi r) @ sdsfree (rq_script r) @ sdsfree (rq_method r) @ sdsfree (rq_uri r) @ argv)
   }"

definition pt_type_destroy_status :: "('s pt_request_t \<Rightarrow> block list option) \<Rightarrow> 's pt_status_t \<Rightarrow> bool \<Rightarrow> block list option" where
  "pt_type_destroy_status destroy_request s free_request = do {
     request \<leftarrow> (if free_request then destroy_request (st_request s) else Some []);
     frames \<leftarrow> free_array pt_type_destroy_frame (st_frame_count s \<noteq> 0) (unat (st_frame_count s)) (st_frames s);
     Some (sdsfree (st_php_version s) @ request @ frames)
   }"

section \<open>What a structure owns\<close>

definition owned_array :: "('a \<Rightarrow> block list) \<Rightarrow> 'a list option \<Rightarrow> block list" where
  "owned_array g p = (case p of None \<Rightarrow> [] | Some xs \<Rightarrow> concat (map g xs) @ [Array (length xs)])"

definition owned_frame :: "pt_frame_t \<Rightarrow> block list" where
  "owned_frame f = sdsfree (fr_filename f) @ sdsfree (fr_class f) @ sdsfree (fr_function f) @
     owned_array sdsfree (fr_args f) @ sdsfree (fr_retval f)"

definition owned_request :: "sdshdr pt_request_t \<Rightarrow> block list" where
  "owned_request r = sdsfree (rq_sapi r) @ sdsfree (rq_script r) @ sdsfree (rq_method r) @ sdsfree (rq_uri r) @
     owned_array sdsfree (rq_argv r)"

text \<open>An array goes with its count: there is one exactly if the count is not zero, and it has that many elements.\<close>

definition counted :: "nat \<Rightarrow> bool \<Rightarrow> 'a list option \<Rightarrow> bool" where
  "counted n some p \<longleftrightarrow> (case p of None \<Rightarrow> n = 0 | Some xs \<Rightarrow> length xs = n \<and> some)"

lemma free_elements_spec:
  "list_all (\<lambda>x. f x = Some (g x)) xs \<Longrightarrow> free_elements f (length xs) xs = Some (concat (map g xs))"
  by (induction xs) auto

lemma free_array_spec:
  assumes "counted n some p" and "list_all (\<lambda>x. f x = Some (g x)) (arr p)"
  shows "free_array f some n p = Some (owned_array g p)"
  using assms free_elements_spec [of f g "arr p"]
  by (auto simp: free_array_def owned_array_def counted_def arr_def split: option.splits)

lemma destroy_frame_counted:
  "counted (unat (fr_arg_count f)) (fr_arg_count f \<noteq> 0) (fr_args f) \<Longrightarrow> pt_type_destroy_frame f = Some (owned_frame f)"
  by (simp add: pt_type_destroy_frame_def owned_frame_def free_array_spec [where g = sdsfree] list_all_iff)

lemma destroy_request_counted:
  "counted (nat (sint (rq_argc r))) (rq_argc r \<noteq> 0) (rq_argv r) \<Longrightarrow> pt_type_destroy_request r = Some (owned_request r)"
  by (simp add: pt_type_destroy_request_def owned_request_def free_array_spec [where g = sdsfree] list_all_iff)

section \<open>What unpacking builds\<close>

lemma unpack_array_length: "unpack_array dec n b = Some (xs, r) \<Longrightarrow> length xs = n"
  by (induction dec n b arbitrary: xs r rule: unpack_array.induct) (auto simp: bind_eq_Some_conv)

lemma unpack_array_all:
  assumes "\<And>b x r. dec b = Some (x, r) \<Longrightarrow> P x"
  shows "unpack_array dec n b = Some (xs, r) \<Longrightarrow> list_all P xs"
  by (induction n arbitrary: b xs r) (auto simp: bind_eq_Some_conv dest: assms)

lemma unpack_counted:
  assumes "unpack_array dec n b = Some (xs, r)" and "calloc_array E n k xs = Some p" and "n = 0 \<or> some"
  shows "counted n some p" and "list_all P (arr p) \<longleftrightarrow> n = 0 \<or> list_all P xs"
  using assms unpack_array_length [OF assms(1)]
  by (auto simp: calloc_array_def counted_def arr_def split: if_splits)

lemma unpack_frame_counted:
  "pt_type_unpack_frame E b = Some (f, r) \<Longrightarrow> counted (unat (fr_arg_count f)) (fr_arg_count f \<noteq> 0) (fr_args f)"
  by (auto simp: pt_type_unpack_frame_def bind_eq_Some_conv unat_eq_0 intro!: unpack_counted(1))

lemma unpack_request_counted:
  "pt_type_unpack_request E b = Some (q, r) \<Longrightarrow> counted (nat (sint (rq_argc q))) (rq_argc q \<noteq> 0) (rq_argv q)"
  by (auto simp: pt_type_unpack_request_def bind_eq_Some_conv intro!: unpack_counted(1))

lemma unpack_status_counted:
  assumes "pt_type_unpack_status E b = Some (s, r)"
  shows "counted (unat (st_frame_count s)) (st_frame_count s \<noteq> 0) (st_frames s)"
    and "counted (nat (sint (rq_argc (st_request s)))) (rq_argc (st_request s) \<noteq> 0) (rq_argv (st_request s))"
    and "list_all (\<lambda>f. counted (unat (fr_arg_count f)) (fr_arg_count f \<noteq> 0) (fr_args f)) (arr (st_frames s))"
proof -
  from assms obtain b1 n xs b2 p where u: "unpack_array (pt_type_unpack_frame E) (unat n) b1 = Some (xs, b2)"
    "calloc_array E (unat n) sizeof_pt_frame_t xs = Some p" "st_frame_count s = n" "st_frames s = p"
    by (auto simp: pt_type_unpack_status_def bind_eq_Some_conv)
  have n: "unat n = 0 \<or> n \<noteq> 0" by (simp add: unat_eq_0)
  show "counted (unat (st_frame_count s)) (st_frame_count s \<noteq> 0) (st_frames s)"
    using unpack_counted(1) [OF u(1,2) n] u(3,4) by simp
  show "list_all (\<lambda>f. counted (unat (fr_arg_count f)) (fr_arg_count f \<noteq> 0) (fr_args f)) (arr (st_frames s))"
    using unpack_counted(2) [OF u(1,2) n] unpack_array_all [OF unpack_frame_counted u(1)] u(4) by simp
  show "counted (nat (sint (rq_argc (st_request s)))) (rq_argc (st_request s) \<noteq> 0) (rq_argv (st_request s))"
    using assms by (auto simp: pt_type_unpack_status_def bind_eq_Some_conv dest: unpack_request_counted)
qed

lemma destroy_frames_spec:
  assumes "counted n some p" and "list_all (\<lambda>f. counted (unat (fr_arg_count f)) (fr_arg_count f \<noteq> 0) (fr_args f)) (arr p)"
  shows "free_array pt_type_destroy_frame some n p = Some (owned_array owned_frame p)"
  using assms by (intro free_array_spec) (auto simp: list_all_iff destroy_frame_counted)

lemma destroy_request_unpacked:
  "pt_type_unpack_request E b = Some (q, r) \<Longrightarrow> pt_type_destroy_request q = Some (owned_request q)"
  by (intro destroy_request_counted unpack_request_counted)

lemma destroy_frame_unpacked:
  "pt_type_unpack_frame E b = Some (f, r) \<Longrightarrow> pt_type_destroy_frame f = Some (owned_frame f)"
  by (intro destroy_frame_counted unpack_frame_counted)

text \<open>
  C11: Nothing of a received status leaks and nothing is freed twice. Whatever bytes the status was unpacked
  from, also those of a hostile process, \<open>pt_type_destroy_status\<close> stays inside the arrays and frees the blocks
  that can be reached from it: the version, the strings and the array of the request, and for
  every frame its strings, its arguments and their array, each of them once, and the array of the frames.
  Without the request, which is the engine's, everything else.
\<close>

theorem destroy_frees_all:
  assumes "pt_type_unpack_status E b = Some (s, r)"
  shows "pt_type_destroy_status pt_type_destroy_request s free_request =
    Some (sdsfree (st_php_version s) @ (if free_request then owned_request (st_request s) else []) @
      owned_array owned_frame (st_frames s))"
proof -
  note c = unpack_status_counted [OF assms]
  show ?thesis
    using destroy_request_counted [OF c(2)] destroy_frames_spec [OF c(1,3)] by (simp add: pt_type_destroy_status_def)
qed

theorem destroy_frees_all_witness:
  "\<exists>s bs. pt_type_unpack_status full_env (enc_status sample_status) = Some (s, []) \<and>
     pt_type_destroy_status pt_type_destroy_request s True = Some bs \<and> length bs = 10"
proof -
  have u: "pt_type_unpack_status full_env (enc_status sample_status) = Some (img_status sample_status, [])"
    using status_unpack_enc [OF sample_ok(3) roomy_full_env, of "[]"] by simp
  have "length (sdsfree (st_php_version (img_status sample_status)) @ owned_request (st_request (img_status sample_status)) @
      owned_array owned_frame (st_frames (img_status sample_status))) = 10"
    by (simp add: img_status_def sample_status_def sample_request_def sample_frame_def img_request_def img_frame_def img_arr_def
        img_cstr_def img_sds_def img_str_def sds_str_def owned_request_def owned_frame_def owned_array_def sdsfree_def arr_def mk_sds_def)
  with u destroy_frees_all [OF u, of True] show ?thesis by auto
qed

end
