(* ===== verification/Spec2Isabelle.thy ===== *)
theory Spec2Isabelle
  imports Ext_Life Ext_Dump Sds_Repr Trace_Owner
begin

text \<open>
  phptrace: a tracer for PHP. An extension in the traced process reports calls, requests and the status of
  the process over a socket; a command line tool switches it on through a control file in shared memory,
  sends commands, and prints what it gets. The tool can also read the status of a process from outside.

  \<^bold>\<open>How the parts work together.\<close> The tool (\<open>src/cli.c\<close>, \<open>main\<close>) maps the control file, listens on a socket, and sets
  the flag of the processes it wants. The extension looks at its flag at every call and request
  (\<open>extension/trace.c\<close>), connects, and obeys the commands it gets: trace, status, filter. From then on its
  replacement of the engine's executor sends a message when a function is entered and left. Messages have a
  header of 12 bytes and a body in the format of \<open>common/trace_type.c\<close>.

  \<^bold>\<open>The theories\<close>, from the bottom:

  \<^item> \<open>Trace_Prelude\<close>: bytes, C strings, integers of 32 and 64 bits, an allocator as a parameter (\<open>mem_env\<close>), writing
    and reading at a position of a block, decimal numbers, sequences of operations with an abstract meaning.
  \<^item> \<open>Sds\<close>, \<open>Sds_Repr\<close>, \<open>Sds_Edit\<close>: \<open>deps/sds\<close>. The header with its block, all operations; the invariant \<open>sds_wf\<close>, the string
    a header denotes, refinement of operation sequences to lists of bytes, the doubling loop of
    \<open>sdscatvprintf\<close>, quoting read back by \<open>sdssplitargs\<close>, ranges as slices, splitting and joining as inverses.
  \<^item> \<open>Wire\<close>, \<open>Trace_Type\<close>, \<open>Trace_Owner\<close>, \<open>Trace_Display\<close>: \<open>common/trace_type.c\<close> and \<open>trace_color.h\<close>. Lengths, packing and unpacking
    (round trips, exact lengths, truncated input), freeing (complete, each block once, for any input),
    and the printed text, in colours or not.
  \<^item> \<open>Trace_Filter\<close>, \<open>Trace_Ctrl\<close>: \<open>common/trace_filter.c\<close>, \<open>trace_ctrl.c\<close>, \<open>trace_mmap.c\<close>. The flags of the control file as an
    interface (locale \<open>flag_table\<close>) with the law that the last write wins.
  \<^item> \<open>Trace_Comm\<close>, \<open>Trace_Conn\<close>, \<open>Trace_Stream\<close>: \<open>common/trace_comm.c\<close>. The buffer, building, sending and receiving on a stream
    of pieces, delays and failures; connecting, listening, accepting, closing; peers that keep the
    protocol (locale \<open>protocol\<close>, one instance for each direction).
  \<^item> \<open>Ext_Frame\<close>, \<open>Ext_Trace\<close>, \<open>Ext_Exec\<close>, \<open>Ext_Times\<close>, \<open>Ext_Life\<close>: \<open>extension/trace.c\<close> for PHP 7.1 and \<open>common/trace_time.h\<close>. Frames, requests and statuses from engine data,
    sending, filters, commands, errors and reconnection, module and request life cycle, and the executor:
    it always returns and gives back the nesting level. \<open>Ext_Times\<close> shows that the frames of a run, with inclusive
    and exclusive times, are those of a reference walk over the calls, once for every way of reporting
    (locale \<open>frame_sink\<close>); the output and the socket are its instances. A program is a tree of calls with moments between
    them at which the tool writes the flag of the process. \<open>Ext_Life\<close> composes the start of the module, any
    number of requests (locale \<open>total_steps\<close>) and its end: all of it returns, a script of the command line is
    shown completely, and a filter on addresses decides for every request.
  \<^item> \<open>Cli_Context\<close>, \<open>Cli_Peers\<close>, \<open>Cli_Trace\<close>, \<open>Cli_Status\<close>, \<open>Cli_Ptrace\<close>, \<open>Libc\<close>, \<open>Cli_Main\<close>: \<open>src/\<close>. The context and the log, what the tool
    receives, the select loop with its limits, the status command, reading a stopped process, the C
    library's number and option parsing, the arguments and \<open>main\<close>.
  \<^item> \<open>Ext_Dump\<close>: \<open>trace_dump_address\<close> of \<open>extension/trace.c\<close>, the source of the presets that \<open>Cli_Ptrace\<close> reads with: its text
    determines them.
  \<^item> This theory: properties that span the extension and the tool.

  \<^bold>\<open>Conventions.\<close> Undefined behaviour (an access outside a block, \<open>NULL\<close>, signed overflow, a failed \<open>assert\<close>) is the
  outer \<open>None\<close> of a result, so every theorem that gives a \<open>Some\<close> says that there is none. Results of system
  calls, the clock, the allocator, engine data, the memory of a traced process and the output of programs
  that are started are parameters. A loop that ends by its data is a function with a measure; the loop that
  counts the calls of a stopped process may not end and is a partial function. The select loop takes
  one list element per round (\<open>tick\<close>): with an interrupted round in the list it has ended by then.

  \<^bold>\<open>Bounds.\<close> Strings and messages are below 2\<open>^\<close>31 bytes where the sources keep lengths in an \<open>int\<close>. The body of a
  message is limited to a megabyte, by the receiver only. A header that arrives in several pieces, and a
  body in more than ten, are refused by the code; \<open>delivers\<close> describes the streams that are accepted.

  \<^bold>\<open>Not modelled.\<close> The code for PHP before 7.1 (other layouts of the same engine data; \<open>trace_dump_address\<close> apart),
  \<open>phpinfo\<close> output, the text of log lines, the test program of \<open>deps/sds\<close>. A descriptor is never given out twice. Memory
  that the tool has freed is not part of its state; what is freed is the subject of \<open>Trace_Owner\<close>.
\<close>

section \<open>From a traced call to the screen\<close>

lemma handled_unlimited:
  "length fs \<le> n \<Longrightarrow> length css = length fs \<Longrightarrow>
   handled n (PT_LIMIT_UNLIMITED, r) (zip css (map (\<lambda>f. (pid, Frame_Msg f)) fs)) = (length fs, False, PT_LIMIT_UNLIMITED, r)"
proof (induction fs arbitrary: n css)
  case Nil
  then show ?case by (cases n) auto
next
  case (Cons f fs)
  then obtain m c cs where "n = Suc m" "css = c # cs" by (cases n; cases css) auto
  with Cons show ?case by (simp add: decr_limit_def PT_LIMIT_UNLIMITED_def)
qed

lemma delivered_frames:
  assumes "list_all2 (\<lambda>cs f. delivers cs (frame_wire_msg pid f)) css fs" and "list_all peer_ok (map Frame_Msg fs)"
  shows "list_all delivery_ok (zip css (map (\<lambda>f. (word_of_int pid, Frame_Msg f)) fs))" (is ?ok)
    and "stream (zip css (map (\<lambda>f. (word_of_int pid, Frame_Msg f)) fs)) = map Chunk (concat css)" (is ?stream)
    and "concat (concat css) = concat (map (frame_wire_msg pid) fs)" (is ?bytes)
    and "shown_all indent (zip css (map (\<lambda>f. (word_of_int pid, Frame_Msg f)) fs)) =
      map (\<lambda>f. Out_Frame (word_of_int pid) indent (if fr_type f = PT_FRAME_ENTRY then ''> '' else ''< '') (img_frame f)) fs" (is ?shown)
proof -
  from assms have "?ok \<and> ?stream \<and> ?bytes \<and> ?shown"
    by (induction css fs rule: list_all2_induct) (auto simp: delivers_def)
  then show ?ok ?stream ?bytes ?shown by auto
qed

lemma frames_shown:
  assumes "list_all frame_ok fs" and "list_all (\<lambda>f. length (enc_frame f) \<le> 1024 * 1024) fs"
    and "list_all2 (\<lambda>cs f. delivers cs (frame_wire_msg pid f)) css fs"
    and "roomy E" and "buf_ok (tl_buf t)" and "nt_fds (tl_net t) fd = Some j" and "sk_in j = map Chunk (concat css) @ Idle # rest"
    and "cx_limit_frame (tl_ctx t) = PT_LIMIT_UNLIMITED" and "length fs \<le> n"
  shows "\<exists>t'. trace_single_process E fd n t = Some (0, t') \<and>
    printed (tl_out t') = printed (tl_out t) @ map (\<lambda>f. Out_Frame (word_of_int pid) (\<not> name_filter t)
      (frame_mark f) (img_frame f)) fs"
proof -
  have ok: "list_all peer_ok (map Frame_Msg fs)" using assms(1,2) by (simp add: list_all_iff)
  let ?xs = "zip css (map (\<lambda>f. (word_of_int pid, Frame_Msg f)) fs)"
  note xs = delivered_frames [OF assms(3) ok]
  have len: "length css = length fs" using assms(3) by (rule list_all2_lengthD)
  have inp: "sk_in j = stream ?xs @ Idle # rest" using assms(7) xs(2) by simp
  have "handled n (limits_of t) ?xs = (length fs, False, limits_of t)"
    using handled_unlimited [OF assms(9) len] assms(8) by (simp add: limits_of_def)
  from trace_single_handled [OF assms(4-6) inp xs(1) this]
  obtain t' where "trace_single_process E fd n t = Some (0, t')"
    "printed (tl_out t') = printed (tl_out t) @ shown_all (\<not> name_filter t) (take (length fs) ?xs)" by auto
  moreover have "take (length fs) ?xs = ?xs" using len by simp
  ultimately show ?thesis using xs(4) by (auto simp: frame_mark_def)
qed

text \<open>
  C1: A program is traced from its calls to the screen of the tool. While the tool has asked for the
  process and is connected, with no filter on frames, less than 4096 levels deep and with at most 24
  arguments for a call, the run ends as it does without tracing, and what the extension writes to the
  socket are the messages of frames whose types, levels, inclusive and exclusive times are those of
  the reference walk over the calls. However the stream cuts these bytes into pieces (each header in
  one, each body in at most ten), a tool without a limit that gets them prints these frames: all of
  them, in order, with the process id of the sender, every string as the process has it, and nothing else.
\<close>

theorem trace_end_to_end:
  assumes "host_ok H" and "ext_inv e" and "watched (call_count c) e" and "no_filter (g_pft e)" and "call_ok H c"
    and "call_flags (\<lambda>x. x) c" and "g_level e = int l" and "g_exc_time_table e = Some tab" and "clean (Suc l) tab"
    and "l + call_depth c + 1 < length tab" and "length tab < 2 ^ 62" and "call_args 24 c"
    and "sock_written e = Some out" and "roomy E"
  shows "\<exists>e' fs. run_call H c e = Some (call_bails c, e') \<and>
    sock_written e' = Some (out @ concat (map (frame_wire_msg (g_pid e)) fs)) \<and>
    map frame_event fs = snd (snd (ref_call (ho_clock H) (w_ticks e) (int l) c)) \<and>
    (\<forall>css t fd j rest n. list_all2 (\<lambda>cs f. delivers cs (frame_wire_msg (g_pid e) f)) css fs \<and> buf_ok (tl_buf t) \<and>
       nt_fds (tl_net t) fd = Some j \<and> sk_in j = map Chunk (concat css) @ Idle # rest \<and>
       cx_limit_frame (tl_ctx t) = PT_LIMIT_UNLIMITED \<and> length fs \<le> n \<longrightarrow>
       (\<exists>t'. trace_single_process E fd n t = Some (0, t') \<and>
          printed (tl_out t') = printed (tl_out t) @ map (\<lambda>f. Out_Frame (word_of_int (g_pid e)) (\<not> name_filter t)
            (frame_mark f) (img_frame f)) fs))"
proof -
  obtain e' fs where run: "run_call H c e = Some (call_bails c, e')" "sends_frames e fs e'" "list_all (frame_narrow 24) fs"
    "map frame_event fs = snd (snd (ref_call (ho_clock H) (w_ticks e) (int l) c))"
    using to_peer.reported [OF assms(1-12)] by auto
  have fits: "list_all frame_ok fs" "list_all (\<lambda>f. length (enc_frame f) \<le> 1024 * 1024) fs"
    using run(3) narrow_fits frame_small_ok by (auto simp: list_all_iff frame_narrow_def)
  have sent: "sock_written e' = Some (out @ concat (map (frame_wire_msg (g_pid e)) fs))"
    using run(2) assms(13) by (simp add: sends_frames_def)
  show ?thesis
    by (intro exI [of _ e'] exI [of _ fs] conjI allI impI run(1,4) sent) (elim conjE, rule frames_shown [OF fits _ assms(14)])
qed

definition quiet_sock :: "sock_ev list \<Rightarrow> sock" where
  "quiet_sock es = \<lparr>sk_in = es, sk_out = [], sk_fails = []\<rparr>"

lemma quiet_sock_fields [simp]: "sk_in (quiet_sock es) = es" "sk_out (quiet_sock es) = []" "sk_fails (quiet_sock es) = []"
  by (simp_all add: quiet_sock_def)

lemma sample_ext_sock [simp]: "nt_fds (w_net (sample_ext k)) (g_sock_fd (sample_ext k)) = Some k" "g_pid (sample_ext k) = 7"
  "nt_fds (w_net (sample_ext k)) 3 = Some k" "buf_ok (w_buf (sample_ext k))" "g_sock_fd (sample_ext k) = 3" "g_level (sample_ext k) = 0"
  by (simp_all add: sample_ext_def)

text \<open>A module whose tool is connected and silent.\<close>

definition watched_ext :: ext_state where
  "watched_ext = (sample_ext (quiet_sock (replicate 2 Idle)))\<lparr>g_dotrace := TRACE_TO_TOOL,
     w_files := [''/tmp/phptrace.ctrl'' \<mapsto> (ftruncate empty_file PT_CTRL_SIZE)\<lparr>fl_byte := (\<lambda>_. PT_CTRL_ACTIVE)\<rparr>]\<rparr>"

lemma watched_ext_ok: "ext_inv watched_ext" "watched 2 watched_ext" "sock_written watched_ext = Some []" "g_level watched_ext = 0"
  "g_pid watched_ext = 7" "w_ticks watched_ext = 0" "g_exc_time_table watched_ext = Some (replicate 4096 0)"
  "g_pft watched_ext = \<lparr>ft_type = PT_FILTER_EMPTY, ft_content = None\<rparr>"
proof -
  have big: "PT_CTRL_SIZE \<le> fl_size (ftruncate empty_file PT_CTRL_SIZE)" by (simp add: ftruncate_def)
  have "ext_ok watched_ext"
    using sample_ext_ok(2) [of "quiet_sock (replicate 2 Idle)"] big
    by (simp add: watched_ext_def sample_ext_def ext_ok_def ctrl_ok_def to_tool_def)
  moreover have "tool_polite (replicate 2 Idle)" by (simp add: numeral_2_eq_2 polite_Idle polite_Nil)
  then have "tool_polite_net (w_net watched_ext)"
    by (auto simp: watched_ext_def sample_ext_def polite_net_def empty_net_def)
  ultimately show "ext_inv watched_ext"
    by (simp add: ext_inv_def) (simp add: watched_ext_def sample_ext_def url_ready_def filter_bits)
  have "CTRL_IS_ACTIVE watched_ext = Some True"
    by (simp add: watched_ext_def sample_ext_def CTRL_IS_ACTIVE_def pt_ctrl_is_active_def pt_ctrl_pid_def seg_read_def
        ftruncate_def PT_CTRL_SIZE_def PT_PID_MAX_def PT_CTRL_ACTIVE_def)
  then show "watched 2 watched_ext"
    by (simp add: watched_def) (simp add: watched_ext_def sample_ext_def to_tool_def TRACE_TO_TOOL_def)
qed (simp_all add: watched_ext_def sample_ext_def sock_written_def)

theorem trace_end_to_end_witness:
  "\<exists>e' fs t'. run_call sample_host sample_prog watched_ext = Some (True, e') \<and>
     map frame_event fs = [(PT_FRAME_ENTRY, 1, 0, 0), (PT_FRAME_ENTRY, 2, 0, 0), (PT_FRAME_EXIT, 2, 10, 10), (PT_FRAME_EXIT, 1, 30, 20)] \<and>
     trace_single_process full_env 4 10 ((status_tool [])\<lparr>tl_net := (empty_net [])\<lparr>nt_fds := [4 \<mapsto>
       quiet_sock (map (\<lambda>f. Chunk (frame_wire_msg 7 f)) fs @ [Idle])]\<rparr>\<rparr>) = Some (0, t') \<and>
     printed (tl_out t') = map (\<lambda>f. Out_Frame 7 True (frame_mark f) (img_frame f)) fs"
proof -
  let ?evs = "[(PT_FRAME_ENTRY, 1, 0, 0), (PT_FRAME_ENTRY, 2, 0, 0), (PT_FRAME_EXIT, 2, 10, 10), (PT_FRAME_EXIT, 1, 30, 20)] :: event list"
  have prog: "snd (snd (ref_call (ho_clock sample_host) 0 (int 0) sample_prog)) = ?evs"
    "call_count sample_prog = 2" "call_flags (\<lambda>x. x) sample_prog" "call_args 24 sample_prog"
    by (simp_all add: sample_prog_def sample_f_def sample_clock Let_def sample_main_def sample_call_def)
  have side: "watched (call_count sample_prog) watched_ext" "no_filter (g_pft watched_ext)" "clean (Suc 0) (replicate 4096 0)"
    "g_level watched_ext = int 0" "0 + call_depth sample_prog + 1 < length (replicate 4096 (0 :: u64))"
    "length (replicate 4096 (0 :: u64)) < 2 ^ 62"
    using prog(2) by (simp_all add: watched_ext_ok no_filter_def filter_bits clean_def)
  obtain e' fs where run: "run_call sample_host sample_prog watched_ext = Some (True, e')" "map frame_event fs = ?evs"
    "\<And>css t fd j rest n. list_all2 (\<lambda>cs f. delivers cs (frame_wire_msg 7 f)) css fs \<and> buf_ok (tl_buf t) \<and>
       nt_fds (tl_net t) fd = Some j \<and> sk_in j = map Chunk (concat css) @ Idle # rest \<and>
       cx_limit_frame (tl_ctx t) = PT_LIMIT_UNLIMITED \<and> length fs \<le> n \<Longrightarrow>
       \<exists>t'. trace_single_process full_env fd n t = Some (0, t') \<and>
          printed (tl_out t') = printed (tl_out t) @ map (\<lambda>f. Out_Frame (word_of_int 7) (\<not> name_filter t) (frame_mark f) (img_frame f)) fs"
    using trace_end_to_end [OF sample_ext_ok(1) watched_ext_ok(1) side(1,2) sample_prog_ok(2) prog(3) side(4) watched_ext_ok(7)
        side(3,5,6) prog(4) watched_ext_ok(3) roomy_full_env] prog(1)
    by (simp add: watched_ext_ok del: run_call.simps trace_single_process.simps) iprover
  let ?css = "map (\<lambda>f. [frame_wire_msg 7 f]) fs"
  let ?t = "(status_tool [])\<lparr>tl_net := (empty_net [])\<lparr>nt_fds := [4 \<mapsto> quiet_sock (map (\<lambda>f. Chunk (frame_wire_msg 7 f)) fs @ [Idle])]\<rparr>\<rparr>"
  have "list_all2 (\<lambda>cs f. delivers cs (frame_wire_msg 7 f)) ?css fs"
    by (simp add: list_all2_map1 list.rel_refl delivers_whole)
  moreover have "map Chunk (concat ?css) = map (\<lambda>f. Chunk (frame_wire_msg 7 f)) fs" by (induction fs) simp_all
  moreover have "length fs = 4" using arg_cong [OF run(2), of length] by simp
  moreover have "cx_limit_frame (tl_ctx ?t) = PT_LIMIT_UNLIMITED" "buf_ok (tl_buf ?t)" "\<not> name_filter ?t"
    by (simp_all add: status_tool_def status_ctx_def PT_LIMIT_UNLIMITED_def name_filter_def PT_FILTER_EMPTY_def
        PT_FILTER_FUNCTION_NAME_def PT_FILTER_CLASS_NAME_def)
  moreover have "printed (tl_out ?t) = []" by (simp add: status_tool_def printed_def)
  ultimately obtain t' where "trace_single_process full_env 4 10 ?t = Some (0, t')"
    "printed (tl_out t') = map (\<lambda>f. Out_Frame 7 True (frame_mark f) (img_frame f)) fs"
    using run(3) [of ?css ?t 4 "quiet_sock (map (\<lambda>f. Chunk (frame_wire_msg 7 f)) fs @ [Idle])" "[]" 10]
    by (auto simp del: trace_single_process.simps)
  with run(1,2) show ?thesis by iprover
qed

section \<open>From the stack of the engine to the screen\<close>

text \<open>
  C8: A status comes from the stack of the traced process to the screen of the tool as it is. The
  extension, with engine data of the documented shape, gets the command in whatever pieces, answers
  with one message, and the tool that gets this answer, in whatever pieces, ends the command with
  success and shows the status that the extension built: one frame for every call of the stack.
  The status has to fit into a message of a megabyte.
\<close>

theorem status_end_to_end:
  assumes "host_ok H" and "ext_ok e" and "g_sock_fd e \<noteq> -1" and "nt_fds (w_net e) (g_sock_fd e) = Some k" and "sk_fails k = []"
    and "case cur of None \<Rightarrow> True | Some c \<Rightarrow> ex_ok (ho_zend H) c" and "stack_depth cur < 2 ^ 32"
    and "status_build (ho_mem H) (ho_zend H) (g_level e) True cur = Some s" and "length (enc_status s) \<le> 1024 * 1024"
    and "delivers cs (cmd_msg p Do_Status)" and "sk_in k = map Chunk cs @ Idle # rest"
    and "roomy E" and "tool_inv t" and "ctrl_ok (cx_ctrl (tl_ctx t)) (tl_files t)" and "pid_ok (cx_pid (tl_ctx t))"
    and "0 \<le> cx_sfd (tl_ctx t)" and "cx_sfd (tl_ctx t) < FD_SETSIZE" and "0 < nt_next (tl_net t)" and "nt_next (tl_net t) < FD_SETSIZE"
    and "nt_fds (tl_net t) (cx_sfd (tl_ctx t)) \<noteq> None" and "\<not> cx_ptrace (tl_ctx t)"
    and "nt_accepts (tl_net t) = Some j # as" and "sk_fails j = []" and "sk_in j = map Chunk ds @ rest'"
    and "delivers ds (enc_msg PT_MSG_STATUS (word_of_int (g_pid e)) (enc_status s))"
  shows "\<exists>e' k' t'. handle_command H cur e = Some e' \<and> nt_fds (w_net e') (g_sock_fd e) = Some k' \<and> sk_out k' = sk_out k @ concat ds \<and>
    pt_status_main E P (Sel_Ready r1) (Sel_Ready r2) t = Some (0, t') \<and>
    printed (tl_out t') = printed (tl_out t) @ [Out_Status (img_status s)] \<and> unat (st_frame_count (img_status s)) = stack_depth cur"
proof -
  have H: "roomy (ho_mem H)" "env_ok (ho_zend H)" using assms(1) by (simp_all add: host_ok_def)
  have s: "status_ok s" "unat (st_frame_count s) = stack_depth cur"
    using status_build_ok [OF H assms(6,7), of "g_level e" True] assms(8) by auto
  have buf: "buf_ok (w_buf e)" using assms(2) by (simp add: ext_ok_def)
  have "length (enc_status s) < 2 ^ 31" using assms(9) by simp
  from handle_loop_cmds [OF assms(1,8) s(1) this assms(4,5) buf, of p "[cs]" "[Do_Status]" rest] assms(10,11)
  obtain b where "handle_loop H cur e = Some (after_cmds e k (g_dotrace e, g_pft e) rest
      (enc_msg PT_MSG_STATUS (word_of_int (g_pid e)) (enc_status s)) b)" by auto
  then have "handle_command H cur e = Some (after_cmds e k (g_dotrace e, g_pft e) rest (concat ds) b)"
    using assms(3,25) by (simp add: handle_command_def delivers_def)
  moreover have "delivery_ok (ds, word_of_int (g_pid e), Status_Msg s)" using assms(9,25) s(1) by simp
  note status_main_shown [OF assms(12-20,22-24) this assms(21), of P r1 r2]
  moreover have "unat (st_frame_count (img_status s)) = stack_depth cur" using s(2) by (simp add: img_status_def)
  ultimately show ?thesis by auto
qed



lemma sample_main_frame:
  "frame_build full_env sample_env 0 True PT_FRAME_STACK (Some sample_main) sample_main None =
     Some (zero_frame\<lparr>fr_type := PT_FRAME_STACK, fr_functype := PT_FUNC_INTERNAL OR PT_FUNC_NORMAL, fr_level := 0,
       fr_function := Some (mk_sds ''{main}''), fr_lineno := 3, fr_filename := Some (mk_sds ''a.php'')\<rparr>, False)"
proof -
  have n: "sdsnew full_env (Some ''{main}'') = Some (Some (mk_sds ''{main}''))"
    by (simp add: sdsnew_str strlen_def)
  have z: "sdsnew_zstr full_env (Some ''a.php'') = Some (Some (mk_sds ''a.php''))"
    by (simp add: sdsnew_zstr_def sdsnew_str strlen_def)
  show ?thesis
    by (simp add: frame_build_def sample_main_def obtain_zend_function_def frame_special_def special_function_def n
      skip_internal_handler_def skip_no_opcodes_def frame_filename_def frame_lineno_def user_func_def opline_of_def ZEND_USER_CODE_def z Let_def zero_frame_def)
qed

lemma sample_main_status:
  assumes "status_build full_env sample_env 0 True (Some sample_main) = Some s"
  shows "length (enc_status s) \<le> 1024 * 1024"
proof -
  have "stack_frames full_env sample_env 0 True (Some sample_main) = Some [zero_frame\<lparr>fr_type := PT_FRAME_STACK,
      fr_functype := PT_FUNC_INTERNAL OR PT_FUNC_NORMAL, fr_level := 1,
      fr_function := Some (mk_sds ''{main}''), fr_lineno := 3, fr_filename := Some (mk_sds ''a.php'')\<rparr>]"
    using sample_main_frame by (simp add: sample_main_def)
  moreover have "stack_depth (Some sample_main) = 1" by (simp add: sample_main_def)
  ultimately have "arr (st_frames s) = [zero_frame\<lparr>fr_type := PT_FRAME_STACK,
      fr_functype := PT_FUNC_INTERNAL OR PT_FUNC_NORMAL, fr_level := 1,
      fr_function := Some (mk_sds ''{main}''), fr_lineno := 3, fr_filename := Some (mk_sds ''a.php'')\<rparr>]"
    "st_request s = request_build sample_env PT_FRAME_STACK" "st_php_version s = Some (mk_sds ''7.1.0'')"
    using assms by (auto simp: status_build_def calloc_array_def arr_def sdsnew_str strlen_def sample_env_def)
  then show ?thesis
    by (simp add: enc_status_def request_build_def enc_request_def sample_env_def length_enc_str enc_frame_def zero_frame_def arr_def mk_sds_def sds_str_def)
qed

theorem status_end_to_end_witness:
  "\<forall>P. \<exists>s e' t'. status_build full_env sample_env 0 True (Some sample_main) = Some s \<and>
     handle_command sample_host (Some sample_main) (sample_ext (quiet_sock [Chunk (cmd_msg 1 Do_Status), Idle])) = Some e' \<and>
     pt_status_main full_env P (Sel_Ready (\<lambda>_. True)) (Sel_Ready (\<lambda>_. True))
       (status_tool [Some (quiet_sock [Chunk (enc_msg PT_MSG_STATUS 7 (enc_status s))])]) = Some (0, t') \<and>
     printed (tl_out t') = [Out_Status (img_status s)] \<and> unat (st_frame_count (img_status s)) = 1"
proof -
  have depth: "stack_depth (Some sample_main) = 1" by (simp add: sample_main_def)
  obtain s where s: "status_build full_env sample_env 0 True (Some sample_main) = Some s" "status_ok s"
    using status_build_ok [of full_env sample_env "Some sample_main" 0 True] depth by auto
  note small = sample_main_status [OF s(1)]
  let ?m = "enc_msg PT_MSG_STATUS 7 (enc_status s)" and ?e = "sample_ext (quiet_sock [Chunk (cmd_msg 1 Do_Status), Idle])"
  let ?t = "status_tool [Some (quiet_sock [Chunk ?m])]"
  have "peer_polite (sk_in (quiet_sock [Chunk ?m]))"
    using polite_Msg [of peer_ok "Status_Msg s" "[?m]" peer_type 7 peer_body "[]"] s(2) small by (simp add: polite_Nil delivers_whole)
  then have inv: "tool_inv ?t" by (intro status_tool_inv) simp
  have d: "delivers [cmd_msg 1 Do_Status] (cmd_msg 1 Do_Status)" unfolding cmd_msg_def by (rule delivers_whole)
  show ?thesis
  proof
    fix P
    from status_end_to_end [where H = sample_host and e = ?e and cur = "Some sample_main" and E = full_env and t = ?t and P = P
        and cs = "[cmd_msg 1 Do_Status]" and p = 1 and rest = "[]" and ds = "[?m]" and rest' = "[]" and as = "[]" and s = s
        and k = "quiet_sock [Chunk (cmd_msg 1 Do_Status), Idle]" and j = "quiet_sock [Chunk ?m]" and ?r1.0 = "\<lambda>_. True" and ?r2.0 = "\<lambda>_. True"]
    show "\<exists>s e' t'. status_build full_env sample_env 0 True (Some sample_main) = Some s \<and>
      handle_command sample_host (Some sample_main) ?e = Some e' \<and>
      pt_status_main full_env P (Sel_Ready (\<lambda>_. True)) (Sel_Ready (\<lambda>_. True))
        (status_tool [Some (quiet_sock [Chunk (enc_msg PT_MSG_STATUS 7 (enc_status s))])]) = Some (0, t') \<and>
      printed (tl_out t') = [Out_Status (img_status s)] \<and> unat (st_frame_count (img_status s)) = 1"
      using s small inv d depth by (auto simp: FD_SETSIZE_def delivers_whole printed_def)
  qed
qed

section \<open>Stacks that are too deep\<close>

lemma enc_frame_min: "46 \<le> length (enc_frame f)"
  by (simp add: enc_frame_def length_enc_str)

lemma enc_status_min: "46 * unat (st_frame_count s) \<le> length (enc_status s)" if "status_ok s"
proof -
  have "46 * length fs \<le> length (concat (map enc_frame fs))" for fs
    using enc_frame_min by (induction fs) (auto simp: add_mono)
  from this [of "arr (st_frames s)"] show ?thesis using that by (simp add: enc_status_def status_ok_def args_ok_def)
qed

text \<open>
  C25: A status with 22796 calls or more never reaches the tool. No size is checked when a message is
  built and sent: the extension sends it with success. The tool refuses every message of more than
  a megabyte: reading the same bytes, in whatever pieces after the header, it reports an invalid
  message.
\<close>

theorem deep_stack_refused:
  assumes "host_ok H" and "buf_ok (w_buf e)" and "nt_fds (w_net e) (g_sock_fd e) = Some k" and "sk_fails k = []"
    and "status_ok s" and "22796 \<le> unat (st_frame_count s)" and "length (enc_status s) < 2 ^ 31"
    and "roomy E" and "buf_ok buf" and "pieces (c # cs)" and "PT_MSG_HEADER_SIZE \<le> length c"
    and "concat (c # cs) = enc_msg PT_MSG_STATUS (word_of_int (g_pid e)) (enc_status s)" and "sk_in j = map Chunk (c # cs) @ rest"
  shows "\<exists>e' k' j' buf'. status_send H s e = Some (0, e') \<and> nt_fds (w_net e') (g_sock_fd e) = Some k' \<and>
    sk_out k' = sk_out k @ concat (c # cs) \<and> pt_comm_recv_msg E j buf = Some (PT_MSG_INVALID, j', buf')"
proof -
  have "1024 * 1024 < length (enc_status s)" using enc_status_min [OF assms(5)] assms(6) by simp
  then have "1024 * 1024 < sint (word_of_nat (length (enc_status s)) :: u32)" using assms(7) by (simp add: sint_of_len)
  then obtain buf' where "pt_comm_recv_msg E j buf =
      Some (PT_MSG_INVALID, j\<lparr>sk_in := map Chunk (eat PT_MSG_HEADER_SIZE (c # cs)) @ rest\<rparr>, buf')"
    using recv_msg_bad_length [OF assms(9,8,10,11) assms(12) [unfolded enc_msg_def]] assms(13) by blast
  with msg_send_delivers [OF assms(1,2) status_len_enc [OF assms(5)] status_pack_enc [OF assms(5)] assms(7,3,4), of PT_MSG_STATUS]
    assms(12) show ?thesis by (auto simp: status_send_def simp del: concat.simps)
qed

definition deep_status :: "bytes pt_status_t" where
  "deep_status = sample_status\<lparr>st_frame_count := 30000, st_frames := Some (replicate 30000 sample_frame)\<rparr>"

theorem deep_stack_refused_witness:
  "\<exists>e' j' buf'. status_send sample_host deep_status (sample_ext (quiet_sock [])) = Some (0, e') \<and>
     pt_comm_recv_msg full_env (quiet_sock [Chunk (enc_msg PT_MSG_STATUS 7 (enc_status deep_status))]) bufst = Some (PT_MSG_INVALID, j', buf')"
proof -
  have ok: "status_ok deep_status" using sample_ok
    by (simp add: deep_status_def status_ok_def sample_status_def args_ok_def arr_def list_all_iff)
  have "length (enc_frame sample_frame) = 61" "length (enc_request sample_request) = 42"
    using frame_len_enc [OF sample_ok(1)] request_len_enc [OF sample_ok(2)] by simp_all
  then have "length (enc_status deep_status) < 2 ^ 31"
    by (simp add: deep_status_def enc_status_def sample_status_def arr_def length_concat length_enc_str sum_list_replicate mk_sds_def)
  with ok show ?thesis
    using deep_stack_refused [of sample_host "sample_ext (quiet_sock [])" "quiet_sock []" deep_status full_env bufst
      "enc_msg PT_MSG_STATUS 7 (enc_status deep_status)" "[]" "quiet_sock [Chunk (enc_msg PT_MSG_STATUS 7 (enc_status deep_status))]" "[]"]
    by (auto simp: deep_status_def pieces_def enc_msg_def)
qed

end
